(* ===== verification/Prelude.thy ===== *)
theory Prelude
  imports Main "HOL-Library.Word" "HOL-Library.Sublist"
begin

text \<open>
  Shared vocabulary of the development: the ways a C++ run can go wrong (\<open>fault\<close>), the result
  type of code that may go wrong (\<open>fault + 'a\<close>) with its sequencing operator, the 64-bit
  \<open>long\<close> of the LP64 Linux target on which the repository builds, and the collections of
  simplification rules the component theories add to.
\<close>

unbundle bit_operations_syntax

named_theorems fault_simps \<open>rules for code whose result is a fault or a value\<close>
named_theorems clib_simps \<open>evaluation of the C library functions\<close>
named_theorems trace_simps \<open>counting events of a trace\<close>

section \<open>Faults\<close>

text \<open>
  Undefined behaviour of C++ and the abnormal ends of a run are values of the model: an arithmetic
  overflow of a signed integer, a read or write outside an object, the use of a null pointer or of
  an uninitialised buffer, a \<open>free\<close> of something that is not a live allocation, an exception
  that leaves a C callback, and a failed \<open>assert\<close>.
\<close>

datatype fault =
    Signed_Overflow
  | Null_Deref
  | Out_Of_Bounds
  | Buffer_Overflow
  | Uninit_Read
  | Bad_Free
  | Double_Free
  | Uncaught_Exception
  | Assert_Failed

type_synonym 'a run = "fault + 'a"

text \<open>Sequencing: a fault ends the run.\<close>

fun and_then :: "'a run \<Rightarrow> ('a \<Rightarrow> 'b run) \<Rightarrow> 'b run" where
  "and_then (Inl f) k = Inl f"
| "and_then (Inr x) k = k x"

lemma and_then_Inr_iff [fault_simps]:
  "and_then r k = Inr y \<longleftrightarrow> (\<exists>x. r = Inr x \<and> k x = Inr y)"
  by (cases r) auto

lemma and_then_Inl_iff [fault_simps]:
  "and_then r k = Inl f \<longleftrightarrow> r = Inl f \<or> (\<exists>x. r = Inr x \<and> k x = Inl f)"
  by (cases r) auto

lemma and_then_assoc:
  "and_then (and_then r j) k = and_then r (\<lambda>x. and_then (j x) k)"
  by (cases r) simp_all

lemma and_then_cong [fundef_cong]:
  "r = r' \<Longrightarrow> (\<And>x. r' = Inr x \<Longrightarrow> k x = k' x) \<Longrightarrow> and_then r k = and_then r' k'"
  by (cases r') simp_all

section \<open>The type long\<close>

definition long_max :: int where
  "long_max = 9223372036854775807"

definition long_min :: int where
  "long_min = -9223372036854775808"

definition is_long :: "int \<Rightarrow> bool" where
  "is_long z \<longleftrightarrow> long_min \<le> z \<and> z \<le> long_max"

text \<open>An arithmetic result that does not fit a \<open>long\<close> is undefined behaviour.\<close>

definition to_long :: "int \<Rightarrow> int run" where
  "to_long z = (if is_long z then Inr z else Inl Signed_Overflow)"

lemmas long_defs = long_max_def long_min_def is_long_def to_long_def

lemma to_long_Inr_iff [fault_simps]: "to_long z = Inr y \<longleftrightarrow> y = z \<and> is_long z"
  by (auto simp: to_long_def)

lemma is_long_word: "is_long (sint (w :: 64 word))"
  using sint_lt [of w] sint_ge [of w] by (simp add: is_long_def long_max_def long_min_def)

section \<open>Lists\<close>

lemma takeWhile_all_append:
  "\<forall>x \<in> set xs. P x \<Longrightarrow> takeWhile P (xs @ ys) = xs @ takeWhile P ys"
  by (induction xs) auto

lemma dropWhile_all_append:
  "\<forall>x \<in> set xs. P x \<Longrightarrow> dropWhile P (xs @ ys) = dropWhile P ys"
  by (induction xs) auto

lemma takeWhile_all: "\<forall>x \<in> set xs. P x \<Longrightarrow> takeWhile P xs = xs"
  by (induction xs) auto

lemma dropWhile_all: "\<forall>x \<in> set xs. P x \<Longrightarrow> dropWhile P xs = []"
  by (induction xs) auto

lemma takeWhile_up_to: "takeWhile (\<lambda>y. y \<noteq> x) (xs @ x # ys) = xs \<longleftrightarrow> x \<notin> set xs"
  by (induction xs) auto

lemma filter_none [simp]: "\<forall>x \<in> set xs. \<not> P x \<Longrightarrow> filter P xs = []"
  by (induction xs) auto

lemma take_eq_self_iff: "take n xs = xs \<longleftrightarrow> length xs \<le> n"
  by (metis length_take min.absorb_iff2 min.commute take_all)

end
