(* ===== verification/CString.thy ===== *)
theory CString
  imports Prelude
begin

text \<open>
  The part of the C library the repository uses on strings. A C string is the \<open>string\<close> of its
  bytes before the terminating NUL. \<open>atoi\<close>/\<open>atol\<close> are the glibc conversions (saturating
  \<open>strtol\<close>, then truncated to 32 bits by \<open>atoi\<close>), \<open>snprintf\<close> with the formats
  \<open>%ld\<close>, \<open>%d\<close> and \<open>%s\<close>, \<open>strncmp\<close> used for equality, and \<open>strtok\<close> with the
  single delimiter used by the code. The lemmas show that printing and reading decimals are
  inverse to each other.
\<close>

section \<open>Characters\<close>

text \<open>The two quote characters, which cannot be written inside a string literal.\<close>

abbreviation quote :: char where
  "quote \<equiv> CHR 0x27"

abbreviation dquote :: char where
  "dquote \<equiv> CHR 0x22"

text \<open>The value of a \<open>char\<close>, which is signed on the target.\<close>

definition schar :: "char \<Rightarrow> int" where
  "schar c = (let n = of_char c in if n < 128 then n else n - 256)"

lemma of_char_range: "0 \<le> (of_char c :: int) \<and> (of_char c :: int) < 256"
proof -
  have "(of_char c :: int) = of_char c mod 256" by simp
  then show ?thesis by (metis pos_mod_bound pos_mod_sign zero_less_numeral)
qed

lemma schar_eq_iff [simp]: "schar c = schar d \<longleftrightarrow> c = d"
proof
  assume "schar c = schar d"
  then have "(of_char c :: int) = of_char d"
    using of_char_range [of c] of_char_range [of d]
    by (auto simp: schar_def Let_def split: if_splits)
  then show "c = d" by simp
qed simp

definition is_digit :: "char \<Rightarrow> bool" where
  "is_digit c \<longleftrightarrow> 48 \<le> schar c \<and> schar c \<le> 57"

definition digit_val :: "char \<Rightarrow> int" where
  "digit_val c = schar c - 48"

definition c_isspace :: "char \<Rightarrow> bool" where
  "c_isspace c \<longleftrightarrow> schar c = 32 \<or> (9 \<le> schar c \<and> schar c \<le> 13)"

text \<open>The digit of a number below ten.\<close>

definition digit_char :: "nat \<Rightarrow> char" where
  "digit_char d = char_of (48 + d)"

lemma schar_digit_char: "d < 10 \<Longrightarrow> schar (digit_char d) = 48 + int d"
proof -
  assume "d < 10"
  then have "of_char (char_of (48 + d)) = 48 + d"
    by (simp add: of_char_of)
  then have "of_char (char_of (48 + d) :: char) = (48 + int d)"
    by (metis of_char_of of_nat_add of_nat_of_char of_nat_numeral)
  with \<open>d < 10\<close> show ?thesis
    by (simp add: schar_def digit_char_def)
qed

lemma is_digit_digit_char [simp]: "d < 10 \<Longrightarrow> is_digit (digit_char d)"
  by (simp add: is_digit_def schar_digit_char)

lemma digit_val_digit_char [simp]: "d < 10 \<Longrightarrow> digit_val (digit_char d) = int d"
  by (simp add: digit_val_def schar_digit_char)

lemma digit_val_bounds: "is_digit c \<Longrightarrow> 0 \<le> digit_val c \<and> digit_val c \<le> 9"
  by (simp add: is_digit_def digit_val_def)

section \<open>Decimals\<close>

text \<open>The number a list of digits denotes, read from the left with an accumulator.\<close>

fun digits_from :: "int \<Rightarrow> string \<Rightarrow> int" where
  "digits_from acc [] = acc"
| "digits_from acc (c # cs) = digits_from (acc * 10 + digit_val c) cs"

definition digits_val :: "string \<Rightarrow> int" where
  "digits_val s = digits_from 0 s"

lemma digits_from_append [simp]:
  "digits_from acc (s @ t) = digits_from (digits_from acc s) t"
  by (induction s arbitrary: acc) simp_all

lemma digits_from_ge:
  "0 \<le> acc \<Longrightarrow> \<forall>c \<in> set s. is_digit c \<Longrightarrow> acc \<le> digits_from acc s"
proof (induction s arbitrary: acc)
  case Nil
  then show ?case by simp
next
  case (Cons c s)
  from Cons.prems have d: "0 \<le> digit_val c" by (simp add: digit_val_bounds)
  with Cons.prems have "acc * 10 + digit_val c \<le> digits_from (acc * 10 + digit_val c) s"
    by (intro Cons.IH) auto
  with d Cons.prems(1) show ?case by simp
qed

lemma digits_val_nonneg: "\<forall>c \<in> set s. is_digit c \<Longrightarrow> 0 \<le> digits_val s"
  using digits_from_ge [of 0 s] by (simp add: digits_val_def)

text \<open>Printing a natural number, and an integer (the format \<open>%ld\<close> or \<open>%d\<close>).\<close>

fun dec_nat :: "nat \<Rightarrow> string" where
  "dec_nat n = (if n < 10 then [digit_char n] else dec_nat (n div 10) @ [digit_char (n mod 10)])"

declare dec_nat.simps [simp del]

definition dec_int :: "int \<Rightarrow> string" where
  "dec_int z = (if z < 0 then CHR ''-'' # dec_nat (nat (- z)) else dec_nat (nat z))"

lemma dec_nat_nonempty [simp]: "dec_nat n \<noteq> []"
  by (subst dec_nat.simps) simp

lemma dec_nat_digits: "c \<in> set (dec_nat n) \<Longrightarrow> is_digit c"
proof (induction n rule: dec_nat.induct)
  case (1 n)
  then show ?case
    by (cases "n < 10") (auto simp: dec_nat.simps [of n])
qed

lemma digits_val_dec_nat [simp]: "digits_val (dec_nat n) = int n"
proof (induction n rule: dec_nat.induct)
  case (1 n)
  show ?case
  proof (cases "n < 10")
    case True
    then show ?thesis by (simp add: dec_nat.simps [of n] digits_val_def)
  next
    case False
    with 1 have "digits_from 0 (dec_nat (n div 10)) = int (n div 10)"
      by (simp add: digits_val_def)
    with False show ?thesis
      by (simp add: dec_nat.simps [of n] digits_val_def zdiv_int zmod_int)
  qed
qed

lemma dec_nat_inject [simp]: "dec_nat m = dec_nat n \<longleftrightarrow> m = n"
  by (metis digits_val_dec_nat of_nat_eq_iff)

lemma length_dec_nat_le: "0 < k \<Longrightarrow> n < 10 ^ k \<Longrightarrow> length (dec_nat n) \<le> k"
proof (induction k arbitrary: n)
  case 0
  then show ?case by simp
next
  case (Suc k)
  show ?case
  proof (cases "n < 10")
    case True
    then show ?thesis by (simp add: dec_nat.simps [of n])
  next
    case False
    with Suc.prems have "0 < k" and "n div 10 < 10 ^ k"
      by (auto intro!: Suc_leI less_mult_imp_div_less simp: mult.commute elim: contrapos_np)
    then have "length (dec_nat (n div 10)) \<le> k" by (rule Suc.IH)
    with False show ?thesis by (simp add: dec_nat.simps [of n])
  qed
qed

section \<open>Reading integers\<close>

text \<open>\<open>strtol\<close> in base ten with its saturation; \<open>atol\<close> is it and \<open>atoi\<close> truncates it.\<close>

definition strtol10 :: "string \<Rightarrow> int" where
  "strtol10 s =
     (let t = dropWhile c_isspace s;
          neg = (t \<noteq> [] \<and> hd t = CHR ''-'');
          u = (if t \<noteq> [] \<and> (hd t = CHR ''-'' \<or> hd t = CHR ''+'') then tl t else t);
          v = digits_val (takeWhile is_digit u);
          w = (if neg then - v else v)
      in max long_min (min long_max w))"

definition atol :: "string \<Rightarrow> int" where
  "atol s = strtol10 s"

definition to_int32 :: "int \<Rightarrow> int" where
  "to_int32 z = (z + 2147483648) mod 4294967296 - 2147483648"

definition atoi :: "string \<Rightarrow> int" where
  "atoi s = to_int32 (strtol10 s)"

lemma atol_is_long: "is_long (atol s)"
  by (simp add: atol_def strtol10_def long_defs Let_def)

lemma atoi_range: "- 2147483648 \<le> atoi s \<and> atoi s \<le> 2147483647"
proof -
  have "0 \<le> z mod 4294967296 \<and> z mod 4294967296 < 4294967296" for z :: int by simp
  from this [of "strtol10 s + 2147483648"] show ?thesis
    by (simp add: atoi_def to_int32_def)
qed

lemma to_int32_id: "- 2147483648 \<le> z \<Longrightarrow> z \<le> 2147483647 \<Longrightarrow> to_int32 z = z"
  by (simp add: to_int32_def mod_pos_pos_trivial)

lemma digit_not_space: "is_digit c \<Longrightarrow> \<not> c_isspace c"
  by (auto simp: is_digit_def c_isspace_def)

lemma digit_not_sign: "is_digit c \<Longrightarrow> c \<noteq> CHR ''-'' \<and> c \<noteq> CHR ''+''"
  by (auto simp: is_digit_def schar_def)

lemma strtol10_digits:
  assumes "s \<noteq> []" "\<forall>c \<in> set s. is_digit c"
  shows "strtol10 s = min long_max (digits_val s)"
proof -
  obtain c cs where s: "s = c # cs" using assms(1) by (cases s) auto
  with assms(2) have c: "is_digit c" by simp
  then have "dropWhile c_isspace s = s" by (simp add: s digit_not_space)
  moreover have "takeWhile is_digit s = s" using assms(2) by (simp add: takeWhile_eq_all_conv)
  moreover have "c \<noteq> CHR ''-''" "c \<noteq> CHR ''+''" using c by (auto dest: digit_not_sign)
  moreover have "0 \<le> digits_val s" using assms(2) by (rule digits_val_nonneg)
  ultimately show ?thesis by (simp add: strtol10_def Let_def s long_max_def long_min_def)
qed

lemma strtol10_dec_nat: "int n \<le> long_max \<Longrightarrow> strtol10 (dec_nat n) = int n"
  by (simp add: strtol10_digits dec_nat_digits)

lemma strtol10_minus_dec_nat:
  assumes "- int n \<ge> long_min"
  shows "strtol10 (CHR ''-'' # dec_nat n) = - int n"
proof -
  have "\<not> c_isspace CHR ''-''" by (simp add: c_isspace_def schar_def)
  then show ?thesis using assms
    by (simp add: strtol10_def long_max_def long_min_def takeWhile_all dec_nat_digits)
qed

lemma atol_dec_int: "is_long z \<Longrightarrow> atol (dec_int z) = z"
  by (simp add: atol_def dec_int_def is_long_def strtol10_dec_nat strtol10_minus_dec_nat)

section \<open>Bounded printing, comparison and tokens\<close>

text \<open>What a call \<open>snprintf(buf, n, \<dots>)\<close> leaves in the buffer when the whole output is \<open>s\<close>.\<close>

definition snprintf_buf :: "nat \<Rightarrow> string \<Rightarrow> string" where
  "snprintf_buf n s = take (n - 1) s"

lemma snprintf_buf_fits: "length s < n \<Longrightarrow> snprintf_buf n s = s"
  by (simp add: snprintf_buf_def)

lemma length_snprintf_buf: "0 < n \<Longrightarrow> length (snprintf_buf n s) < n"
  by (simp add: snprintf_buf_def)

text \<open>\<open>strncmp(a, b, n) == 0\<close>.\<close>

definition strncmp_eq :: "string \<Rightarrow> string \<Rightarrow> nat \<Rightarrow> bool" where
  "strncmp_eq a b n \<longleftrightarrow> take n a = take n b"

text \<open>\<open>strtok(s, " ")\<close>: the next token and what is left after the delimiter that ends it.\<close>

definition strtok_space :: "string \<Rightarrow> (string \<times> string) option" where
  "strtok_space s =
     (let t = dropWhile (\<lambda>c. c = CHR '' '') s
      in if t = [] then None
         else Some (takeWhile (\<lambda>c. c \<noteq> CHR '' '') t, tl (dropWhile (\<lambda>c. c \<noteq> CHR '' '') t)))"

lemma strtok_space_token:
  assumes "strtok_space s = Some (tok, rest)"
  shows "tok \<noteq> [] \<and> CHR '' '' \<notin> set tok"
proof -
  let ?t = "dropWhile (\<lambda>c. c = CHR '' '') s"
  from assms have ne: "?t \<noteq> []" and tok: "tok = takeWhile (\<lambda>c. c \<noteq> CHR '' '') ?t"
    by (auto simp: strtok_space_def Let_def split: if_splits)
  from ne have "hd ?t \<noteq> CHR '' ''" by (rule hd_dropWhile)
  with ne have "tok \<noteq> []" by (cases ?t) (auto simp: tok)
  moreover have "CHR '' '' \<notin> set tok" by (auto simp: tok dest: set_takeWhileD)
  ultimately show ?thesis ..
qed

lemma strtok_space_word:
  assumes "w \<noteq> []" "CHR '' '' \<notin> set w"
  shows "strtok_space (w @ CHR '' '' # r) = Some (w, r)" and "strtok_space w = Some (w, [])"
proof -
  obtain c cs where w: "w = c # cs" using assms(1) by (cases w) auto
  with assms(2) have c: "c \<noteq> CHR '' ''" "CHR '' '' \<notin> set cs" by auto
  have all: "\<forall>x \<in> set cs. x \<noteq> CHR '' ''" using c(2) by auto
  have "takeWhile (\<lambda>c. c \<noteq> CHR '' '') (cs @ CHR '' '' # r) = cs"
    using all by (subst takeWhile_all_append) auto
  moreover have "dropWhile (\<lambda>c. c \<noteq> CHR '' '') (cs @ CHR '' '' # r) = CHR '' '' # r"
    using all by (subst dropWhile_all_append) auto
  ultimately show "strtok_space (w @ CHR '' '' # r) = Some (w, r)" "strtok_space w = Some (w, [])"
    using c(1)
    by (simp_all add: w strtok_space_def Let_def takeWhile_all [OF all] dropWhile_all [OF all])
qed

end
