(* ===== verification/Uid.thy ===== *)
theory Uid
  imports CString
begin

text \<open>
  \<open>get_uid\<close> of \<open>auth_plugin.cc\<close>: the user id an MQTT user name stands for. The value is
  accumulated in a \<open>long\<close>, so that too many digits are undefined behaviour; \<open>-1\<close> means that
  the name is not a user id. A closed form of the loop is given for every string.
\<close>

section \<open>The loop\<close>

text \<open>
  The loop body: \<open>d = username[i] - '0'\<close>; a digit is appended, and of the other characters
  those with \<open>d == ' '\<close> are skipped (\<open>d\<close>, not the character, is compared with the blank),
  every other one ends the scan with \<open>-1\<close>.
\<close>

fun get_uid_loop :: "string \<Rightarrow> int \<Rightarrow> int run" where
  "get_uid_loop [] uid = Inr uid"
| "get_uid_loop (c # cs) uid =
     (let d = schar c - schar CHR ''0'' in
      if d \<ge> 0 \<and> d \<le> 9
      then and_then (to_long (uid * 10)) (\<lambda>u. and_then (to_long (u + d)) (get_uid_loop cs))
      else if d \<noteq> schar CHR '' '' then Inr (-1)
      else get_uid_loop cs uid)"

definition get_uid :: "string \<Rightarrow> int run" where
  "get_uid username = (if username = [] then Inr (-1) else get_uid_loop username 0)"

section \<open>What it computes\<close>

text \<open>The characters that do not end the scan: the digits and the one with offset 32 from \<open>'0'\<close>.\<close>

definition uid_char :: "char \<Rightarrow> bool" where
  "uid_char c \<longleftrightarrow> is_digit c \<or> c = CHR ''P''"

text \<open>The number read before the scan ends, without a bound.\<close>

definition uid_value :: "string \<Rightarrow> int" where
  "uid_value s = digits_val (filter is_digit (takeWhile uid_char s))"

lemma uid_char_alt: "uid_char c \<longleftrightarrow> is_digit c \<or> schar c - schar CHR ''0'' = schar CHR '' ''"
proof -
  have "schar c - schar CHR ''0'' = schar CHR '' '' \<longleftrightarrow> schar c = schar CHR ''P''"
    by (auto simp: schar_def [of "CHR ''0''"] schar_def [of "CHR '' ''"] schar_def [of "CHR ''P''"])
  then show ?thesis by (simp add: uid_char_def)
qed

lemma P_not_digit [simp]: "\<not> is_digit CHR ''P''"
  by (simp add: is_digit_def schar_def)

lemma get_uid_loop_step:
  "get_uid_loop (c # cs) uid =
     (if is_digit c then
        (if is_long (uid * 10)
         then (if is_long (uid * 10 + digit_val c) then get_uid_loop cs (uid * 10 + digit_val c)
               else Inl Signed_Overflow)
         else Inl Signed_Overflow)
      else if uid_char c then get_uid_loop cs uid else Inr (-1))"
proof -
  have zero: "schar CHR ''0'' = 48" by (simp add: schar_def)
  have digit: "is_digit c \<longleftrightarrow> schar c - 48 \<ge> 0 \<and> schar c - 48 \<le> 9"
    by (auto simp: is_digit_def)
  show ?thesis
    by (simp add: Let_def zero to_long_def digit_val_def uid_char_alt digit del: schar_eq_iff)
qed

lemma get_uid_loop_eq:
  assumes "0 \<le> uid" "uid \<le> long_max"
  shows "get_uid_loop s uid =
    (if digits_from uid (filter is_digit (takeWhile uid_char s)) \<le> long_max
     then Inr (if \<forall>c \<in> set s. uid_char c then digits_from uid (filter is_digit s) else -1)
     else Inl Signed_Overflow)"
  using assms
proof (induction s arbitrary: uid)
  case Nil
  then show ?case by simp
next
  case (Cons c cs)
  let ?rest = "filter is_digit (takeWhile uid_char cs)"
  consider (digit) "is_digit c" | (skip) "c = CHR ''P''" | (stop) "\<not> uid_char c"
    by (auto simp: uid_char_def)
  then show ?case
  proof cases
    case digit
    let ?u = "uid * 10 + digit_val c"
    have d: "0 \<le> digit_val c" using digit_val_bounds [OF digit] by simp
    then have u: "0 \<le> ?u" "uid * 10 \<le> ?u" using Cons.prems(1) by auto
    have ge: "?u \<le> digits_from ?u ?rest" by (rule digits_from_ge) (use u(1) in auto)
    have uc: "uid_char c" using digit by (simp add: uid_char_def)
    show ?thesis
    proof (cases "?u \<le> long_max")
      case True
      then have "is_long (uid * 10)" "is_long ?u"
        using u Cons.prems(1) by (auto simp: is_long_def long_min_def)
      with True u digit uc show ?thesis
        by (simp add: get_uid_loop_step Cons.IH [of ?u] del: get_uid_loop.simps)
    next
      case False
      then have "\<not> is_long ?u" by (simp add: is_long_def)
      with False ge digit uc show ?thesis
        by (simp add: get_uid_loop_step del: get_uid_loop.simps)
    qed
  next
    case skip
    then have "\<not> is_digit c" "uid_char c" by (auto simp: uid_char_def)
    with Cons.IH [OF Cons.prems] show ?thesis
      by (simp add: get_uid_loop_step del: get_uid_loop.simps)
  next
    case stop
    then have "\<not> is_digit c" by (simp add: uid_char_def)
    with stop Cons.prems(2) show ?thesis
      by (simp add: get_uid_loop_step del: get_uid_loop.simps)
  qed
qed

lemma get_uid_eq [fault_simps]:
  "get_uid s =
    (if uid_value s \<le> long_max
     then Inr (if s \<noteq> [] \<and> list_all uid_char s then digits_val (filter is_digit s) else -1)
     else Inl Signed_Overflow)"
  by (simp add: get_uid_def get_uid_loop_eq uid_value_def digits_val_def list_all_iff long_max_def)

lemma get_uid_total: "uid_value s \<le> long_max \<longleftrightarrow> (\<exists>v. get_uid s = Inr v)"
  by (simp add: get_uid_eq)

lemma get_uid_digits:
  assumes "s \<noteq> []" "\<forall>c \<in> set s. is_digit c" "digits_val s \<le> long_max"
  shows "get_uid s = Inr (digits_val s)"
proof -
  have "\<forall>c \<in> set s. uid_char c" using assms(2) by (simp add: uid_char_def)
  then show ?thesis using assms
    by (simp add: get_uid_eq uid_value_def takeWhile_all list_all_iff
        filter_id_conv [THEN iffD2])
qed

lemma get_uid_dec_nat: "int n \<le> long_max \<Longrightarrow> get_uid (dec_nat n) = Inr (int n)"
  by (simp add: get_uid_digits dec_nat_digits)

lemma get_uid_range: "get_uid s = Inr v \<Longrightarrow> -1 \<le> v \<and> v \<le> long_max"
proof -
  assume r: "get_uid s = Inr v"
  show ?thesis
  proof (cases "s \<noteq> [] \<and> list_all uid_char s")
    case True
    then have "uid_value s = digits_val (filter is_digit s)"
      by (simp add: uid_value_def takeWhile_all list_all_iff)
    moreover have "0 \<le> digits_val (filter is_digit s)" by (rule digits_val_nonneg) simp
    ultimately show ?thesis using r True
      by (auto simp: get_uid_eq split: if_splits)
  next
    case False
    with r show ?thesis by (auto simp: get_uid_eq long_max_def split: if_splits)
  qed
qed

text \<open>
  C12. For every user name, \<open>get_uid\<close> either overflows, exactly when the digits before the first
  rejected character exceed the range of \<open>long\<close>, or returns the number the digits denote if all
  characters are accepted and the name is not empty, and \<open>-1\<close> otherwise.
\<close>

theorem get_uid_closed_form:
  "get_uid s =
    (if digits_val (filter is_digit (takeWhile uid_char s)) \<le> long_max
     then Inr (if s \<noteq> [] \<and> list_all uid_char s then digits_val (filter is_digit s) else -1)
     else Inl Signed_Overflow)"
  by (simp add: get_uid_eq uid_value_def)

text \<open>
  Every user id that fits a \<open>long\<close> is recovered from its decimal text.
\<close>

theorem get_uid_print_roundtrip:
  assumes "0 \<le> uid" "uid \<le> long_max"
  shows "get_uid (dec_int uid) = Inr uid"
  using assms by (simp add: dec_int_def get_uid_dec_nat)

theorem get_uid_print_roundtrip_witness:
  "(0 :: int) \<le> 8000000001 \<and> 8000000001 \<le> long_max \<and> get_uid (dec_int 8000000001) = Inr 8000000001"
  using get_uid_print_roundtrip [of 8000000001] by (simp add: long_max_def)

text \<open>
  A blank in a user name is rejected, while the letter \<open>P\<close> is skipped: the loop compares
  the offset from \<open>'0'\<close>, and not the character, with the blank.
\<close>

theorem get_uid_blank_and_P:
  "get_uid ''10 7'' = Inr (-1) \<and> get_uid ''10P7'' = Inr 107 \<and> get_uid ''P'' = Inr 0"
  by (simp add: get_uid_def schar_def to_long_def is_long_def long_max_def long_min_def)

end
