(* ===== verification/Wire.thy ===== *)
theory Wire
  imports Prelude
begin

text \<open>
  The framing of the messages \<open>mqttest\<close> sends and receives: two bytes of message type and
  eight bytes of message id, most significant byte first, then the serialised body
  (\<open>send_mqtt_msg\<close> writes it, \<open>dump_im_msg\<close> and \<open>dump_mqtt\<close> read it). The locale
  \<open>codec\<close> is the contract between a writer and a reader of frames; it is interpreted on the
  two functions of the code.
\<close>

type_synonym byte = "8 word"

section \<open>The contract of a frame codec\<close>

locale codec =
  fixes enc :: "'a \<Rightarrow> 'b list"
    and dec :: "'b list \<Rightarrow> 'a option"
  assumes dec_enc: "dec (enc x) = Some x"
    and enc_dec: "dec bs = Some x \<Longrightarrow> enc x = bs"
begin

lemma dec_Some_iff: "dec bs = Some x \<longleftrightarrow> bs = enc x"
  using dec_enc enc_dec by blast

lemma enc_inject: "enc x = enc y \<longleftrightarrow> x = y"
  by (metis dec_enc option.inject)

lemma dec_inject: "dec bs = Some x \<Longrightarrow> dec cs = Some x \<Longrightarrow> bs = cs"
  by (simp add: dec_Some_iff)

lemma dec_None_iff: "dec bs = None \<longleftrightarrow> bs \<notin> range enc"
  by (metis dec_Some_iff not_None_eq rangeE rangeI)

end

section \<open>Writing a frame\<close>

text \<open>
  The ten header bytes as \<open>send_mqtt_msg\<close> computes them: \<open>type\<close> is an \<open>unsigned short\<close>,
  \<open>id\<close> a \<open>long\<close>, so that its right shifts are arithmetic.
\<close>

definition put_header :: "16 word \<Rightarrow> 64 word \<Rightarrow> byte list" where
  "put_header ty mid =
     [ucast (drop_bit 8 ty),
      ucast (ty AND 0xff),
      ucast (signed_drop_bit 56 mid AND 0xff),
      ucast (signed_drop_bit 48 mid AND 0xff),
      ucast (signed_drop_bit 40 mid AND 0xff),
      ucast (signed_drop_bit 32 mid AND 0xff),
      ucast (signed_drop_bit 24 mid AND 0xff),
      ucast (signed_drop_bit 16 mid AND 0xff),
      ucast (signed_drop_bit 8 mid AND 0xff),
      ucast (mid AND 0xff)]"

definition frame :: "16 word \<Rightarrow> 64 word \<Rightarrow> byte list \<Rightarrow> byte list" where
  "frame ty mid body = put_header ty mid @ body"

lemma length_put_header [simp]: "length (put_header ty mid) = 10"
  by (simp add: put_header_def)

lemma length_frame [simp]: "length (frame ty mid body) = length body + 10"
  by (simp add: frame_def)

section \<open>Reading a frame\<close>

text \<open>
  The reader refuses a payload of fewer than ten bytes and otherwise assembles \<open>int ty\<close> and
  \<open>uint64_t mid\<close> from the bytes; the body is what follows the header.
\<close>

definition get_type :: "byte list \<Rightarrow> 32 word" where
  "get_type p = push_bit 8 (ucast (p ! 0)) OR ucast (p ! 1)"

definition get_id :: "byte list \<Rightarrow> 64 word" where
  "get_id p =
     push_bit 56 (ucast (p ! 2)) OR push_bit 48 (ucast (p ! 3)) OR
     push_bit 40 (ucast (p ! 4)) OR push_bit 32 (ucast (p ! 5)) OR
     push_bit 24 (ucast (p ! 6)) OR push_bit 16 (ucast (p ! 7)) OR
     push_bit 8 (ucast (p ! 8)) OR ucast (p ! 9)"

definition parse_header :: "byte list \<Rightarrow> (32 word \<times> 64 word \<times> byte list) option" where
  "parse_header p = (if length p < 10 then None else Some (get_type p, get_id p, drop 10 p))"

lemma parse_header_None_iff: "parse_header p = None \<longleftrightarrow> length p < 10"
  by (simp add: parse_header_def)

section \<open>The two agree\<close>

text \<open>
  Bit \<open>n\<close> of the byte written from position \<open>k\<close>, and of that byte moved back to its place.
\<close>

lemma bit_and_255: "n < 8 \<Longrightarrow> bit (w AND 255) n \<longleftrightarrow> bit (w :: 'a::len word) n"
proof -
  assume "n < 8"
  have "(255 :: 'a word) = mask 8" by (simp add: mask_eq_exp_minus_1)
  then have "w AND 255 = take_bit 8 w" by (simp add: take_bit_eq_mask)
  with \<open>n < 8\<close> show ?thesis by (simp add: bit_take_bit_iff)
qed

lemma bit_byte_in_place:
  assumes "k \<le> 56"
  shows "bit (push_bit k (ucast (ucast (signed_drop_bit k w AND 0xff) :: byte)) :: 64 word) n
    \<longleftrightarrow> k \<le> n \<and> n < k + 8 \<and> bit (w :: 64 word) n"
proof (cases "k \<le> n \<and> n < k + 8")
  case True
  then have "n - k < 8" "n < 64" "k + (n - k) = n" "\<not> 64 - k \<le> n - k" using assms by auto
  with True show ?thesis
    by (simp add: bit_push_bit_iff bit_unsigned_iff bit_and_255 bit_signed_drop_bit_iff)
next
  case False
  then show ?thesis
    by (auto simp: bit_push_bit_iff bit_unsigned_iff)
qed

lemma bit_low_byte_wide:
  "bit (ucast (ucast (w AND 0xff) :: byte) :: 64 word) n \<longleftrightarrow> n < 8 \<and> bit (w :: 64 word) n"
  by (auto simp: bit_unsigned_iff bit_and_255)

lemma get_id_put_header: "get_id (put_header ty mid @ body) = mid"
proof (rule bit_word_eqI)
  fix n
  assume "n < LENGTH(64)"
  then have "n < 64" by simp
  then have n: "n < 8 \<or> (8 \<le> n \<and> n < 16) \<or> (16 \<le> n \<and> n < 24) \<or> (24 \<le> n \<and> n < 32) \<or>
      (32 \<le> n \<and> n < 40) \<or> (40 \<le> n \<and> n < 48) \<or> (48 \<le> n \<and> n < 56) \<or> (56 \<le> n \<and> n < 64)"
    by arith
  have "bit (get_id (put_header ty mid @ body)) n \<longleftrightarrow>
      (56 \<le> n \<and> n < 64 \<and> bit mid n) \<or> (48 \<le> n \<and> n < 56 \<and> bit mid n) \<or>
      (40 \<le> n \<and> n < 48 \<and> bit mid n) \<or> (32 \<le> n \<and> n < 40 \<and> bit mid n) \<or>
      (24 \<le> n \<and> n < 32 \<and> bit mid n) \<or> (16 \<le> n \<and> n < 24 \<and> bit mid n) \<or>
      (8 \<le> n \<and> n < 16 \<and> bit mid n) \<or> (n < 8 \<and> bit mid n)"
    by (simp add: get_id_def put_header_def bit_or_iff bit_byte_in_place bit_low_byte_wide)
  with n show "bit (get_id (put_header ty mid @ body)) n \<longleftrightarrow> bit mid n" by blast
qed

lemma get_type_put_header: "get_type (put_header ty mid @ body) = ucast ty"
proof (rule bit_word_eqI)
  fix n
  assume "n < LENGTH(32)"
  then have n: "n < 8 \<or> (8 \<le> n \<and> n < 16) \<or> (16 \<le> n \<and> n < 32)" by auto
  have "\<not> bit ty n" if "16 \<le> n" using that bit_imp_le_length [of ty n] by auto
  with n show "bit (get_type (put_header ty mid @ body)) n \<longleftrightarrow> bit (ucast ty :: 32 word) n"
    by (auto simp: get_type_def put_header_def bit_or_iff bit_push_bit_iff bit_unsigned_iff
        bit_and_255 bit_drop_bit_eq)
qed

text \<open>The other direction: the header written from what was read is the header that was read.\<close>

lemma bit_byte_high: "8 \<le> n \<Longrightarrow> \<not> bit (b :: byte) n"
  using bit_imp_le_length [of b n] by auto

lemma bit_byteD: "bit (b :: byte) n \<Longrightarrow> n < 8"
  using bit_byte_high by (meson not_less)

lemma put_header_get:
  assumes "length p \<ge> 10"
  shows "put_header (ucast (get_type p)) (get_id p) = take 10 p"
proof -
  have ty: "ucast (drop_bit 8 (ucast (get_type p) :: 16 word)) = p ! 0"
    "ucast ((ucast (get_type p) :: 16 word) AND 0xff) = p ! 1"
    by (rule bit_word_eqI; auto simp: get_type_def bit_unsigned_iff bit_drop_bit_eq bit_or_iff
        bit_push_bit_iff bit_byte_high bit_and_255)+
  have mid: "ucast (signed_drop_bit 56 (get_id p) AND 0xff) = p ! 2"
    "ucast (signed_drop_bit 48 (get_id p) AND 0xff) = p ! 3"
    "ucast (signed_drop_bit 40 (get_id p) AND 0xff) = p ! 4"
    "ucast (signed_drop_bit 32 (get_id p) AND 0xff) = p ! 5"
    "ucast (signed_drop_bit 24 (get_id p) AND 0xff) = p ! 6"
    "ucast (signed_drop_bit 16 (get_id p) AND 0xff) = p ! 7"
    "ucast (signed_drop_bit 8 (get_id p) AND 0xff) = p ! 8"
    "ucast (get_id p AND 0xff) = p ! 9"
    by (rule bit_word_eqI; auto simp: get_id_def bit_unsigned_iff bit_or_iff bit_signed_drop_bit_iff
        bit_push_bit_iff bit_byte_high bit_and_255)+
  have "take 10 p = [p ! 0, p ! 1, p ! 2, p ! 3, p ! 4, p ! 5, p ! 6, p ! 7, p ! 8, p ! 9]"
    using assms by (intro nth_equalityI) (auto simp: nth_Cons' less_Suc_eq numeral_eq_Suc)
  then show ?thesis by (simp add: put_header_def ty mid)
qed

lemma get_type_16bit: "ucast (ucast (get_type p) :: 16 word) = get_type p"
  by (rule bit_word_eqI) (auto simp: get_type_def bit_unsigned_iff bit_or_iff bit_push_bit_iff
      bit_byte_high dest: bit_byteD)

text \<open>The reader on a frame of the writer, as one function of frames.\<close>

definition write_frame :: "16 word \<times> 64 word \<times> byte list \<Rightarrow> byte list" where
  "write_frame m = (case m of (ty, mid, body) \<Rightarrow> frame ty mid body)"

definition read_frame :: "byte list \<Rightarrow> (16 word \<times> 64 word \<times> byte list) option" where
  "read_frame p = map_option (\<lambda>(ty, mid, body). (ucast ty, mid, body)) (parse_header p)"

interpretation framing: codec write_frame read_frame
proof
  fix m :: "16 word \<times> 64 word \<times> byte list"
  obtain ty mid body where m: "m = (ty, mid, body)" by (cases m)
  have "ucast (ucast ty :: 32 word) = ty"
    by (rule bit_word_eqI) (auto simp: bit_unsigned_iff)
  then show "read_frame (write_frame m) = Some m"
    by (simp add: m read_frame_def write_frame_def parse_header_def frame_def
        get_type_put_header get_id_put_header)
next
  fix p m
  assume "read_frame p = Some m"
  then show "write_frame m = p"
    by (auto simp: read_frame_def write_frame_def parse_header_def frame_def put_header_get
        split: if_splits)
qed

section \<open>Properties\<close>

text \<open>
  C25. The reader accepts exactly the frames the writer makes, and gives back the message type, the
  id (every bit of a negative one too) and the body that were written.
\<close>

theorem frame_codec: "read_frame p = Some m \<longleftrightarrow> p = write_frame m"
  by (rule framing.dec_Some_iff)

text \<open>
  A payload is refused exactly when it has fewer than ten bytes; the type read from any other is
  in the range of an unsigned short, and the header written from what was read is the header that
  was read.
\<close>

theorem parse_header_total:
  "(case parse_header p of
      None \<Rightarrow> length p < 10
    | Some (ty, mid, body) \<Rightarrow> 10 \<le> length p \<and> uint ty < 65536 \<and> put_header (ucast ty) mid @ body = p)"
proof (cases "length p < 10")
  case False
  have "uint (get_type p) = uint (ucast (get_type p) :: 16 word)"
    by (subst get_type_16bit [symmetric], rule uint_up_ucast) (simp add: is_up)
  also have "\<dots> < 65536" using uint_lt2p [of "ucast (get_type p) :: 16 word"] by simp
  finally show ?thesis using False by (simp add: parse_header_def put_header_get)
qed (simp add: parse_header_def)

end
