(* ===== verification/Plugin_World.thy ===== *)
theory Plugin_World
  imports CString Wire "HOL-Library.Multiset"
begin

text \<open>
  What surrounds the auth plugin: the PostgreSQL connection pool, libpq, the socket API, the clock
  and librdkafka are libraries the plugin calls. Every call is an event of a trace, and a record of
  functions gives the answer of each call from the trace so far, so that any behaviour of the
  outside is an instance of the record. Monitors over traces say how connections and query results
  are to be used.
\<close>

section \<open>Calls and answers\<close>

type_synonym conn = nat

datatype pg_status = PGRES_TUPLES_OK | PGRES_COMMAND_OK | PGRES_OTHER

datatype kfk_error = RD_KAFKA_RESP_ERR__QUEUE_FULL | RD_KAFKA_RESP_ERR_OTHER

text \<open>A query result is named by the length of the trace at the call that returned it.\<close>

datatype event =
    Pool_Pop "conn option"
  | Pool_Push conn
  | Pq_Exec conn string nat
  | Pq_Clear nat
  | Peer_Name int
  | Kfk_Produce "byte list" "kfk_error option"
  | Kfk_Poll int
  | Kfk_Flush int
  | Promise_Set
  | Log string

text \<open>The fields of the protocol buffer \<open>kafka_proto::MqttStatus\<close> that the plugin sets.\<close>

datatype status_type = Online

record mqtt_status =
  ms_type :: status_type
  ms_uid :: int
  ms_token :: string
  ms_device :: string
  ms_time_ms :: int
  ms_endpoint :: string

record world =
  pool_pop :: "event list \<Rightarrow> conn option"
  pq_exec :: "event list \<Rightarrow> conn \<Rightarrow> string \<Rightarrow> pg_status \<times> string list"
  pq_error :: "event list \<Rightarrow> conn \<Rightarrow> string"
  peer_ip :: "event list \<Rightarrow> int \<Rightarrow> string option"
  clock :: "event list \<Rightarrow> int"
  serialize :: "mqtt_status \<Rightarrow> byte list"
  kfk_produce :: "event list \<Rightarrow> byte list \<Rightarrow> kfk_error option"
  kfk_topic_name :: string
  kfk_err2str :: "kfk_error \<Rightarrow> string"

text \<open>
  A concrete outside for the witnesses: one connection, a database in which every select counts one
  row and every update completes, and a Kafka queue that is full at first.
\<close>

definition sample_world :: world where
  "sample_world =
     \<lparr>pool_pop = (\<lambda>_. Some 7),
      pq_exec = (\<lambda>_ _ q. if take 6 q = ''select'' then (PGRES_TUPLES_OK, [''1''])
        else (PGRES_COMMAND_OK, [])),
      pq_error = (\<lambda>_ _. []), peer_ip = (\<lambda>_ _. Some ''10.0.0.1''),
      clock = (\<lambda>_. 1500000000), serialize = (\<lambda>m. [word_of_int (ms_uid m)]),
      kfk_produce = (\<lambda>tr _. if length tr < 6 then Some RD_KAFKA_RESP_ERR__QUEUE_FULL else None),
      kfk_topic_name = ''codein'', kfk_err2str = (\<lambda>_. ''queue full'')\<rparr>"

section \<open>Monitors\<close>

fun monitor :: "('s \<Rightarrow> event \<Rightarrow> 's option) \<Rightarrow> 's \<Rightarrow> event list \<Rightarrow> 's option" where
  "monitor f s [] = Some s"
| "monitor f s (e # es) = (case f s e of None \<Rightarrow> None | Some s' \<Rightarrow> monitor f s' es)"

lemma monitor_append [trace_simps]:
  "monitor f s (es @ fs) = Option.bind (monitor f s es) (\<lambda>s'. monitor f s' fs)"
  by (induction es arbitrary: s) (simp_all split: option.splits)

text \<open>
  Connections: the multiset of those taken from the pool and not given back. A query on a
  connection that is not held, or giving back one that is not held, is a violation.
\<close>

fun pool_step :: "conn multiset \<Rightarrow> event \<Rightarrow> conn multiset option" where
  "pool_step held (Pool_Pop (Some c)) = Some (add_mset c held)"
| "pool_step held (Pq_Exec c q r) = (if c \<in># held then Some held else None)"
| "pool_step held (Pool_Push c) = (if c \<in># held then Some (held - {#c#}) else None)"
| "pool_step held _ = Some held"

text \<open>Results: those returned and not cleared; clearing one that is not there is a violation.\<close>

fun result_step :: "nat multiset \<Rightarrow> event \<Rightarrow> nat multiset option" where
  "result_step live (Pq_Exec c q r) = Some (add_mset r live)"
| "result_step live (Pq_Clear r) = (if r \<in># live then Some (live - {#r#}) else None)"
| "result_step live _ = Some live"

text \<open>The statements sent and the messages offered to Kafka, in order.\<close>

fun statements :: "event list \<Rightarrow> string list" where
  "statements [] = []"
| "statements (Pq_Exec c q r # es) = q # statements es"
| "statements (_ # es) = statements es"

fun produced :: "event list \<Rightarrow> (byte list \<times> kfk_error option) list" where
  "produced [] = []"
| "produced (Kfk_Produce b r # es) = (b, r) # produced es"
| "produced (_ # es) = produced es"

lemma statements_append [trace_simps]: "statements (es @ fs) = statements es @ statements fs"
  by (induction es rule: statements.induct) simp_all

lemma produced_append [trace_simps]: "produced (es @ fs) = produced es @ produced fs"
  by (induction es rule: produced.induct) simp_all

section \<open>The contract of an operation that uses the database\<close>

text \<open>
  The operations of the plugin that talk to the database extend the trace and keep to the
  discipline of the pool: whatever is held before is held after, and nothing else. Any sequence of
  such operations does too.
\<close>

locale pool_user =
  fixes run_op :: "'a \<Rightarrow> event list \<Rightarrow> event list"
  assumes extends: "\<exists>es. run_op a t = t @ es \<and> (\<forall>held. monitor pool_step held es = Some held)"
begin

lemma op_keeps: "monitor pool_step h t = Some held \<Longrightarrow> monitor pool_step h (run_op a t) = Some held"
proof -
  assume h: "monitor pool_step h t = Some held"
  obtain es where "run_op a t = t @ es" "monitor pool_step held es = Some held"
    using extends by blast
  with h show ?thesis by (simp add: monitor_append)
qed

lemma prefix_kept: "prefix t (run_op a t)"
  using extends [of a t] by (auto simp: prefix_def)

lemma ops_keep:
  "monitor pool_step h t = Some held \<Longrightarrow>
    monitor pool_step h (fold run_op as t) = Some held"
  by (induction as arbitrary: t) (simp_all add: op_keeps)

lemma ops_prefix: "prefix t (fold run_op as t)"
proof (induction as arbitrary: t)
  case Nil
  then show ?case by simp
next
  case (Cons a as)
  have "prefix t (run_op a t)" by (rule prefix_kept)
  also have "prefix (run_op a t) (fold run_op as (run_op a t))" by (rule Cons.IH)
  finally show ?case by simp
qed

end

end
