(* ===== verification/Session_DB.thy ===== *)
theory Session_DB
  imports Plugin_World
begin

text \<open>
  The database side of \<open>auth_plugin.cc\<close>: \<open>check_token\<close> asks whether a session token is valid
  for a user, \<open>update_client_status\<close> records a new connection. Each takes a connection from the
  pool and gives it back on every path. The statements are printed into buffers of 510 and 512
  bytes and cut there.
\<close>

section \<open>check_token\<close>

definition token_query_text :: "int \<Rightarrow> string \<Rightarrow> string" where
  "token_query_text uid token =
     ''select count(1) from app_session where uid='' @ dec_int uid @ '' and session='' @
     quote # token @ quote # '' and expired=0''"

definition token_query :: "int \<Rightarrow> string \<Rightarrow> string" where
  "token_query uid token = snprintf_buf 510 (token_query_text uid token)"

text \<open>The loop over the rows: the count of the last row read, stopping at one that is not negative.\<close>

fun read_count :: "string list \<Rightarrow> int \<Rightarrow> int" where
  "read_count [] cnt = cnt"
| "read_count (v # vs) cnt = (let n = atol v in if n \<ge> 0 then n else read_count vs n)"

definition check_token :: "world \<Rightarrow> int \<Rightarrow> string \<Rightarrow> event list \<Rightarrow> int \<times> event list" where
  "check_token W uid token tr =
     (case pool_pop W tr of
        None \<Rightarrow> (-1, tr @ [Pool_Pop None, Log ''connect db error!''])
      | Some c \<Rightarrow>
          (let tr1 = tr @ [Pool_Pop (Some c)];
               sql = token_query uid token;
               res = length tr1;
               (status, rows) = pq_exec W tr1 c sql;
               tr2 = tr1 @ [Pq_Exec c sql res]
           in if status \<noteq> PGRES_TUPLES_OK
              then (-1, tr2 @ [Log (''select failed: '' @ pq_error W tr2 c), Pq_Clear res, Pool_Push c])
              else (let cnt = read_count rows 0
                    in (if cnt > 0 then 0 else -1, tr2 @ [Pq_Clear res, Pool_Push c]))))"

lemma read_count_pos_iff:
  "0 < read_count vs cnt \<longleftrightarrow>
    (case find (\<lambda>n. n \<ge> 0) (map atol vs) of None \<Rightarrow> vs = [] \<and> 0 < cnt | Some n \<Rightarrow> 0 < n)"
  by (induction vs arbitrary: cnt) (auto simp: Let_def split: option.splits)

text \<open>The answer of the database to the token query, as the plugin reads it.\<close>

definition session_valid :: "world \<Rightarrow> int \<Rightarrow> string \<Rightarrow> event list \<Rightarrow> bool" where
  "session_valid W uid token tr \<longleftrightarrow>
     (case pool_pop W tr of
        None \<Rightarrow> False
      | Some c \<Rightarrow>
          (case pq_exec W (tr @ [Pool_Pop (Some c)]) c (token_query uid token) of
             (status, rows) \<Rightarrow> status = PGRES_TUPLES_OK \<and>
               (case find (\<lambda>n. n \<ge> 0) (map atol rows) of None \<Rightarrow> False | Some n \<Rightarrow> 0 < n)))"

lemma check_token_result:
  "fst (check_token W uid token tr) = (if session_valid W uid token tr then 0 else -1)"
  by (auto simp: check_token_def session_valid_def read_count_pos_iff Let_def
      split: option.splits prod.splits)

text \<open>The events a call adds.\<close>

definition check_token_events :: "world \<Rightarrow> int \<Rightarrow> string \<Rightarrow> event list \<Rightarrow> event list" where
  "check_token_events W uid token tr = drop (length tr) (snd (check_token W uid token tr))"

lemma check_token_trace:
  "snd (check_token W uid token tr) = tr @ check_token_events W uid token tr"
  by (auto simp: check_token_events_def check_token_def Let_def split: option.splits prod.splits)

lemma check_token_pool: "monitor pool_step held (check_token_events W uid token tr) = Some held"
  by (auto simp: check_token_events_def check_token_def Let_def split: option.splits prod.splits)

lemma check_token_results:
  "monitor result_step live (check_token_events W uid token tr) = Some live"
  by (auto simp: check_token_events_def check_token_def Let_def split: option.splits prod.splits)

lemma check_token_statements [trace_simps]:
  "statements (check_token_events W uid token tr) =
    (if pool_pop W tr = None then [] else [token_query uid token])"
  by (auto simp: check_token_events_def check_token_def Let_def split: option.splits prod.splits)

lemma check_token_produced [trace_simps]: "produced (check_token_events W uid token tr) = []"
  by (auto simp: check_token_events_def check_token_def Let_def split: option.splits prod.splits)

text \<open>The query up to the opening quote of the token literal.\<close>

definition query_prefix :: "int \<Rightarrow> string" where
  "query_prefix uid = ''select count(1) from app_session where uid='' @ dec_int uid @
     '' and session='' @ [quote]"

text \<open>
  How PostgreSQL reads a string constant, from after its opening quote: two quotes in a row stand for
  one, a quote before anything else ends the constant. The result is the value and what follows; \<open>None\<close>
  is a constant without an end. \<open>sql_escape\<close> is the inverse, which the program does not use.
\<close>

fun sql_literal :: "string \<Rightarrow> (string \<times> string) option" where
  "sql_literal [] = None"
| "sql_literal [c] = (if c = quote then Some ([], []) else None)"
| "sql_literal (c # d # cs) =
     (if c \<noteq> quote then map_option (apfst (Cons c)) (sql_literal (d # cs))
      else if d = quote then map_option (apfst (Cons quote)) (sql_literal cs)
      else Some ([], d # cs))"

fun sql_escape :: "string \<Rightarrow> string" where
  "sql_escape [] = []"
| "sql_escape (c # cs) = (if c = quote then [quote, quote] else [c]) @ sql_escape cs"

lemma sql_literal_step:
  "sql_literal (c # d # cs) = Some (v, r) \<Longrightarrow>
    (\<exists>w. c \<noteq> quote \<and> v = c # w \<and> sql_literal (d # cs) = Some (w, r)) \<or>
    (\<exists>w. c = quote \<and> d = quote \<and> v = quote # w \<and> sql_literal cs = Some (w, r)) \<or>
    (c = quote \<and> v = [] \<and> r = d # cs)"
  by (cases "c = quote"; cases "d = quote") (auto simp del: sql_literal.simps(1,2))

lemma sql_literal_source: "sql_literal s = Some (v, r) \<Longrightarrow> s = sql_escape v @ quote # r"
proof (induction s arbitrary: v r rule: sql_literal.induct)
  case (2 c)
  then show ?case by (cases "c = quote") simp_all
next
  case (3 c d cs)
  from sql_literal_step [OF 3(3)] consider
    w where "c \<noteq> quote" "v = c # w" "sql_literal (d # cs) = Some (w, r)"
    | w where "c = quote" "d = quote" "v = quote # w" "sql_literal cs = Some (w, r)"
    | "c = quote" "v = []" "r = d # cs" by blast
  then show ?case
  proof cases
    case 1
    with 3(1) [OF 1(1,3)] show ?thesis by simp
  next
    case 2
    with 3(2) [of w r] show ?thesis by simp
  qed simp
qed simp

lemma sql_literal_plain:
  assumes "quote \<notin> set v" "r = [] \<or> hd r \<noteq> quote"
  shows "sql_literal (v @ quote # r) = Some (v, r)"
  using assms(1)
proof (induction v)
  case Nil
  then show ?case using assms(2) by (cases r) auto
next
  case (Cons c v)
  then show ?case by (cases "v @ quote # r") auto
qed

lemma sql_literal_stop:
  "quote \<notin> set a \<Longrightarrow> c \<noteq> quote \<Longrightarrow> sql_literal (a @ quote # c # cs) = Some (a, c # cs)"
  using sql_literal_plain [of a "c # cs"] by simp

lemma length_sql_escape: "length s \<le> length (sql_escape s)"
  by (induction s) simp_all

lemma sql_escape_id: "sql_escape s = s \<longleftrightarrow> quote \<notin> set s"
proof (induction s)
  case (Cons c s)
  have "quote # sql_escape s \<noteq> s"
  proof
    assume "quote # sql_escape s = s"
    then have "length s = Suc (length (sql_escape s))" by (metis length_Cons)
    then show False using length_sql_escape [of s] by simp
  qed
  with Cons show ?case by (cases "c = quote") simp_all
qed simp

lemma sql_literal_unescaped:
  assumes "r = [] \<or> hd r \<noteq> quote"
  shows "sql_literal (v @ quote # r) = Some (v, r) \<longleftrightarrow> quote \<notin> set v"
proof
  assume "sql_literal (v @ quote # r) = Some (v, r)"
  then have "sql_escape v = v" using sql_literal_source by fastforce
  then show "quote \<notin> set v" by (simp add: sql_escape_id)
qed (rule sql_literal_plain [OF _ assms])

section \<open>update\_client\_status\<close>

definition reset_others_sql :: "int \<Rightarrow> string \<Rightarrow> string" where
  "reset_others_sql uid clientid = snprintf_buf 512
     (''update client_status set status=0,play=0 where uid='' @ dec_int uid @
      '' and device!='' @ quote # clientid @ [quote])"

definition set_ip_sql :: "string \<Rightarrow> int \<Rightarrow> string \<Rightarrow> string" where
  "set_ip_sql ip uid clientid = snprintf_buf 512
     (''update client_status set ip='' @ quote # ip @ quote # '' where uid='' @ dec_int uid @
      '' and device='' @ quote # clientid @ [quote])"

definition expire_others_sql :: "int \<Rightarrow> string \<Rightarrow> string \<Rightarrow> string" where
  "expire_others_sql uid token clientid = snprintf_buf 512
     (''update app_session set expired=extract(epoch from now()) where uid='' @ dec_int uid @
      '' and (session!='' @ quote # token @ quote # '' or device_id!='' @
      quote # clientid @ quote # '')'')"

text \<open>One statement: executed, and logged when it is not a completed command.\<close>

definition exec_update :: "world \<Rightarrow> conn \<Rightarrow> string \<Rightarrow> event list \<Rightarrow> event list" where
  "exec_update W c sql tr =
     (let (status, rows) = pq_exec W tr c sql; tr1 = tr @ [Pq_Exec c sql (length tr)]
      in if status \<noteq> PGRES_COMMAND_OK
         then tr1 @ [Log (''update_client_status sql error: '' @ pq_error W tr1 c @
                          ''. sql: '' @ sql)]
         else tr1)"

text \<open>
  The three updates. The variable \<open>res\<close> holds the result of the latest of them, and is cleared
  once at the end.
\<close>

definition update_client_status ::
  "world \<Rightarrow> int \<Rightarrow> string \<Rightarrow> string option \<Rightarrow> int \<Rightarrow> event list \<Rightarrow> event list" where
  "update_client_status W uid token clientid sd tr =
     (case clientid of
        None \<Rightarrow> tr @ [Log ''empty client id!'']
      | Some cid \<Rightarrow>
          if cid = [] then tr @ [Log ''empty client id!'']
          else (case pool_pop W tr of
             None \<Rightarrow> tr @ [Pool_Pop None, Log ''connect db error!'']
           | Some c \<Rightarrow>
               (let tr1 = tr @ [Pool_Pop (Some c)];
                    ip = (case peer_ip W tr1 sd of None \<Rightarrow> [] | Some a \<Rightarrow> a);
                    tr2 = exec_update W c (reset_others_sql uid cid) (tr1 @ [Peer_Name sd]);
                    tr3 = exec_update W c (set_ip_sql ip uid cid) tr2;
                    res = length tr3;
                    tr4 = exec_update W c (expire_others_sql uid token cid) tr3
                in tr4 @ [Pq_Clear res, Pool_Push c])))"

lemma exec_update_trace:
  obtains l where "exec_update W c sql tr = tr @ Pq_Exec c sql (length tr) # l"
    and "l = [] \<or> (\<exists>m. l = [Log m])"
proof (cases "fst (pq_exec W tr c sql) = PGRES_COMMAND_OK")
  case True
  then show thesis by (intro that [of "[]"]) (auto simp: exec_update_def Let_def split: prod.splits)
next
  case False
  then show thesis
    by (intro that [of "[Log _]"]) (auto simp: exec_update_def Let_def split: prod.splits)
qed

text \<open>The events of a call that reaches the database: up to log lines between them.\<close>

lemma update_client_status_trace:
  assumes "cid \<noteq> []" "pool_pop W tr = Some c"
  obtains r1 r2 r3 l1 l2 l3 where
    "update_client_status W uid token (Some cid) sd tr =
       tr @ Pool_Pop (Some c) # Peer_Name sd # Pq_Exec c (reset_others_sql uid cid) r1 # l1 @
       Pq_Exec c (set_ip_sql (case peer_ip W (tr @ [Pool_Pop (Some c)]) sd of
         None \<Rightarrow> [] | Some a \<Rightarrow> a) uid cid) r2 # l2 @
       Pq_Exec c (expire_others_sql uid token cid) r3 # l3 @ [Pq_Clear r3, Pool_Push c]"
    "l1 = [] \<or> (\<exists>m. l1 = [Log m])" "l2 = [] \<or> (\<exists>m. l2 = [Log m])"
    "l3 = [] \<or> (\<exists>m. l3 = [Log m])" "distinct [r1, r2, r3]"
proof -
  define ip where "ip = (case peer_ip W (tr @ [Pool_Pop (Some c)]) sd of None \<Rightarrow> [] | Some a \<Rightarrow> a)"
  define t1 where "t1 = tr @ [Pool_Pop (Some c), Peer_Name sd]"
  define t2 where "t2 = exec_update W c (reset_others_sql uid cid) t1"
  define t3 where "t3 = exec_update W c (set_ip_sql ip uid cid) t2"
  define t4 where "t4 = exec_update W c (expire_others_sql uid token cid) t3"
  have u: "update_client_status W uid token (Some cid) sd tr = t4 @ [Pq_Clear (length t3), Pool_Push c]"
    using assms by (simp add: update_client_status_def Let_def t4_def t3_def t2_def t1_def ip_def)
  obtain l1 where l1: "t2 = t1 @ Pq_Exec c (reset_others_sql uid cid) (length t1) # l1"
      "l1 = [] \<or> (\<exists>m. l1 = [Log m])"
    unfolding t2_def by (rule exec_update_trace)
  obtain l2 where l2: "t3 = t2 @ Pq_Exec c (set_ip_sql ip uid cid) (length t2) # l2"
      "l2 = [] \<or> (\<exists>m. l2 = [Log m])"
    unfolding t3_def by (rule exec_update_trace)
  obtain l3 where l3: "t4 = t3 @ Pq_Exec c (expire_others_sql uid token cid) (length t3) # l3"
      "l3 = [] \<or> (\<exists>m. l3 = [Log m])"
    unfolding t4_def by (rule exec_update_trace)
  have "distinct [length t1, length t2, length t3]" by (simp add: l1(1) l2(1))
  moreover have "update_client_status W uid token (Some cid) sd tr =
      tr @ Pool_Pop (Some c) # Peer_Name sd # Pq_Exec c (reset_others_sql uid cid) (length t1) # l1 @
      Pq_Exec c (set_ip_sql ip uid cid) (length t2) # l2 @
      Pq_Exec c (expire_others_sql uid token cid) (length t3) # l3 @
      [Pq_Clear (length t3), Pool_Push c]"
    by (simp add: u l3(1)) (simp add: l2(1) l1(1) t1_def)
  ultimately show thesis using l1(2) l2(2) l3(2) that unfolding ip_def by blast
qed

lemma monitor_log [simp]:
  "l = [] \<or> (\<exists>m. l = [Log m]) \<Longrightarrow> monitor pool_step held (l @ es) = monitor pool_step held es"
  "l = [] \<or> (\<exists>m. l = [Log m]) \<Longrightarrow> monitor result_step live (l @ es) = monitor result_step live es"
  by auto

lemma statements_log [simp]: "l = [] \<or> (\<exists>m. l = [Log m]) \<Longrightarrow> statements (l @ es) = statements es"
  by auto

lemma produced_log [simp]: "l = [] \<or> (\<exists>m. l = [Log m]) \<Longrightarrow> produced (l @ es) = produced es"
  by auto

text \<open>When nothing is sent: no client id, or no connection.\<close>

lemma update_client_status_none:
  "update_client_status W uid token None sd tr = tr @ [Log ''empty client id!'']"
  "update_client_status W uid token (Some []) sd tr = tr @ [Log ''empty client id!'']"
  "cid \<noteq> [] \<Longrightarrow> pool_pop W tr = None \<Longrightarrow>
     update_client_status W uid token (Some cid) sd tr = tr @ [Pool_Pop None, Log ''connect db error!'']"
  by (simp_all add: update_client_status_def)

lemma update_client_status_cases:
  obtains (no_id) "clientid = None \<or> clientid = Some []"
  | (no_conn) cid where "clientid = Some cid" "cid \<noteq> []" "pool_pop W tr = None"
  | (db) cid c where "clientid = Some cid" "cid \<noteq> []" "pool_pop W tr = Some c"
  by (cases clientid; cases "pool_pop W tr"; cases "clientid = Some []") auto

lemma update_client_status_extends:
  "\<exists>es. update_client_status W uid token clientid sd tr = tr @ es \<and>
     (\<forall>held. monitor pool_step held es = Some held) \<and> produced es = []"
proof (cases rule: update_client_status_cases [where clientid = clientid and W = W and tr = tr])
  case no_id
  then show ?thesis by (auto simp: update_client_status_none)
next
  case (no_conn cid)
  then show ?thesis by (simp add: update_client_status_none)
next
  case (db cid c)
  from db(2,3) show ?thesis
    unfolding db(1) by (rule update_client_status_trace [where uid = uid and token = token and sd = sd])
      simp
qed

interpretation token_check: pool_user "\<lambda>(uid, token) tr. snd (check_token W uid token tr)" for W
  by unfold_locales (auto simp: check_token_trace check_token_pool split: prod.splits)

lemma update_client_status_extends':
  "\<exists>es. (case a of (uid, token, clientid, sd) \<Rightarrow> update_client_status W uid token clientid sd) t
    = t @ es \<and> (\<forall>held. monitor pool_step held es = Some held)"
proof -
  obtain uid token clientid sd where a: "a = (uid, token, clientid, sd)" by (cases a)
  show ?thesis
    using update_client_status_extends [of W uid token clientid sd t] by (auto simp: a)
qed

interpretation status_update:
  pool_user "\<lambda>(uid, token, clientid, sd). update_client_status W uid token clientid sd" for W
  by unfold_locales (rule update_client_status_extends')

section \<open>Properties\<close>

text \<open>
  C26. \<open>check_token\<close> returns 0 exactly when a connection was available, the query returned rows
  and the first count that is not negative is positive; it returns -1 in every other case.
\<close>

theorem check_token_answer:
  "fst (check_token W uid token tr) =
    (case pool_pop W tr of
       None \<Rightarrow> -1
     | Some c \<Rightarrow>
         (let (status, rows) = pq_exec W (tr @ [Pool_Pop (Some c)]) c (token_query uid token)
          in if status = PGRES_TUPLES_OK \<and>
                (\<exists>n. find (\<lambda>n. n \<ge> 0) (map atol rows) = Some n \<and> n > 0)
             then 0 else -1))"
  by (auto simp: check_token_result session_valid_def split: option.splits prod.splits)

text \<open>
  C27. On every path of \<open>check_token\<close> each connection taken from the pool is given back, is used
  only while it is held, every query result is cleared exactly once, and the only statement sent is
  the token query.
\<close>

theorem check_token_resources:
  "\<exists>es. snd (check_token W uid token tr) = tr @ es \<and>
     monitor pool_step held es = Some held \<and> monitor result_step live es = Some live \<and>
     statements es = (if pool_pop W tr = None then [] else [token_query uid token])"
  by (rule exI [of _ "check_token_events W uid token tr"])
    (simp add: check_token_trace check_token_pool check_token_results check_token_statements)

text \<open>
  C29. \<open>update_client_status\<close> with a client id and a connection sends its three statements in
  order and gives the connection back, but leaves two of the three query results uncleared.
\<close>

theorem update_client_status_effect:
  assumes "cid \<noteq> []" "pool_pop W tr = Some c"
  shows "\<exists>es ip r1 r2. update_client_status W uid token (Some cid) sd tr = tr @ es \<and>
    statements es = [reset_others_sql uid cid, set_ip_sql ip uid cid, expire_others_sql uid token cid] \<and>
    monitor pool_step held es = Some held \<and>
    monitor result_step {#} es = Some {#r1, r2#} \<and> r1 \<noteq> r2"
proof (rule update_client_status_trace [OF assms, where uid = uid and token = token and sd = sd])
  fix r1 r2 r3 l1 l2 l3
  let ?ip = "case peer_ip W (tr @ [Pool_Pop (Some c)]) sd of None \<Rightarrow> [] | Some a \<Rightarrow> a"
  assume t: "update_client_status W uid token (Some cid) sd tr =
       tr @ Pool_Pop (Some c) # Peer_Name sd # Pq_Exec c (reset_others_sql uid cid) r1 # l1 @
       Pq_Exec c (set_ip_sql ?ip uid cid) r2 # l2 @
       Pq_Exec c (expire_others_sql uid token cid) r3 # l3 @ [Pq_Clear r3, Pool_Push c]"
    and l: "l1 = [] \<or> (\<exists>m. l1 = [Log m])" "l2 = [] \<or> (\<exists>m. l2 = [Log m])"
      "l3 = [] \<or> (\<exists>m. l3 = [Log m])"
    and d: "distinct [r1, r2, r3]"
  show ?thesis
    by (rule exI, rule exI [of _ ?ip], rule exI [of _ r1], rule exI [of _ r2], rule conjI, rule t)
      (use l d in \<open>simp add: add_mset_commute\<close>)
qed

theorem update_client_status_effect_witness:
  "\<exists>es ip r1 r2. update_client_status sample_world 5 ''tok'' (Some ''dev'') 3 [] = [] @ es \<and>
    statements es = [reset_others_sql 5 ''dev'', set_ip_sql ip 5 ''dev'', expire_others_sql 5 ''tok'' ''dev''] \<and>
    monitor pool_step {#} es = Some {#} \<and> monitor result_step {#} es = Some {#r1, r2#} \<and> r1 \<noteq> r2"
  by (rule update_client_status_effect [of "''dev''" sample_world "[]" 7]) (simp_all add: sample_world_def)

text \<open>
  C28. In a token query that is not cut, the literal that starts after \<open>session=\<close> is the token, followed
  by the rest of the statement, exactly when the token has no quote. The token is not escaped: when
  its first quote is followed by another character, the literal ends there, and that character and the
  rest of the token are read as part of the statement.
\<close>

theorem token_literal_read:
  assumes "length (token_query_text uid token) < 510"
  shows "\<exists>body. token_query uid token = query_prefix uid @ body \<and>
    (sql_literal body = Some (token, '' and expired=0'') \<longleftrightarrow> quote \<notin> set token) \<and>
    (\<forall>a c cs. token = a @ quote # c # cs \<and> quote \<notin> set a \<and> c \<noteq> quote \<longrightarrow>
       sql_literal body = Some (a, c # cs @ quote # '' and expired=0''))"
proof -
  have "token_query uid token = query_prefix uid @ token @ quote # '' and expired=0''"
    using assms by (simp add: token_query_def snprintf_buf_fits token_query_text_def query_prefix_def)
  then show ?thesis
    using sql_literal_unescaped [of "'' and expired=0''" token] sql_literal_stop
    by (intro exI [of _ "token @ quote # '' and expired=0''"]) auto
qed

theorem token_literal_read_witness:
  "\<exists>body. token_query 12 (''x'' @ quote # '' or 1=1 --'') = query_prefix 12 @ body \<and>
    sql_literal body = Some (''x'', '' or 1=1 --'' @ quote # '' and expired=0'')"
proof -
  have len: "length (token_query_text 12 (''x'' @ quote # '' or 1=1 --'')) < 510"
    by (simp add: token_query_text_def dec_int_def dec_nat.simps)
  obtain body where b: "token_query 12 (''x'' @ quote # '' or 1=1 --'') = query_prefix 12 @ body"
    "\<forall>a c cs. ''x'' @ quote # '' or 1=1 --'' = a @ quote # c # cs \<and> quote \<notin> set a \<and> c \<noteq> quote \<longrightarrow>
       sql_literal body = Some (a, c # cs @ quote # '' and expired=0'')"
    using token_literal_read [OF len] by blast
  from b(2) [rule_format, of "''x''" "CHR '' ''" "''or 1=1 --''"] b(1) show ?thesis by simp
qed

text \<open>
  C30. A token query never exceeds its buffer of 510 bytes; the statement is complete exactly when
  the decimal uid and the token together have at most 437 characters, and is cut otherwise.
\<close>

theorem token_query_bounds:
  "length (token_query uid token) < 510 \<and> prefix (token_query uid token) (token_query_text uid token) \<and>
   (token_query uid token = token_query_text uid token \<longleftrightarrow>
     length (dec_int uid) + length token \<le> 437)"
proof -
  have len: "length (token_query_text uid token) = length (dec_int uid) + length token + 72"
    by (simp add: token_query_text_def)
  have "token_query uid token = token_query_text uid token \<longleftrightarrow>
      length (token_query_text uid token) \<le> 509"
    by (simp add: token_query_def snprintf_buf_def take_eq_self_iff)
  then show ?thesis
    by (simp add: len token_query_def length_snprintf_buf snprintf_buf_def take_is_prefix)
qed

end
