(* ===== verification/Kafka.thy ===== *)
theory Kafka
  imports Plugin_World
begin

text \<open>
  Publishing the online notification: \<open>kafka_send\<close> offers the serialised message to librdkafka
  and retries for as long as the producer queue is full, which may be forever; \<open>None\<close> is "does not
  return". \<open>on_client_online\<close> builds the message. \<open>kafka_run\<close> is the poll loop of the
  background thread.
\<close>

section \<open>kafka\_send\<close>

definition failed_log :: "world \<Rightarrow> kfk_error \<Rightarrow> event" where
  "failed_log W e = Log (''% Failed to produce to topic '' @ kfk_topic_name W @ '': '' @ kfk_err2str W e)"

definition enqueued_log :: "world \<Rightarrow> byte list \<Rightarrow> event" where
  "enqueued_log W buf = Log (''% Enqueued message ('' @ dec_nat (length buf) @
     '' bytes) for topic '' @ kfk_topic_name W)"

text \<open>The block from the label \<open>retry\<close> on.\<close>

partial_function (option) produce_loop :: "world \<Rightarrow> byte list \<Rightarrow> event list \<Rightarrow> event list option" where
  "produce_loop W buf tr =
     (case kfk_produce W tr buf of
        Some e \<Rightarrow>
          if e = RD_KAFKA_RESP_ERR__QUEUE_FULL
          then produce_loop W buf (tr @ [Kfk_Produce buf (Some e), failed_log W e, Kfk_Poll 1000])
          else Some (tr @ [Kfk_Produce buf (Some e), failed_log W e])
      | None \<Rightarrow> Some (tr @ [Kfk_Produce buf None, enqueued_log W buf]))"

definition kafka_send :: "world \<Rightarrow> mqtt_status \<Rightarrow> event list \<Rightarrow> event list option" where
  "kafka_send W msg tr = produce_loop W (serialize W msg) tr"

text \<open>The trace after \<open>k\<close> refusals because of a full queue.\<close>

definition full_round :: "world \<Rightarrow> byte list \<Rightarrow> event list" where
  "full_round W buf = [Kfk_Produce buf (Some RD_KAFKA_RESP_ERR__QUEUE_FULL),
     failed_log W RD_KAFKA_RESP_ERR__QUEUE_FULL, Kfk_Poll 1000]"

fun full_rounds :: "world \<Rightarrow> byte list \<Rightarrow> nat \<Rightarrow> event list" where
  "full_rounds W buf 0 = []"
| "full_rounds W buf (Suc k) = full_round W buf @ full_rounds W buf k"

lemma full_rounds_snoc: "full_rounds W buf (Suc k) = full_rounds W buf k @ full_round W buf"
  by (induction k) simp_all

text \<open>The last round of a loop that returns.\<close>

definition last_round :: "world \<Rightarrow> byte list \<Rightarrow> kfk_error option \<Rightarrow> event list" where
  "last_round W buf r =
     [Kfk_Produce buf r, case r of None \<Rightarrow> enqueued_log W buf | Some e \<Rightarrow> failed_log W e]"

lemma produce_loop_returns:
  assumes "\<And>j. j < k \<Longrightarrow>
      kfk_produce W (tr @ full_rounds W buf j) buf = Some RD_KAFKA_RESP_ERR__QUEUE_FULL"
    and "kfk_produce W (tr @ full_rounds W buf k) buf = r" "r \<noteq> Some RD_KAFKA_RESP_ERR__QUEUE_FULL"
  shows "produce_loop W buf tr = Some (tr @ full_rounds W buf k @ last_round W buf r)"
  using assms
proof (induction k arbitrary: tr)
  case 0
  then show ?case
    by (cases r) (auto simp: produce_loop.simps [of W buf tr] last_round_def)
next
  case (Suc k)
  have first: "kfk_produce W tr buf = Some RD_KAFKA_RESP_ERR__QUEUE_FULL"
    using Suc.prems(1) [of 0] by simp
  have "produce_loop W buf (tr @ full_round W buf) =
      Some ((tr @ full_round W buf) @ full_rounds W buf k @ last_round W buf r)"
  proof (rule Suc.IH)
    fix j
    assume "j < k"
    then show "kfk_produce W ((tr @ full_round W buf) @ full_rounds W buf j) buf =
        Some RD_KAFKA_RESP_ERR__QUEUE_FULL"
      using Suc.prems(1) [of "Suc j"] by simp
  qed (use Suc.prems(2,3) in simp_all)
  then show ?case
    using first by (simp add: produce_loop.simps [of W buf tr] full_round_def)
qed

lemma produce_loop_shape:
  assumes "produce_loop W buf tr = Some t"
  shows "\<exists>k r. t = tr @ full_rounds W buf k @ last_round W buf r \<and>
    r \<noteq> Some RD_KAFKA_RESP_ERR__QUEUE_FULL \<and>
    kfk_produce W (tr @ full_rounds W buf k) buf = r"
proof (rule produce_loop.raw_induct [where P = "\<lambda>W buf tr t.
      \<exists>k r. t = tr @ full_rounds W buf k @ last_round W buf r \<and>
        r \<noteq> Some RD_KAFKA_RESP_ERR__QUEUE_FULL \<and>
        kfk_produce W (tr @ full_rounds W buf k) buf = r", OF _ assms])
  fix f :: "world \<Rightarrow> byte list \<Rightarrow> event list \<Rightarrow> event list option" and W buf tr t
  assume IH: "\<And>W buf tr t. f W buf tr = Some t \<Longrightarrow>
      \<exists>k r. t = tr @ full_rounds W buf k @ last_round W buf r \<and>
        r \<noteq> Some RD_KAFKA_RESP_ERR__QUEUE_FULL \<and>
        kfk_produce W (tr @ full_rounds W buf k) buf = r"
    and eq: "(case kfk_produce W tr buf of
        Some e \<Rightarrow>
          if e = RD_KAFKA_RESP_ERR__QUEUE_FULL
          then f W buf (tr @ [Kfk_Produce buf (Some e), failed_log W e, Kfk_Poll 1000])
          else Some (tr @ [Kfk_Produce buf (Some e), failed_log W e])
      | None \<Rightarrow> Some (tr @ [Kfk_Produce buf None, enqueued_log W buf])) = Some t"
  show "\<exists>k r. t = tr @ full_rounds W buf k @ last_round W buf r \<and>
        r \<noteq> Some RD_KAFKA_RESP_ERR__QUEUE_FULL \<and>
        kfk_produce W (tr @ full_rounds W buf k) buf = r"
  proof (cases "kfk_produce W tr buf = Some RD_KAFKA_RESP_ERR__QUEUE_FULL")
    case True
    with eq have "f W buf (tr @ full_round W buf) = Some t" by (simp add: full_round_def)
    from IH [OF this] obtain k r where
      "t = tr @ full_rounds W buf (Suc k) @ last_round W buf r"
      "r \<noteq> Some RD_KAFKA_RESP_ERR__QUEUE_FULL"
      "kfk_produce W (tr @ full_rounds W buf (Suc k)) buf = r"
      by auto
    then show ?thesis by blast
  next
    case False
    with eq have "t = tr @ full_rounds W buf 0 @ last_round W buf (kfk_produce W tr buf)"
      by (auto simp: last_round_def split: option.splits)
    with False show ?thesis by (metis append.right_neutral full_rounds.simps(1))
  qed
qed

lemma produced_full_rounds [trace_simps]:
  "produced (full_rounds W buf k) = replicate k (buf, Some RD_KAFKA_RESP_ERR__QUEUE_FULL)"
  by (induction k) (simp_all add: full_round_def failed_log_def)

lemma produced_last_round [trace_simps]: "produced (last_round W buf r) = [(buf, r)]"
  by (simp add: last_round_def failed_log_def enqueued_log_def split: option.splits)

lemma monitor_full_rounds [trace_simps]:
  "monitor pool_step held (full_rounds W buf k) = Some held"
  by (induction k) (simp_all add: full_round_def failed_log_def)

lemma monitor_last_round [trace_simps]:
  "monitor pool_step held (last_round W buf r) = Some held"
  by (simp add: last_round_def failed_log_def enqueued_log_def split: option.splits)

lemma statements_full_rounds [trace_simps]: "statements (full_rounds W buf k) = []"
  by (induction k) (simp_all add: full_round_def failed_log_def)

lemma statements_last_round [trace_simps]: "statements (last_round W buf r) = []"
  by (simp add: last_round_def failed_log_def enqueued_log_def split: option.splits)

text \<open>What a send that returns adds to the trace.\<close>

lemma kafka_send_trace:
  assumes "kafka_send W msg tr = Some t"
  obtains es k r where "t = tr @ es" "produced es =
      replicate k (serialize W msg, Some RD_KAFKA_RESP_ERR__QUEUE_FULL) @ [(serialize W msg, r)]"
    "r \<noteq> Some RD_KAFKA_RESP_ERR__QUEUE_FULL" "statements es = []"
    "\<And>held. monitor pool_step held es = Some held"
proof -
  from assms [unfolded kafka_send_def, THEN produce_loop_shape] obtain k r where
    "t = tr @ full_rounds W (serialize W msg) k @ last_round W (serialize W msg) r"
    "r \<noteq> Some RD_KAFKA_RESP_ERR__QUEUE_FULL"
    by blast
  then show thesis
    by (intro that [of "full_rounds W (serialize W msg) k @ last_round W (serialize W msg) r" k r])
      (simp_all add: trace_simps)
qed

lemma produce_loop_returns_iff:
  "(\<exists>t. produce_loop W buf tr = Some t) \<longleftrightarrow>
    (\<exists>k. kfk_produce W (tr @ full_rounds W buf k) buf \<noteq> Some RD_KAFKA_RESP_ERR__QUEUE_FULL)"
proof
  assume "\<exists>t. produce_loop W buf tr = Some t"
  then show "\<exists>k. kfk_produce W (tr @ full_rounds W buf k) buf \<noteq> Some RD_KAFKA_RESP_ERR__QUEUE_FULL"
    using produce_loop_shape by metis
next
  assume ex: "\<exists>k. kfk_produce W (tr @ full_rounds W buf k) buf \<noteq> Some RD_KAFKA_RESP_ERR__QUEUE_FULL"
  let ?k = "LEAST k. kfk_produce W (tr @ full_rounds W buf k) buf \<noteq> Some RD_KAFKA_RESP_ERR__QUEUE_FULL"
  have "kfk_produce W (tr @ full_rounds W buf ?k) buf \<noteq> Some RD_KAFKA_RESP_ERR__QUEUE_FULL"
    using ex by (rule LeastI_ex)
  moreover have "kfk_produce W (tr @ full_rounds W buf j) buf = Some RD_KAFKA_RESP_ERR__QUEUE_FULL"
    if "j < ?k" for j
    using not_less_Least [OF that] by simp
  ultimately show "\<exists>t. produce_loop W buf tr = Some t"
    using produce_loop_returns [of ?k W tr buf] by blast
qed

section \<open>on\_client\_online\<close>

text \<open>
  The message about a client that came online. The endpoint is read from a buffer that
  \<open>getnameinfo\<close> fills only when it succeeds.
\<close>

definition online_msg :: "int \<Rightarrow> string \<Rightarrow> string \<Rightarrow> int \<Rightarrow> string \<Rightarrow> mqtt_status" where
  "online_msg uid token clientid ms ip =
     \<lparr>ms_type = Online, ms_uid = uid, ms_token = token, ms_device = clientid, ms_time_ms = ms,
      ms_endpoint = ip\<rparr>"

definition on_client_online ::
  "world \<Rightarrow> int \<Rightarrow> string \<Rightarrow> string \<Rightarrow> int \<Rightarrow> event list \<Rightarrow> event list run option" where
  "on_client_online W uid token clientid sd tr =
     (case to_long (clock W tr * 1000) of
        Inl f \<Rightarrow> Some (Inl f)
      | Inr ms \<Rightarrow>
          (case peer_ip W tr sd of
             None \<Rightarrow> Some (Inl Uninit_Read)
           | Some ip \<Rightarrow>
               map_option Inr
                 (kafka_send W (online_msg uid token clientid ms ip) (tr @ [Peer_Name sd]))))"

lemma on_client_online_trace:
  assumes "on_client_online W uid token clientid sd tr = Some (Inr t)"
  obtains es b k r where "t = tr @ es"
    "produced es = replicate k (b, Some RD_KAFKA_RESP_ERR__QUEUE_FULL) @ [(b, r)]"
    "r \<noteq> Some RD_KAFKA_RESP_ERR__QUEUE_FULL" "statements es = []"
    "\<And>held. monitor pool_step held es = Some held"
    "\<exists>ms ip. peer_ip W tr sd = Some ip \<and> ms = clock W tr * 1000 \<and>
       b = serialize W (online_msg uid token clientid ms ip)"
proof -
  from assms obtain ms ip where ms: "to_long (clock W tr * 1000) = Inr ms"
    and ip: "peer_ip W tr sd = Some ip"
    and s: "kafka_send W (online_msg uid token clientid ms ip) (tr @ [Peer_Name sd]) = Some t"
    by (auto simp: on_client_online_def split: sum.splits option.splits)
  from s show thesis
  proof (rule kafka_send_trace)
    fix es k r
    assume a: "t = (tr @ [Peer_Name sd]) @ es"
      "produced es = replicate k (serialize W (online_msg uid token clientid ms ip),
          Some RD_KAFKA_RESP_ERR__QUEUE_FULL) @
        [(serialize W (online_msg uid token clientid ms ip), r)]"
      "r \<noteq> Some RD_KAFKA_RESP_ERR__QUEUE_FULL" "statements es = []"
      "\<And>held. monitor pool_step held es = Some held"
    from ms have "ms = clock W tr * 1000" by (simp add: to_long_Inr_iff)
    with a ip show thesis
      by (intro that [of "Peer_Name sd # es" k "serialize W (online_msg uid token clientid ms ip)" r])
        auto
  qed
qed

section \<open>kafka\_run\<close>

text \<open>
  The body of the background thread polls in a loop without an exit; the statements after the loop
  flush the producer and set the promise.
\<close>

partial_function (option) kafka_poll_loop :: "event list \<Rightarrow> event list option" where
  "kafka_poll_loop tr = kafka_poll_loop (tr @ [Kfk_Poll (60 * 1000)])"

definition kafka_run :: "int \<Rightarrow> event list \<Rightarrow> event list option" where
  "kafka_run tid tr =
     map_option (\<lambda>tr. tr @ [Log ''% flushing final messages..'', Kfk_Flush (10 * 1000), Promise_Set])
       (kafka_poll_loop (tr @ [Log (''kafka thread('' @ dec_int tid @ '') started ...'')]))"

lemma kafka_poll_loop_None: "kafka_poll_loop tr = None"
proof (rule ccontr)
  assume "kafka_poll_loop tr \<noteq> None"
  then obtain t where "kafka_poll_loop tr = Some t" by blast
  then show False
    by (rule kafka_poll_loop.raw_induct [where P = "\<lambda>_ _. False", rotated]) blast
qed

lemma kafka_run_None [simp]: "kafka_run tid tr = None"
  by (simp add: kafka_run_def kafka_poll_loop_None)

text \<open>
  The delivery report librdkafka hands over while it is polled: it is printed, and nothing else
  happens to the trace.
\<close>

definition dr_msg_cb :: "world \<Rightarrow> kfk_error option \<times> nat \<times> int \<Rightarrow> event list \<Rightarrow> event list" where
  "dr_msg_cb W report tr =
     (case report of (err, len, part) \<Rightarrow>
        tr @ [Log (case err of
          Some e \<Rightarrow> ''% Message delivery failed: '' @ kfk_err2str W e
        | None \<Rightarrow> ''% Message delivered ('' @ dec_nat len @ '' bytes, partition '' @ dec_int part @ '')'')])"

interpretation delivery_report: pool_user "dr_msg_cb W" for W
  by unfold_locales (auto simp: dr_msg_cb_def split: prod.split)

section \<open>Properties\<close>

text \<open>
  C22. \<open>kafka_send\<close> returns exactly when some attempt is not refused because of a full queue.
\<close>

theorem kafka_send_returns_iff:
  "(\<exists>t. kafka_send W msg tr = Some t) \<longleftrightarrow>
    (\<exists>k. kfk_produce W (tr @ full_rounds W (serialize W msg) k) (serialize W msg)
       \<noteq> Some RD_KAFKA_RESP_ERR__QUEUE_FULL)"
  by (simp add: kafka_send_def produce_loop_returns_iff)

text \<open>
  C21. A call of \<open>kafka_send\<close> that returns has offered the same bytes in every attempt, only the
  last of which can have been accepted: the message is enqueued at most once.
\<close>

theorem kafka_send_at_most_once:
  assumes "kafka_send W msg tr = Some t"
  shows "\<exists>es k r. t = tr @ es \<and> r \<noteq> Some RD_KAFKA_RESP_ERR__QUEUE_FULL \<and>
    produced es = replicate k (serialize W msg, Some RD_KAFKA_RESP_ERR__QUEUE_FULL) @
      [(serialize W msg, r)]"
  using assms by (rule kafka_send_trace) blast

theorem kafka_send_at_most_once_witness:
  "\<exists>t. kafka_send sample_world (online_msg 5 ''t'' ''d'' 1000 ''::1'') [] = Some t \<and>
    (\<exists>es k r. t = [] @ es \<and> r \<noteq> Some RD_KAFKA_RESP_ERR__QUEUE_FULL \<and>
      produced es = replicate k (serialize sample_world (online_msg 5 ''t'' ''d'' 1000 ''::1''),
          Some RD_KAFKA_RESP_ERR__QUEUE_FULL) @
        [(serialize sample_world (online_msg 5 ''t'' ''d'' 1000 ''::1''), r)])"
proof -
  let ?msg = "online_msg 5 ''t'' ''d'' 1000 ''::1''"
  have "\<exists>t. kafka_send sample_world ?msg [] = Some t"
    unfolding kafka_send_def produce_loop_returns_iff
    by (rule exI [of _ 2]) (simp add: sample_world_def full_round_def numeral_2_eq_2)
  then obtain t where t: "kafka_send sample_world ?msg [] = Some t" ..
  show ?thesis by (rule exI [of _ t], rule conjI, rule t, rule kafka_send_at_most_once, rule t)
qed

end

