(* ===== verification/Auth.thy ===== *)
theory Auth
  imports Uid Session_DB Kafka
begin

text \<open>
  The access decisions of \<open>auth_plugin.cc\<close>: the connect check that the patched broker calls, and
  the user-name, ACL and PSK callbacks of the plugin interface. An abstract policy states who is
  admitted; the connect check implements it. A callback may not return (\<open>None\<close>, when Kafka's queue
  stays full) or end in a fault.
\<close>

section \<open>The callbacks\<close>

text \<open>The return codes the plugin uses.\<close>

datatype mosq_err =
  MOSQ_ERR_SUCCESS | MOSQ_ERR_AUTH | MOSQ_ERR_ACL_DENIED | MOSQ_ERR_CONN_PENDING

definition anon_uid_base :: int where
  "anon_uid_base = 9223372000000000000"

definition codein_password :: string where
  "codein_password = ''codein.tv''"

text \<open>The branch for user names that are not a uid: fixed service accounts.\<close>

definition service_login :: "string \<Rightarrow> string \<Rightarrow> mosq_err" where
  "service_login username password =
     (if username = ''codein'' \<and> password = codein_password then MOSQ_ERR_SUCCESS
      else if strncmp_eq username ''codein_os_'' 10
      then (if strncmp_eq username ''codein_os_js'' 12
            then (if password = ''js.codein.tv'' then MOSQ_ERR_SUCCESS else MOSQ_ERR_AUTH)
            else if password = ''os.cOdein.tv'' then MOSQ_ERR_SUCCESS
            else MOSQ_ERR_AUTH)
      else MOSQ_ERR_AUTH)"

definition accept :: "event list run option \<Rightarrow> (mosq_err \<times> event list) run option" where
  "accept r = map_option (\<lambda>x. and_then x (\<lambda>t. Inr (MOSQ_ERR_SUCCESS, t))) r"

definition shown :: "string option \<Rightarrow> string" where
  "shown s = (case s of None \<Rightarrow> ''null'' | Some x \<Rightarrow> x)"

definition mosquitto_auth_connect_check ::
  "world \<Rightarrow> string option \<Rightarrow> string option \<Rightarrow> string option \<Rightarrow> int \<Rightarrow> event list \<Rightarrow>
   (mosq_err \<times> event list) run option" where
  "mosquitto_auth_connect_check W username password clientid sd tr =
     (case (username, password, clientid) of
        (Some u, Some p, Some cid) \<Rightarrow>
          (case get_uid u of
             Inl f \<Rightarrow> Some (Inl f)
           | Inr uid \<Rightarrow>
               if uid = -1 then Some (Inr (service_login u p, tr))
               else if uid \<ge> anon_uid_base \<and> p = codein_password
               then accept (on_client_online W uid p cid sd tr)
               else (case check_token W uid p tr of
                 (rc, tr1) \<Rightarrow>
                   if rc = 0
                   then accept (on_client_online W uid p cid sd
                          (update_client_status W uid p (Some cid) sd tr1))
                   else Some (Inr (MOSQ_ERR_AUTH, tr1))))
      | _ \<Rightarrow>
          (let tr1 = tr @ [Peer_Name sd];
               ip = (case peer_ip W tr sd of None \<Rightarrow> [] | Some a \<Rightarrow> a)
           in Some (Inr (MOSQ_ERR_AUTH, tr1 @ [Log
                (''[mosquitto_auth_connect_check] invalid connection from '' @ ip @ '' username '' @
                 shown username @ '' password '' @ shown password @ '' clientid '' @ shown clientid)]))))"

definition mosquitto_auth_unpwd_check ::
  "string option \<Rightarrow> string option \<Rightarrow> event list \<Rightarrow> mosq_err \<times> event list" where
  "mosquitto_auth_unpwd_check username password tr =
     (if username = None \<or> password = None
      then (MOSQ_ERR_AUTH, tr @ [Log (''[mosquitto_auth_unpwd_check] invalid connection with username ''
              @ shown username @ '' password '' @ shown password)])
      else (MOSQ_ERR_SUCCESS, tr))"

text \<open>
  The ACL check compares the user name, which the broker passes as a null pointer for an anonymous
  client, before it allows everything.
\<close>

datatype acl_access = MOSQ_ACL_READ | MOSQ_ACL_WRITE

definition mosquitto_auth_acl_check ::
  "string option \<Rightarrow> string option \<Rightarrow> string \<Rightarrow> acl_access \<Rightarrow> mosq_err run" where
  "mosquitto_auth_acl_check clientid username topic access =
     (case username of
        None \<Rightarrow> Inl Null_Deref
      | Some u \<Rightarrow>
          (let rc = MOSQ_ERR_ACL_DENIED;
               rc = (if u = ''readonly'' \<and> access = MOSQ_ACL_READ then MOSQ_ERR_SUCCESS else rc);
               rc = MOSQ_ERR_SUCCESS
           in Inr rc))"

definition mosquitto_auth_psk_key_get :: "string \<Rightarrow> string \<Rightarrow> mosq_err" where
  "mosquitto_auth_psk_key_get hint ident = MOSQ_ERR_AUTH"

section \<open>The policy\<close>

text \<open>Who is admitted, given the answer of the database for the uid and token of the connection.\<close>

datatype principal = Service | Os_Js | Os | Member int | Stranger

definition principal_of :: "string \<Rightarrow> principal" where
  "principal_of u =
     (if u \<noteq> [] \<and> list_all uid_char u then Member (digits_val (filter is_digit u))
      else if u = ''codein'' then Service
      else if prefix ''codein_os_js'' u then Os_Js
      else if prefix ''codein_os_'' u then Os
      else Stranger)"

fun admits :: "principal \<Rightarrow> string \<Rightarrow> (int \<Rightarrow> bool) \<Rightarrow> bool" where
  "admits Service p valid \<longleftrightarrow> p = ''codein.tv''"
| "admits Os_Js p valid \<longleftrightarrow> p = ''js.codein.tv''"
| "admits Os p valid \<longleftrightarrow> p = ''os.cOdein.tv''"
| "admits (Member uid) p valid \<longleftrightarrow> uid \<ge> anon_uid_base \<and> p = ''codein.tv'' \<or> valid uid"
| "admits Stranger p valid \<longleftrightarrow> False"

lemma strncmp_eq_prefix: "length pre = n \<Longrightarrow> strncmp_eq s pre n \<longleftrightarrow> prefix pre s"
  by (auto simp: strncmp_eq_def prefix_def intro: append_take_drop_id [symmetric])
    (metis append_take_drop_id)

lemma member_uid_nonneg: "0 \<le> digits_val (filter is_digit u)"
  by (rule digits_val_nonneg) simp

lemma get_uid_member:
  assumes "get_uid u = Inr uid"
  shows "uid = -1 \<longleftrightarrow> \<not> (u \<noteq> [] \<and> list_all uid_char u)"
    and "uid \<noteq> -1 \<Longrightarrow> principal_of u = Member uid"
proof -
  have uid: "uid = (if u \<noteq> [] \<and> list_all uid_char u then digits_val (filter is_digit u) else -1)"
    using assms by (auto simp: get_uid_eq split: if_splits)
  have pos: "0 \<le> digits_val (filter is_digit u)" by (rule member_uid_nonneg)
  show "uid = -1 \<longleftrightarrow> \<not> (u \<noteq> [] \<and> list_all uid_char u)" using uid pos by (simp split: if_splits)
  assume "uid \<noteq> -1"
  then have m: "u \<noteq> [] \<and> list_all uid_char u" using uid by (simp split: if_splits)
  then show "principal_of u = Member uid" by (simp only: principal_of_def uid m simp_thms if_True)
qed

lemma principal_of_codein: "principal_of ''codein'' = Service"
  by (simp add: principal_of_def uid_char_def is_digit_def schar_def)

lemma service_login_iff:
  assumes "\<not> (u \<noteq> [] \<and> list_all uid_char u)"
  shows "service_login u p = (if admits (principal_of u) p valid then MOSQ_ERR_SUCCESS else MOSQ_ERR_AUTH)"
proof (cases "u = ''codein''")
  case True
  have "\<not> strncmp_eq ''codein'' ''codein_os_'' 10" by (simp add: strncmp_eq_def)
  with True show ?thesis
    by (simp add: service_login_def principal_of_codein codein_password_def del: list.inject)
next
  case False
  have "prefix ''codein_os_'' u" if "prefix ''codein_os_js'' u"
    using _ that by (rule prefix_order.trans) simp
  moreover have "principal_of u = (if prefix ''codein_os_js'' u then Os_Js
      else if prefix ''codein_os_'' u then Os else Stranger)"
    by (simp only: principal_of_def assms False if_False)
  ultimately show ?thesis
    using False
    by (cases "prefix ''codein_os_js'' u"; cases "prefix ''codein_os_'' u")
      (simp_all add: service_login_def strncmp_eq_prefix)
qed

text \<open>The branches of the connect check that gets all three arguments.\<close>

lemma accept_Inr_iff [fault_simps]:
  "accept r = Some (Inr (rc, t)) \<longleftrightarrow> rc = MOSQ_ERR_SUCCESS \<and> r = Some (Inr t)"
proof (cases r)
  case (Some x)
  then show ?thesis by (cases x) (auto simp: accept_def)
qed (simp add: accept_def)

lemma connect_check_cases:
  assumes "mosquitto_auth_connect_check W (Some u) (Some p) (Some cid) sd tr = Some (Inr (rc, t))"
  obtains (service) "get_uid u = Inr (-1)" "rc = service_login u p" "t = tr"
  | (anonymous) uid where "get_uid u = Inr uid" "uid \<noteq> -1" "uid \<ge> anon_uid_base" "p = codein_password"
      "rc = MOSQ_ERR_SUCCESS" "on_client_online W uid p cid sd tr = Some (Inr t)"
  | (member) uid where "get_uid u = Inr uid" "uid \<noteq> -1" "\<not> (uid \<ge> anon_uid_base \<and> p = codein_password)"
      "session_valid W uid p tr" "rc = MOSQ_ERR_SUCCESS"
      "on_client_online W uid p cid sd
        (update_client_status W uid p (Some cid) sd (snd (check_token W uid p tr))) = Some (Inr t)"
  | (refused) uid where "get_uid u = Inr uid" "uid \<noteq> -1" "\<not> (uid \<ge> anon_uid_base \<and> p = codein_password)"
      "\<not> session_valid W uid p tr" "rc = MOSQ_ERR_AUTH" "t = snd (check_token W uid p tr)"
proof -
  from assms obtain uid where uid: "get_uid u = Inr uid"
    by (auto simp: mosquitto_auth_connect_check_def split: sum.splits)
  have fst_rc: "fst (check_token W uid p tr) = 0 \<longleftrightarrow> session_valid W uid p tr"
    by (simp add: check_token_result)
  obtain k tk where ct: "check_token W uid p tr = (k, tk)" by (cases "check_token W uid p tr")
  consider "uid = -1" | "uid \<noteq> -1" "uid \<ge> anon_uid_base \<and> p = codein_password"
    | "uid \<noteq> -1" "\<not> (uid \<ge> anon_uid_base \<and> p = codein_password)" "k = 0"
    | "uid \<noteq> -1" "\<not> (uid \<ge> anon_uid_base \<and> p = codein_password)" "k \<noteq> 0"
    by blast
  then show thesis
  proof cases
    case 1
    with assms uid show thesis by (intro service) (auto simp: mosquitto_auth_connect_check_def)
  next
    case 2
    with assms uid show thesis
      by (intro anonymous) (auto simp: mosquitto_auth_connect_check_def fault_simps)
  next
    case 3
    with assms uid ct fst_rc show thesis
      by (intro member) (auto simp: mosquitto_auth_connect_check_def fault_simps)
  next
    case 4
    with assms uid ct fst_rc show thesis
      by (intro refused) (auto simp: mosquitto_auth_connect_check_def)
  qed
qed

lemma connect_check_policy:
  assumes "mosquitto_auth_connect_check W (Some u) (Some p) (Some cid) sd tr = Some (Inr (rc, t))"
  shows "rc = (if admits (principal_of u) p (\<lambda>uid. session_valid W uid p tr)
    then MOSQ_ERR_SUCCESS else MOSQ_ERR_AUTH)"
  using assms
proof (cases rule: connect_check_cases)
  case service
  then have "\<not> (u \<noteq> [] \<and> list_all uid_char u)" using get_uid_member(1) by blast
  then show ?thesis using service(2) by (simp add: service_login_iff)
next
  case (anonymous uid)
  then show ?thesis using get_uid_member(2) [OF anonymous(1,2)] by (simp add: codein_password_def)
next
  case (member uid)
  then show ?thesis using get_uid_member(2) [OF member(1,2)] by simp
next
  case (refused uid)
  then show ?thesis using get_uid_member(2) [OF refused(1,2)] by (auto simp: codein_password_def)
qed

lemma connect_check_null:
  assumes "username = None \<or> password = None \<or> clientid = None"
  shows "\<exists>m. mosquitto_auth_connect_check W username password clientid sd tr =
    Some (Inr (MOSQ_ERR_AUTH, tr @ [Peer_Name sd, Log m]))"
  using assms
  by (cases username; cases password; cases clientid) (simp_all add: mosquitto_auth_connect_check_def Let_def)

text \<open>The events of a check that returns keep the discipline of the pool.\<close>

lemma connect_check_pool:
  assumes "mosquitto_auth_connect_check W username password clientid sd tr = Some (Inr (rc, t))"
    and "monitor pool_step h tr = Some held"
  shows "monitor pool_step h t = Some held"
proof (cases "username = None \<or> password = None \<or> clientid = None")
  case True
  from connect_check_null [OF this, of W sd tr] assms show ?thesis by (auto simp: monitor_append)
next
  case False
  then obtain u p cid where a: "username = Some u" "password = Some p" "clientid = Some cid" by auto
  have online: "monitor pool_step h t' = Some held"
    if "on_client_online W uid p cid sd tr' = Some (Inr t')" "monitor pool_step h tr' = Some held"
    for uid tr' t'
    using that(1) by (rule on_client_online_trace) (simp add: that(2) monitor_append)
  have tok: "monitor pool_step h (snd (check_token W uid p tr)) = Some held" for uid
    using token_check.op_keeps [of h tr held W "(uid, p)"] assms(2) by simp
  have upd: "monitor pool_step h (update_client_status W uid p (Some cid) sd tr') = Some held"
    if "monitor pool_step h tr' = Some held" for uid tr'
    using status_update.op_keeps [of h tr' held W "(uid, p, Some cid, sd)"] that by simp
  from assms(1) [unfolded a] show ?thesis
    by (cases rule: connect_check_cases) (auto intro: online tok upd simp: assms(2))
qed

text \<open>When the outside answers, the check returns: what it needs of the outside.\<close>

definition responsive :: "world \<Rightarrow> bool" where
  "responsive W \<longleftrightarrow>
     (\<forall>tr buf. \<exists>k. kfk_produce W (tr @ full_rounds W buf k) buf \<noteq> Some RD_KAFKA_RESP_ERR__QUEUE_FULL) \<and>
     (\<forall>tr sd. peer_ip W tr sd \<noteq> None) \<and> (\<forall>tr. is_long (clock W tr * 1000))"

lemma on_client_online_returns:
  assumes "responsive W"
  shows "\<exists>t. on_client_online W uid token cid sd tr = Some (Inr t)"
proof -
  have "peer_ip W tr sd \<noteq> None" using assms unfolding responsive_def by blast
  then obtain ip where ip: "peer_ip W tr sd = Some ip" by blast
  have "to_long (clock W tr * 1000) = Inr (clock W tr * 1000)"
    using assms by (simp add: responsive_def to_long_def)
  moreover have "\<exists>t. kafka_send W msg tr' = Some t" for msg tr'
    using assms by (simp add: kafka_send_def produce_loop_returns_iff responsive_def)
  then obtain t where
    "kafka_send W (online_msg uid token cid (clock W tr * 1000) ip) (tr @ [Peer_Name sd]) = Some t"
    by blast
  ultimately show ?thesis by (simp add: on_client_online_def ip)
qed

lemma connect_check_returns:
  assumes "responsive W" "get_uid u = Inr uid"
  shows "\<exists>rc t. mosquitto_auth_connect_check W (Some u) (Some p) (Some cid) sd tr = Some (Inr (rc, t))"
proof -
  have "\<exists>t. accept (on_client_online W v q cid sd tr') = Some (Inr (MOSQ_ERR_SUCCESS, t))" for v q tr'
    using on_client_online_returns [OF assms(1), of v q cid sd tr'] by (auto simp: accept_def)
  then have *: "\<exists>rc t. accept (on_client_online W v q cid sd tr') = Some (Inr (rc, t))" for v q tr'
    by blast
  show ?thesis
    by (cases "check_token W uid p tr") (simp add: mosquitto_auth_connect_check_def assms(2) *)
qed

lemma responsive_sample_world: "responsive sample_world"
proof -
  have "6 \<le> length (tr @ full_rounds sample_world buf 2)" for tr buf
    by (simp add: full_round_def numeral_2_eq_2)
  then have "kfk_produce sample_world (tr @ full_rounds sample_world buf 2) buf = None" for tr buf
    by (simp add: sample_world_def leD)
  then have "\<exists>k. kfk_produce sample_world (tr @ full_rounds sample_world buf k) buf \<noteq>
      Some RD_KAFKA_RESP_ERR__QUEUE_FULL" for tr buf
    by (metis option.distinct(1))
  then show ?thesis
    by (simp add: responsive_def) (simp add: sample_world_def is_long_def long_max_def long_min_def)
qed

section \<open>Properties\<close>

text \<open>
  C1. Whenever the connect check of a user name, a password and a client id returns, its answer is
  the policy's: a fixed service account with
  its password, a uid in the anonymous range with the shared password, or a uid with a session the
  database confirms; every other connection is refused.
\<close>

theorem connect_check_implements_policy:
  assumes "mosquitto_auth_connect_check W (Some u) (Some p) (Some cid) sd tr = Some (Inr (rc, t))"
  shows "rc = (if admits (principal_of u) p (\<lambda>uid. session_valid W uid p tr)
    then MOSQ_ERR_SUCCESS else MOSQ_ERR_AUTH)"
  using assms by (rule connect_check_policy)

theorem connect_check_implements_policy_witness:
  "admits (principal_of ''codein_os_js7'') ''js.codein.tv'' (\<lambda>uid. session_valid sample_world uid ''js.codein.tv'' [])"
proof -
  have "get_uid ''codein_os_js7'' = Inr (-1)"
    by (simp add: get_uid_def schar_def)
  then have "mosquitto_auth_connect_check sample_world (Some ''codein_os_js7'') (Some ''js.codein.tv'')
      (Some ''d'') 4 [] = Some (Inr (MOSQ_ERR_SUCCESS, []))"
    by (simp add: mosquitto_auth_connect_check_def service_login_def strncmp_eq_def)
  from connect_check_implements_policy [OF this] show ?thesis by (simp split: if_splits)
qed

text \<open>
  C11. With a responsive outside (Kafka's queue does not stay full, the peer has a numeric address,
  the clock fits) the connect check returns, without a fault, for every user name whose digits fit a
  \<open>long\<close>.
\<close>

theorem connect_check_terminates:
  assumes "responsive W" "uid_value u \<le> long_max"
  shows "\<exists>rc t. mosquitto_auth_connect_check W (Some u) (Some p) (Some cid) sd tr = Some (Inr (rc, t))"
proof -
  obtain uid where "get_uid u = Inr uid" using assms(2) by (auto simp: get_uid_total)
  with assms(1) show ?thesis by (rule connect_check_returns)
qed

theorem connect_check_terminates_witness:
  "\<exists>rc t. mosquitto_auth_connect_check sample_world (Some ''12'') (Some ''tok'') (Some ''dev'') 3 [] =
    Some (Inr (rc, t))"
proof (rule connect_check_terminates)
  show "responsive sample_world" by (rule responsive_sample_world)
  show "uid_value ''12'' \<le> long_max"
    by (simp add: uid_value_def uid_char_def is_digit_def schar_def digits_val_def digit_val_def
        long_max_def)
qed

text \<open>
  C5. A refused connection publishes nothing, and the only text it sends to the database is its token
  query: once, when all three arguments are there, the name is a uid and the pool has a connection, and
  nothing at all otherwise. (What the database makes of that text depends on the token, which is not
  escaped.)
\<close>

theorem refused_connection_traffic:
  assumes "mosquitto_auth_connect_check W username password clientid sd tr =
    Some (Inr (MOSQ_ERR_AUTH, t))"
  shows "\<exists>es. t = tr @ es \<and> produced es = [] \<and> statements es =
    (case (username, password, clientid) of
       (Some u, Some p, Some cid) \<Rightarrow>
         (case get_uid u of
            Inr uid \<Rightarrow> if uid \<noteq> -1 \<and> pool_pop W tr \<noteq> None then [token_query uid p] else []
          | Inl f \<Rightarrow> [])
     | _ \<Rightarrow> [])"
proof (cases "username = None \<or> password = None \<or> clientid = None")
  case True
  with connect_check_null [OF True, of W sd tr] assms show ?thesis
    by (auto split: option.splits)
next
  case False
  then obtain u p cid where a: "username = Some u" "password = Some p" "clientid = Some cid" by auto
  from assms [unfolded a] show ?thesis
  proof (cases rule: connect_check_cases)
    case service
    then show ?thesis by (simp add: a)
  next
    case (refused uid)
    then show ?thesis by (simp add: a check_token_trace trace_simps)
  qed simp_all
qed

definition empty_database :: world where
  "empty_database = sample_world\<lparr>pq_exec := \<lambda>_ _ _. (PGRES_TUPLES_OK, [''0''])\<rparr>"

lemma empty_database_refuses:
  "\<exists>t. mosquitto_auth_connect_check empty_database (Some ''12'') (Some ''x'') (Some ''d'') 4 [] =
    Some (Inr (MOSQ_ERR_AUTH, t))"
proof -
  have u: "get_uid ''12'' = Inr 12"
    by (simp add: get_uid_def schar_def is_digit_def digit_val_def to_long_def is_long_def long_max_def long_min_def)
  have "atol ''0'' = 0" by code_simp
  then have "fst (check_token empty_database 12 ''x'' []) \<noteq> 0"
    by (simp add: check_token_def empty_database_def sample_world_def Let_def)
  then show ?thesis
    by (cases "check_token empty_database 12 ''x'' []")
      (simp add: mosquitto_auth_connect_check_def u anon_uid_base_def)
qed

theorem refused_connection_traffic_witness:
  "\<exists>t. mosquitto_auth_connect_check empty_database (Some ''12'') (Some ''x'') (Some ''d'') 4 [] =
      Some (Inr (MOSQ_ERR_AUTH, t)) \<and>
    produced t = [] \<and> statements t = [token_query 12 ''x'']"
proof -
  obtain t where t: "mosquitto_auth_connect_check empty_database (Some ''12'') (Some ''x'') (Some ''d'') 4 [] =
      Some (Inr (MOSQ_ERR_AUTH, t))"
    using empty_database_refuses by blast
  have u: "get_uid ''12'' = Inr 12"
    by (simp add: get_uid_def schar_def is_digit_def digit_val_def to_long_def is_long_def long_max_def long_min_def)
  from refused_connection_traffic [OF t] t show ?thesis
    by (simp add: u) (simp add: empty_database_def sample_world_def)
qed

text \<open>
  C2. A uid admitted through the database, with a password other than the shared one, a client id that
  is not empty and a pool that has connections, leads to the token query followed by exactly the three updates, and then to the publication of one message,
  offered until it is not refused for a full queue.
\<close>

theorem member_login_effects:
  assumes "mosquitto_auth_connect_check W (Some u) (Some p) (Some cid) sd tr =
      Some (Inr (MOSQ_ERR_SUCCESS, t))"
    and "get_uid u = Inr uid" "uid \<noteq> -1" "p \<noteq> codein_password" "cid \<noteq> []"
    and "\<And>tr'. pool_pop W tr' \<noteq> None"
  shows "\<exists>es ip b k r. t = tr @ es \<and>
    statements es = [token_query uid p, reset_others_sql uid cid, set_ip_sql ip uid cid,
      expire_others_sql uid p cid] \<and>
    produced es = replicate k (b, Some RD_KAFKA_RESP_ERR__QUEUE_FULL) @ [(b, r)] \<and>
    r \<noteq> Some RD_KAFKA_RESP_ERR__QUEUE_FULL"
  using assms(1)
proof (cases rule: connect_check_cases)
  case (member uid')
  then have [simp]: "uid' = uid" using assms(2) by simp
  let ?t1 = "snd (check_token W uid p tr)"
  obtain c where c: "pool_pop W ?t1 = Some c" using assms(6) by blast
  obtain us ip where us: "update_client_status W uid p (Some cid) sd ?t1 = ?t1 @ us" "produced us = []"
    "statements us = [reset_others_sql uid cid, set_ip_sql ip uid cid, expire_others_sql uid p cid]"
    by (rule update_client_status_trace [OF assms(5) c, where uid = uid and token = p and sd = sd])
      (auto simp: append_eq_append_conv2)
  have "on_client_online W uid p cid sd (?t1 @ us) = Some (Inr t)" using member(6) us(1) by simp
  then show ?thesis
  proof (rule on_client_online_trace)
    fix os b k r
    assume "t = (?t1 @ us) @ os" "statements os = []" "r \<noteq> Some RD_KAFKA_RESP_ERR__QUEUE_FULL"
      "produced os = replicate k (b, Some RD_KAFKA_RESP_ERR__QUEUE_FULL) @ [(b, r)]"
    then show ?thesis
      using us assms(6)
      by (intro exI [of _ "check_token_events W uid p tr @ us @ os"] exI [of _ ip] exI [of _ b]
          exI [of _ k] exI [of _ r]) (simp add: check_token_trace trace_simps)
  qed
qed (use assms in \<open>auto split: if_splits\<close>)

theorem member_login_effects_witness:
  "\<exists>t es ip b k r. mosquitto_auth_connect_check sample_world (Some ''12'') (Some ''tok'') (Some ''dev'') 3 [] =
      Some (Inr (MOSQ_ERR_SUCCESS, t)) \<and> t = [] @ es \<and>
    statements es = [token_query 12 ''tok'', reset_others_sql 12 ''dev'', set_ip_sql ip 12 ''dev'',
      expire_others_sql 12 ''tok'' ''dev''] \<and>
    produced es = replicate k (b, Some RD_KAFKA_RESP_ERR__QUEUE_FULL) @ [(b, r)] \<and>
    r \<noteq> Some RD_KAFKA_RESP_ERR__QUEUE_FULL"
proof -
  have u: "get_uid ''12'' = Inr 12"
    by (simp add: get_uid_def schar_def to_long_def is_long_def long_max_def long_min_def)
  have "take 6 (token_query 12 ''tok'') = ''select''"
    by (simp add: token_query_def snprintf_buf_def token_query_text_def)
  then have "fst (check_token sample_world 12 ''tok'' []) = 0"
    by (simp add: check_token_result session_valid_def)
      (simp add: sample_world_def atol_def strtol10_def c_isspace_def schar_def is_digit_def
        digits_val_def digit_val_def long_max_def long_min_def)
  then obtain t1 where ct: "check_token sample_world 12 ''tok'' [] = (0, t1)"
    by (cases "check_token sample_world 12 ''tok'' []") auto
  obtain t where "on_client_online sample_world 12 ''tok'' ''dev'' 3
      (update_client_status sample_world 12 ''tok'' (Some ''dev'') 3 t1) = Some (Inr t)"
    using on_client_online_returns [OF responsive_sample_world] by blast
  then have c: "mosquitto_auth_connect_check sample_world (Some ''12'') (Some ''tok'') (Some ''dev'') 3 [] =
      Some (Inr (MOSQ_ERR_SUCCESS, t))"
    by (simp add: mosquitto_auth_connect_check_def u ct accept_def codein_password_def)
  have "pool_pop sample_world tr' \<noteq> None" for tr' by (simp add: sample_world_def)
  from member_login_effects [OF c u _ _ _ this] c show ?thesis by (simp add: codein_password_def)
qed

text \<open>
  C6. Every way in which the connect check returns leaves the connections taken from the pool as they
  were: none is kept, none is used or given back without being held.
\<close>

theorem connect_check_pool_discipline:
  assumes "mosquitto_auth_connect_check W username password clientid sd [] = Some (Inr (rc, t))"
  shows "monitor pool_step {#} t = Some {#}"
  using connect_check_pool [OF assms] by simp

theorem connect_check_pool_discipline_witness:
  "\<exists>t. mosquitto_auth_connect_check empty_database (Some ''12'') (Some ''x'') (Some ''d'') 4 [] =
      Some (Inr (MOSQ_ERR_AUTH, t)) \<and> monitor pool_step {#} t = Some {#}"
proof -
  obtain t where t: "mosquitto_auth_connect_check empty_database (Some ''12'') (Some ''x'') (Some ''d'') 4 [] =
      Some (Inr (MOSQ_ERR_AUTH, t))"
    using empty_database_refuses by blast
  from connect_check_pool_discipline [OF t] t show ?thesis by blast
qed

text \<open>
  A connection without user name, password or client id is refused by the connect check without
  any statement or publication, and the user-name check refuses exactly the connections without user
  name or password.
\<close>

theorem missing_credentials_refused:
  "(\<exists>m. mosquitto_auth_connect_check W None password clientid sd tr =
      Some (Inr (MOSQ_ERR_AUTH, tr @ [Peer_Name sd, Log m]))) \<and>
   (\<exists>m. mosquitto_auth_connect_check W username None clientid sd tr =
      Some (Inr (MOSQ_ERR_AUTH, tr @ [Peer_Name sd, Log m]))) \<and>
   (\<exists>m. mosquitto_auth_connect_check W username password None sd tr =
      Some (Inr (MOSQ_ERR_AUTH, tr @ [Peer_Name sd, Log m]))) \<and>
   (fst (mosquitto_auth_unpwd_check username password tr) = MOSQ_ERR_SUCCESS \<longleftrightarrow>
      username \<noteq> None \<and> password \<noteq> None)"
  by (simp add: connect_check_null mosquitto_auth_unpwd_check_def)

text \<open>
  The ACL check never denies: every client with a user name may read and write every topic,
  whatever the code computes for the user \<open>readonly\<close>; without a user name it dereferences a null
  pointer.
\<close>

theorem acl_check_never_denies:
  "mosquitto_auth_acl_check clientid username topic access =
    (if username = None then Inl Null_Deref else Inr MOSQ_ERR_SUCCESS)"
  by (cases username) (simp_all add: mosquitto_auth_acl_check_def Let_def)

text \<open>
  A client that the connect check admitted has a user name, so that the ACL check is defined
  for it and grants every access.
\<close>

theorem admitted_client_passes_acl:
  assumes "mosquitto_auth_connect_check W username password clientid sd tr =
    Some (Inr (MOSQ_ERR_SUCCESS, t))"
  shows "mosquitto_auth_acl_check clientid username topic access = Inr MOSQ_ERR_SUCCESS"
proof (cases username)
  case None
  with connect_check_null [of username password clientid W sd tr] assms show ?thesis by simp
qed (simp add: mosquitto_auth_acl_check_def Let_def)

theorem admitted_client_passes_acl_witness:
  "mosquitto_auth_acl_check (Some ''d'') (Some ''codein'') ''im/sys'' MOSQ_ACL_WRITE = Inr MOSQ_ERR_SUCCESS"
proof (rule admitted_client_passes_acl)
  have "get_uid ''codein'' = Inr (-1)" by (simp add: get_uid_def schar_def)
  then show "mosquitto_auth_connect_check sample_world (Some ''codein'') (Some ''codein.tv'') (Some ''d'') 4 [] =
      Some (Inr (MOSQ_ERR_SUCCESS, []))"
    by (simp add: mosquitto_auth_connect_check_def service_login_def codein_password_def)
qed

end
