(* ===== verification/Lifecycle.thy ===== *)
theory Lifecycle
  imports Auth
begin

text \<open>
  Loading and unloading of \<open>auth_plugin.cc\<close>: \<open>kafka_init\<close>, \<open>mosquitto_auth_plugin_init\<close> and
  \<open>mosquitto_auth_plugin_cleanup\<close> over the plugin's global pointers. Objects are numbered; a
  destroyed object is no longer live, and destroying it again is a double free. \<open>join\<close> waits for
  the thread that runs \<open>kafka_run\<close>, so that a cleanup that joins it returns only if \<open>kafka_run\<close>
  does.
\<close>

section \<open>State\<close>

record plugin =
  g_pq_pool :: "nat option"
  g_rk :: "nat option"
  g_rkt :: "nat option"
  g_kafka_thread :: "nat option"
  thread_tid :: int
  promise_taken :: bool
  stderr_lines :: "string list"
  live :: "nat set"
  next_obj :: nat

definition plugin_start :: plugin where
  "plugin_start = \<lparr>g_pq_pool = None, g_rk = None, g_rkt = None, g_kafka_thread = None,
     thread_tid = 0, promise_taken = False, stderr_lines = [], live = {}, next_obj = 0\<rparr>"

text \<open>
  How the libraries answer during one call of the initialisation, and the texts of their errors. The
  constructors of the pool and of the thread throw when they fail.
\<close>

record startup =
  pool_ok :: bool
  conf_set_ok :: bool
  rk_new_ok :: bool
  topic_new_ok :: bool
  thread_ok :: bool
  conf_error :: string
  new_error :: string
  topic_error :: string
  new_tid :: int
  exits_in_time :: bool

definition new_obj :: "plugin \<Rightarrow> plugin" where
  "new_obj s = s\<lparr>live := insert (next_obj s) (live s), next_obj := Suc (next_obj s)\<rparr>"

definition destroy :: "nat \<Rightarrow> plugin \<Rightarrow> plugin run" where
  "destroy x s = (if x \<in> live s then Inr (s\<lparr>live := live s - {x}\<rparr>) else Inl Double_Free)"

definition destroy_opt :: "nat option \<Rightarrow> plugin \<Rightarrow> plugin run" where
  "destroy_opt x s = (case x of None \<Rightarrow> Inr s | Some n \<Rightarrow> destroy n s)"

definition say :: "string \<Rightarrow> plugin \<Rightarrow> plugin" where
  "say m s = s\<lparr>stderr_lines := stderr_lines s @ [m]\<rparr>"

section \<open>Initialisation\<close>

text \<open>
  The configuration object is destroyed when setting the brokers fails and becomes part of the
  producer when \<open>rd_kafka_new\<close> succeeds.
\<close>

definition kafka_init :: "startup \<Rightarrow> plugin \<Rightarrow> (int \<times> plugin) run" where
  "kafka_init A s =
     (let s = s\<lparr>g_kafka_thread := None\<rparr>;
          conf = next_obj s;
          s = new_obj s
      in if \<not> conf_set_ok A then and_then (destroy conf s) (\<lambda>s. Inr (-1, say (conf_error A) s))
         else if \<not> rk_new_ok A then Inr (-1, say (''% Failed to create new producer: '' @ new_error A) (s\<lparr>g_rk := None\<rparr>))
         else and_then (destroy conf s) (\<lambda>s.
           (let rk = next_obj s;
                s = (new_obj s)\<lparr>g_rk := Some rk\<rparr>
            in if \<not> topic_new_ok A
               then and_then (destroy rk (say (''% Failed to create topic object: '' @ topic_error A)
                       (s\<lparr>g_rkt := None\<rparr>))) (\<lambda>s. Inr (-1, s))
               else Inr (0, (new_obj s)\<lparr>g_rkt := Some (next_obj s)\<rparr>))))"

text \<open>Whether the promise of the thread is set within the 300 ms the initialisation waits.\<close>

definition future_ready :: "startup \<Rightarrow> bool" where
  "future_ready A \<longleftrightarrow> kafka_run (new_tid A) [] \<noteq> None \<and> exits_in_time A"

definition mosquitto_auth_plugin_init :: "startup \<Rightarrow> plugin \<Rightarrow> (mosq_err \<times> plugin) run" where
  "mosquitto_auth_plugin_init A s =
     (if \<not> pool_ok A then Inl Uncaught_Exception
      else (let s = (new_obj s)\<lparr>g_pq_pool := Some (next_obj s)\<rparr>
        in and_then (kafka_init A s) (\<lambda>(rc, s).
             if rc \<noteq> 0
             then and_then (destroy_opt (g_pq_pool s) s)
                    (\<lambda>s. Inr (MOSQ_ERR_CONN_PENDING, say ''error init kafka!'' (s\<lparr>g_pq_pool := None\<rparr>)))
             else if promise_taken s then Inl Uncaught_Exception
             else if \<not> thread_ok A then Inl Uncaught_Exception
             else (let th = next_obj s;
                       s = (new_obj (s\<lparr>promise_taken := True, thread_tid := new_tid A\<rparr>))\<lparr>g_kafka_thread := Some th\<rparr>
               in if future_ready A
                  then and_then (destroy_opt (g_pq_pool s) s) (\<lambda>s.
                         and_then (destroy th (say ''kafka thread terminated!'' (s\<lparr>g_pq_pool := None\<rparr>))) (\<lambda>s.
                           Inr (MOSQ_ERR_CONN_PENDING, s\<lparr>g_kafka_thread := None\<rparr>)))
                  else Inr (MOSQ_ERR_SUCCESS, s)))))"

section \<open>Cleanup\<close>

definition mosquitto_auth_plugin_cleanup :: "plugin \<Rightarrow> (mosq_err \<times> plugin) run option" where
  "mosquitto_auth_plugin_cleanup s =
     (case destroy_opt (g_pq_pool s) s of
        Inl f \<Rightarrow> Some (Inl f)
      | Inr s \<Rightarrow>
          (let s = s\<lparr>g_pq_pool := None\<rparr>
           in if g_kafka_thread s \<noteq> None \<and> kafka_run (thread_tid s) [] = None then None
              else Some (and_then (destroy_opt (g_kafka_thread s) s) (\<lambda>s.
                     and_then (destroy_opt (g_rkt s) (s\<lparr>g_kafka_thread := None\<rparr>)) (\<lambda>s.
                       and_then (destroy_opt (g_rk s) (s\<lparr>g_rkt := None\<rparr>)) (\<lambda>s.
                         Inr (MOSQ_ERR_SUCCESS, s\<lparr>g_rk := None\<rparr>)))))))"

definition mosquitto_auth_security_init :: "bool \<Rightarrow> mosq_err" where
  "mosquitto_auth_security_init reload = MOSQ_ERR_SUCCESS"

definition mosquitto_auth_security_cleanup :: "bool \<Rightarrow> mosq_err" where
  "mosquitto_auth_security_cleanup reload = MOSQ_ERR_SUCCESS"

section \<open>Handles\<close>

text \<open>The objects the global pointers name, and the invariant: they are live, fresh and distinct.\<close>

definition handles :: "plugin \<Rightarrow> nat list" where
  "handles s = List.map_filter (\<lambda>x. x) [g_pq_pool s, g_kafka_thread s, g_rkt s, g_rk s]"

definition objs_fresh :: "plugin \<Rightarrow> bool" where
  "objs_fresh s \<longleftrightarrow> (\<forall>x \<in> live s. x < next_obj s)"

definition plugin_inv :: "plugin \<Rightarrow> bool" where
  "plugin_inv s \<longleftrightarrow> objs_fresh s \<and> set (handles s) \<subseteq> live s \<and> distinct (handles s)"

lemma handles_simp [simp]:
  "handles s = (case g_pq_pool s of None \<Rightarrow> [] | Some x \<Rightarrow> [x]) @
     (case g_kafka_thread s of None \<Rightarrow> [] | Some x \<Rightarrow> [x]) @
     (case g_rkt s of None \<Rightarrow> [] | Some x \<Rightarrow> [x]) @ (case g_rk s of None \<Rightarrow> [] | Some x \<Rightarrow> [x])"
  by (simp add: handles_def List.map_filter_simps split: option.splits)

lemmas lifecycle_defs = say_def new_obj_def destroy_def destroy_opt_def kafka_init_def Let_def
  mosquitto_auth_plugin_init_def mosquitto_auth_plugin_cleanup_def future_ready_def

lemma not_future_ready [simp]: "\<not> future_ready A"
  by (simp add: future_ready_def)

lemma plugin_inv_start: "plugin_inv plugin_start"
  by (simp add: plugin_inv_def objs_fresh_def plugin_start_def)

lemma next_obj_not_live: "objs_fresh s \<Longrightarrow> next_obj s \<notin> live s"
  by (auto simp: objs_fresh_def)

text \<open>The outcome of an initialisation, per answer of the libraries.\<close>

lemma init_outcome:
  assumes "plugin_inv s" "mosquitto_auth_plugin_init A s = Inr (rc, t)"
  shows "pool_ok A" and "rc = (if conf_set_ok A \<and> rk_new_ok A \<and> topic_new_ok A
    then MOSQ_ERR_SUCCESS else MOSQ_ERR_CONN_PENDING)"
  using assms
  by (auto simp: lifecycle_defs objs_fresh_def plugin_inv_def split: if_splits)

definition kafka_starts :: "startup \<Rightarrow> bool" where
  "kafka_starts A \<longleftrightarrow> conf_set_ok A \<and> rk_new_ok A \<and> topic_new_ok A"

text \<open>The one way in which a handle is left dangling: the producer is destroyed, not forgotten.\<close>

definition topic_fails :: "startup \<Rightarrow> bool" where
  "topic_fails A \<longleftrightarrow> conf_set_ok A \<and> rk_new_ok A \<and> \<not> topic_new_ok A"

text \<open>The invariant under the elementary changes of the state.\<close>

lemma inv_forget [intro]:
  "plugin_inv s \<Longrightarrow> plugin_inv (s\<lparr>g_pq_pool := None\<rparr>)"
  "plugin_inv s \<Longrightarrow> plugin_inv (s\<lparr>g_kafka_thread := None\<rparr>)"
  "plugin_inv s \<Longrightarrow> plugin_inv (s\<lparr>g_rkt := None\<rparr>)"
  "plugin_inv s \<Longrightarrow> plugin_inv (s\<lparr>g_rk := None\<rparr>)"
  "plugin_inv s \<Longrightarrow> plugin_inv (s\<lparr>promise_taken := b\<rparr>)"
  "plugin_inv s \<Longrightarrow> plugin_inv (s\<lparr>thread_tid := z\<rparr>)"
  "plugin_inv s \<Longrightarrow> plugin_inv (say m s)"
  by (auto simp: plugin_inv_def objs_fresh_def say_def)

lemma inv_new [intro]: "plugin_inv s \<Longrightarrow> plugin_inv (new_obj s)"
  by (auto simp: plugin_inv_def objs_fresh_def new_obj_def less_Suc_eq)

lemma handle_less: "plugin_inv s \<Longrightarrow> x \<in> set (handles s) \<Longrightarrow> x < next_obj s"
  by (auto simp only: plugin_inv_def objs_fresh_def)

lemma inv_new_handle [intro]:
  assumes "plugin_inv s"
  shows "plugin_inv ((new_obj s)\<lparr>g_pq_pool := Some (next_obj s)\<rparr>)"
    "plugin_inv ((new_obj s)\<lparr>g_kafka_thread := Some (next_obj s)\<rparr>)"
    "plugin_inv ((new_obj s)\<lparr>g_rkt := Some (next_obj s)\<rparr>)"
    "plugin_inv ((new_obj s)\<lparr>g_rk := Some (next_obj s)\<rparr>)"
proof -
  have n: "next_obj s \<notin> set (handles s)" using handle_less [OF assms] by blast
  have inv: "objs_fresh s" "set (handles s) \<subseteq> live s" "distinct (handles s)"
    using assms by (simp_all only: plugin_inv_def)
  have fresh: "objs_fresh (new_obj s)"
    using inv(1) by (auto simp: objs_fresh_def new_obj_def less_Suc_eq)
  show "plugin_inv ((new_obj s)\<lparr>g_pq_pool := Some (next_obj s)\<rparr>)"
    "plugin_inv ((new_obj s)\<lparr>g_kafka_thread := Some (next_obj s)\<rparr>)"
    "plugin_inv ((new_obj s)\<lparr>g_rkt := Some (next_obj s)\<rparr>)"
    "plugin_inv ((new_obj s)\<lparr>g_rk := Some (next_obj s)\<rparr>)"
    using n inv(2,3) fresh
    by (cases "g_pq_pool s"; cases "g_kafka_thread s"; cases "g_rkt s"; cases "g_rk s";
        simp add: plugin_inv_def objs_fresh_def new_obj_def; blast)+
qed

lemma inv_destroy:
  assumes "plugin_inv s" "x \<notin> set (handles s)" "destroy x s = Inr t"
  shows "plugin_inv t"
  using assms by (auto simp: plugin_inv_def objs_fresh_def destroy_def split: if_splits)

lemma inv_destroy_pool:
  assumes "plugin_inv s" "destroy_opt (g_pq_pool s) s = Inr t"
  shows "plugin_inv (t\<lparr>g_pq_pool := None\<rparr>)"
  using assms
  by (cases "g_pq_pool s") (auto simp: plugin_inv_def objs_fresh_def destroy_def destroy_opt_def
      split: if_splits)

lemma kafka_init_inv:
  assumes "plugin_inv s" "kafka_init A s = Inr (rc, t)" "\<not> topic_fails A"
  shows "plugin_inv t"
proof -
  let ?s = "s\<lparr>g_kafka_thread := None\<rparr>"
  have s: "plugin_inv ?s" using assms(1) by blast
  have n: "next_obj ?s \<notin> set (handles (new_obj ?s))"
    using handle_less [OF s] by (auto simp: new_obj_def split: option.splits)
  have d: "plugin_inv u" if "destroy (next_obj ?s) (new_obj ?s) = Inr u" for u
    using inv_new [OF s] n that by (rule inv_destroy)
  have two: "plugin_inv ((new_obj ((new_obj u)\<lparr>g_rk := Some (next_obj u)\<rparr>))
      \<lparr>g_rkt := Some (next_obj (new_obj u))\<rparr>)" if "plugin_inv u" for u
    using inv_new_handle(3) [OF inv_new_handle(4) [OF that]] by simp
  show ?thesis
    using assms(2,3) s d two
    by (auto simp: kafka_init_def Let_def topic_fails_def fault_simps split: if_splits)
qed

lemma init_inv:
  assumes "plugin_inv s" "mosquitto_auth_plugin_init A s = Inr (rc, t)" "\<not> topic_fails A"
  shows "plugin_inv t"
proof -
  let ?s = "(new_obj s)\<lparr>g_pq_pool := Some (next_obj s)\<rparr>"
  from assms(2) obtain krc u where k: "kafka_init A ?s = Inr (krc, u)"
    and r: "if krc \<noteq> 0 then \<exists>v. destroy_opt (g_pq_pool u) u = Inr v \<and> t = say ''error init kafka!'' (v\<lparr>g_pq_pool := None\<rparr>)
      else t = (new_obj (u\<lparr>promise_taken := True, thread_tid := new_tid A\<rparr>))\<lparr>g_kafka_thread := Some (next_obj u)\<rparr>"
    by (auto simp: mosquitto_auth_plugin_init_def Let_def fault_simps split: if_splits)
  have "plugin_inv ?s" using assms(1) by blast
  then have u: "plugin_inv u" using k assms(3) by (rule kafka_init_inv)
  show ?thesis
  proof (cases "krc = 0")
    case True
    have "plugin_inv (u\<lparr>promise_taken := True, thread_tid := new_tid A\<rparr>)" using u by blast
    from inv_new_handle(2) [OF this] r True show ?thesis by simp
  next
    case False
    with r inv_destroy_pool [OF u] inv_forget(7) show ?thesis by auto
  qed
qed

lemma cleanup_outcome:
  assumes "plugin_inv s"
  shows "mosquitto_auth_plugin_cleanup s =
    (if g_kafka_thread s = None
     then Some (Inr (MOSQ_ERR_SUCCESS,
            s\<lparr>g_pq_pool := None, g_rkt := None, g_rk := None, live := live s - set (handles s)\<rparr>))
     else None)"
  using assms
  by (auto simp: lifecycle_defs plugin_inv_def split: option.splits intro!: plugin.equality)

text \<open>
  The life of the plugin as the broker drives it: it calls the initialisation and the cleanup, in any
  order, and stops at a call that ends in a fault or does not return.
\<close>

inductive plugin_call :: "plugin \<Rightarrow> plugin \<Rightarrow> bool" where
  init: "mosquitto_auth_plugin_init A s = Inr (rc, t) \<Longrightarrow> \<not> topic_fails A \<Longrightarrow> plugin_call s t"
| cleanup: "mosquitto_auth_plugin_cleanup s = Some (Inr (rc, t)) \<Longrightarrow> plugin_call s t"

inductive plugin_reachable :: "plugin \<Rightarrow> bool" where
  start: "plugin_reachable plugin_start"
| call: "plugin_reachable s \<Longrightarrow> plugin_call s t \<Longrightarrow> plugin_reachable t"

lemma cleanup_inv:
  assumes "plugin_inv s" "mosquitto_auth_plugin_cleanup s = Some (Inr (rc, t))"
  shows "plugin_inv t"
  using assms(2) unfolding cleanup_outcome [OF assms(1)]
  using assms(1) by (auto simp: plugin_inv_def objs_fresh_def split: if_splits)

lemma plugin_call_inv: "plugin_call s t \<Longrightarrow> plugin_inv s \<Longrightarrow> plugin_inv t"
  by (induction rule: plugin_call.induct) (auto intro: init_inv cleanup_inv)

lemma plugin_reachable_inv: "plugin_reachable s \<Longrightarrow> plugin_inv s"
  by (induction rule: plugin_reachable.induct) (auto intro: plugin_inv_start plugin_call_inv)

section \<open>Properties\<close>

text \<open>
  C31. Started once, with a pool that can be created, the initialisation succeeds exactly when the
  brokers can be set, the producer and topic can be created and the thread can be started; a pool or a
  thread that cannot be created is an exception nobody catches. The check that the Kafka thread has
  already ended never fires, because \<open>kafka_run\<close> never returns.
\<close>

theorem plugin_init_outcome:
  "map_sum id fst (mosquitto_auth_plugin_init A plugin_start) =
    (if \<not> pool_ok A then Inl Uncaught_Exception
     else if kafka_starts A
     then (if thread_ok A then Inr MOSQ_ERR_SUCCESS else Inl Uncaught_Exception) else Inr MOSQ_ERR_CONN_PENDING)"
  by (simp add: lifecycle_defs plugin_start_def kafka_starts_def)

text \<open>
  C13. As long as creating the topic does not fail after the producer was created, every state the
  broker can drive the plugin into has only live, distinct objects behind its global pointers.
\<close>

theorem plugin_handles_live:
  assumes "plugin_reachable s"
  shows "set (handles s) \<subseteq> live s \<and> distinct (handles s)"
  using plugin_reachable_inv [OF assms] by (simp only: plugin_inv_def simp_thms)

definition all_fine :: startup where
  "all_fine = \<lparr>pool_ok = True, conf_set_ok = True, rk_new_ok = True, topic_new_ok = True,
     thread_ok = True, conf_error = [], new_error = [], topic_error = ''no topic'',
     new_tid = 4711, exits_in_time = True\<rparr>"

lemma init_all_fine:
  "mosquitto_auth_plugin_init all_fine plugin_start =
    Inr (MOSQ_ERR_SUCCESS, \<lparr>g_pq_pool = Some 0, g_rk = Some 2, g_rkt = Some 3, g_kafka_thread = Some 4,
      thread_tid = 4711, promise_taken = True, stderr_lines = [], live = {0, 2, 3, 4}, next_obj = 5\<rparr>)"
  by (auto simp: lifecycle_defs plugin_start_def all_fine_def)

theorem plugin_handles_live_witness:
  "\<exists>s. plugin_reachable s \<and> g_kafka_thread s = Some 4 \<and> set (handles s) \<subseteq> live s \<and> distinct (handles s)"
proof -
  let ?s = "\<lparr>g_pq_pool = Some 0, g_rk = Some 2, g_rkt = Some 3, g_kafka_thread = Some 4,
      thread_tid = 4711, promise_taken = True, stderr_lines = [], live = {0, 2, 3, 4 :: nat}, next_obj = 5\<rparr>"
  have "plugin_call plugin_start ?s"
    by (rule plugin_call.init [OF init_all_fine]) (simp add: topic_fails_def all_fine_def)
  then have "plugin_reachable ?s" by (rule plugin_reachable.call [OF plugin_reachable.start])
  from plugin_handles_live [OF this] this show ?thesis by (intro exI [of _ ?s]) simp
qed

text \<open>
  C19. After a successful initialisation the cleanup never returns: it joins the Kafka thread, whose
  loop has no end.
\<close>

theorem cleanup_after_success_hangs:
  assumes "mosquitto_auth_plugin_init A plugin_start = Inr (MOSQ_ERR_SUCCESS, s)"
  shows "mosquitto_auth_plugin_cleanup s = None"
  using assms
  by (auto simp: lifecycle_defs plugin_start_def split: if_splits)

theorem cleanup_after_success_hangs_witness:
  "\<exists>s. mosquitto_auth_plugin_init all_fine plugin_start = Inr (MOSQ_ERR_SUCCESS, s) \<and>
    mosquitto_auth_plugin_cleanup s = None"
  using cleanup_after_success_hangs [OF init_all_fine] init_all_fine by blast

text \<open>
  C20. When the initialisation fails, a cleanup that follows succeeds and leaves no handle, except
  when it was the topic that could not be created: then the producer is destroyed twice.
\<close>

theorem cleanup_after_failure:
  assumes "mosquitto_auth_plugin_init A plugin_start = Inr (MOSQ_ERR_CONN_PENDING, s)"
  shows "if topic_fails A then mosquitto_auth_plugin_cleanup s = Some (Inl Double_Free)
    else \<exists>t. mosquitto_auth_plugin_cleanup s = Some (Inr (MOSQ_ERR_SUCCESS, t)) \<and> handles t = []"
  using assms
  by (auto simp: lifecycle_defs plugin_start_def topic_fails_def split: if_splits)

theorem cleanup_after_failure_witness:
  "\<exists>s. mosquitto_auth_plugin_init (all_fine\<lparr>topic_new_ok := False\<rparr>) plugin_start =
      Inr (MOSQ_ERR_CONN_PENDING, s) \<and>
    mosquitto_auth_plugin_cleanup s = Some (Inl Double_Free)"
proof -
  obtain s where s: "mosquitto_auth_plugin_init (all_fine\<lparr>topic_new_ok := False\<rparr>) plugin_start =
      Inr (MOSQ_ERR_CONN_PENDING, s)"
    by (auto simp: lifecycle_defs plugin_start_def all_fine_def)
  from cleanup_after_failure [OF s] s show ?thesis
    by (auto simp: topic_fails_def all_fine_def)
qed

end
