(* ===== verification/Config.thy ===== *)
theory Config
  imports CString
begin

text \<open>
  The configuration of the client programs (\<open>client_shared.h\<close>): the struct \<open>mosq_config\<close> with
  its strings as pointers, its initial value and its destruction by \<open>client_config_cleanup\<close>. A
  pointer carries the number of the allocation it came from, so that two pointers to the same
  allocation are told apart from two equal strings; a string literal is a pointer that must not be
  freed.
\<close>

section \<open>Pointers to strings\<close>

datatype cptr = CNull | CLit string | CHeap nat string

fun deref :: "cptr \<Rightarrow> string run" where
  "deref CNull = Inl Null_Deref"
| "deref (CLit s) = Inr s"
| "deref (CHeap n s) = Inr s"

text \<open>What \<open>printf\<close> shows for a pointer with the format \<open>%s\<close>.\<close>

definition show_ptr :: "cptr \<Rightarrow> string" where
  "show_ptr p = (case p of CNull \<Rightarrow> ''(null)'' | CLit s \<Rightarrow> s | CHeap n s \<Rightarrow> s)"

text \<open>The string behind a pointer, if any.\<close>

definition text_of :: "cptr \<Rightarrow> string option" where
  "text_of p = (case p of CNull \<Rightarrow> None | CLit s \<Rightarrow> Some s | CHeap n s \<Rightarrow> Some s)"

text \<open>A sequence of calls of \<open>free\<close>, with the allocations freed so far.\<close>

fun free_all :: "cptr list \<Rightarrow> nat set \<Rightarrow> nat set run" where
  "free_all [] freed = Inr freed"
| "free_all (CNull # ps) freed = free_all ps freed"
| "free_all (CLit s # ps) freed = Inl Bad_Free"
| "free_all (CHeap n s # ps) freed =
     (if n \<in> freed then Inl Double_Free else free_all ps (insert n freed))"

text \<open>The allocations a list of pointers refers to, in order.\<close>

fun heap_ids :: "cptr list \<Rightarrow> nat list" where
  "heap_ids [] = []"
| "heap_ids (CHeap n s # ps) = n # heap_ids ps"
| "heap_ids (_ # ps) = heap_ids ps"

fun is_lit :: "cptr \<Rightarrow> bool" where
  "is_lit (CLit s) = True"
| "is_lit _ = False"

lemma heap_ids_append [simp]: "heap_ids (ps @ qs) = heap_ids ps @ heap_ids qs"
  by (induction ps rule: heap_ids.induct) simp_all

lemma free_all_ok:
  assumes "distinct (heap_ids ps)" "set (heap_ids ps) \<inter> freed = {}" "\<not> list_ex is_lit ps"
  shows "free_all ps freed = Inr (freed \<union> set (heap_ids ps))"
  using assms by (induction ps freed rule: free_all.induct) auto

section \<open>The configuration\<close>

datatype client_mode = CLIENT_PUB | CLIENT_SUB

datatype msg_mode =
    MSGMODE_NONE
  | MSGMODE_CMD
  | MSGMODE_STDIN_LINE
  | MSGMODE_STDIN_FILE
  | MSGMODE_FILE
  | MSGMODE_NULL

record mosq_config =
  client_id :: cptr
  id_prefix :: cptr
  protocol_version :: int
  keepalive :: int
  host :: cptr
  port :: int
  qos :: int
  retain :: bool
  pub_mode :: msg_mode
  file_input :: cptr
  message :: cptr
  msglen :: int
  topic :: cptr
  bind_address :: cptr
  use_srv :: bool
  debug :: bool
  quiet :: bool
  max_inflight :: "32 word"
  username :: cptr
  password :: cptr
  will_topic :: cptr
  will_payload :: cptr
  will_payloadlen :: int
  will_qos :: int
  will_retain :: bool
  cafile :: cptr
  capath :: cptr
  certfile :: cptr
  keyfile :: cptr
  ciphers :: cptr
  insecure :: bool
  tls_version :: cptr
  psk :: cptr
  psk_identity :: cptr
  clean_session :: bool
  topics :: "cptr list"
  no_retain :: bool
  filter_outs :: "cptr list"
  verbose :: bool
  eol :: bool
  msg_count :: int
  socks5_host :: cptr
  socks5_port :: int
  socks5_username :: cptr
  socks5_password :: cptr

text \<open>
  The build options, and the functions of the outside the client relies on: the allocator (which may
  refuse the n-th request), the topic checks and constants of libmosquitto, the environment, the
  file system and the random generator seeded with the time.
\<close>

record client_env =
  with_tls :: bool
  with_tls_psk :: bool
  with_socks :: bool
  with_srv :: bool
  malloc_ok :: "nat \<Rightarrow> bool"
  pub_topic_check :: "string \<Rightarrow> int"
  sub_topic_check :: "string \<Rightarrow> int"
  mosq_err_inval :: int
  proto_v31 :: int
  proto_v311 :: int
  env_xdg_config_home :: "string option"
  env_home :: "string option"
  read_file :: "string \<Rightarrow> string option"
  lrand48_value :: int

text \<open>
  \<open>memset\<close> to zero and the defaults. Every field has a value here whether or not the build option
  that declares it is set.
\<close>

definition init_config :: "client_env \<Rightarrow> mosq_config" where
  "init_config E =
     \<lparr>client_id = CNull, id_prefix = CNull, protocol_version = proto_v31 E, keepalive = 60, host = CNull,
      port = 1883, qos = 0, retain = False, pub_mode = MSGMODE_NONE, file_input = CNull,
      message = CNull, msglen = 0, topic = CNull, bind_address = CNull, use_srv = False,
      debug = False, quiet = False, max_inflight = 20, username = CNull, password = CNull,
      will_topic = CNull, will_payload = CNull, will_payloadlen = 0, will_qos = 0,
      will_retain = False, cafile = CNull, capath = CNull, certfile = CNull, keyfile = CNull,
      ciphers = CNull, insecure = False, tls_version = CNull, psk = CNull, psk_identity = CNull,
      clean_session = True, topics = [], no_retain = False, filter_outs = [], verbose = False,
      eol = True, msg_count = 0, socks5_host = CNull, socks5_port = 0, socks5_username = CNull,
      socks5_password = CNull\<rparr>"

definition topic_count :: "mosq_config \<Rightarrow> nat" where
  "topic_count c = length (topics c)"

definition filter_out_count :: "mosq_config \<Rightarrow> nat" where
  "filter_out_count c = length (filter_outs c)"

text \<open>The pointers \<open>client_config_cleanup\<close> frees, in its order.\<close>

definition cleanup_ptrs :: "client_env \<Rightarrow> mosq_config \<Rightarrow> cptr list" where
  "cleanup_ptrs E c =
     [client_id c, id_prefix c, host c, file_input c, message c, topic c, bind_address c, username c,
      password c, will_topic c, will_payload c] @
     (if with_tls E
      then [cafile c, capath c, certfile c, keyfile c, ciphers c, tls_version c] @
           (if with_tls_psk E then [psk c, psk_identity c] else [])
      else []) @
     take (topic_count c) (topics c) @
     take (filter_out_count c) (filter_outs c) @
     (if with_socks E then [socks5_host c, socks5_username c, socks5_password c] else [])"

definition client_config_cleanup :: "client_env \<Rightarrow> mosq_config \<Rightarrow> nat set run" where
  "client_config_cleanup E c = free_all (cleanup_ptrs E c) {}"

section \<open>Ownership\<close>

text \<open>
  All the pointers of a configuration, and the invariant that it owns them: none is a literal, no two
  come from the same allocation, and all come from an allocation already made.
\<close>

definition scalar_ptrs :: "mosq_config \<Rightarrow> cptr list" where
  "scalar_ptrs c =
     [client_id c, id_prefix c, host c, file_input c, message c, topic c, bind_address c, username c,
      password c, will_topic c, will_payload c, cafile c, capath c, certfile c, keyfile c,
      ciphers c, tls_version c, psk c, psk_identity c]"

definition socks_ptrs :: "mosq_config \<Rightarrow> cptr list" where
  "socks_ptrs c = [socks5_host c, socks5_username c, socks5_password c]"

definition all_ptrs :: "mosq_config \<Rightarrow> cptr list" where
  "all_ptrs c = scalar_ptrs c @ topics c @ filter_outs c @ socks_ptrs c"

definition owns :: "nat \<Rightarrow> mosq_config \<Rightarrow> bool" where
  "owns n c \<longleftrightarrow> \<not> list_ex is_lit (all_ptrs c) \<and> distinct (heap_ids (all_ptrs c)) \<and>
     (\<forall>k \<in> set (heap_ids (all_ptrs c)). k < n)"

lemma owns_init: "owns n (init_config E)"
  by (simp add: owns_def all_ptrs_def scalar_ptrs_def socks_ptrs_def init_config_def)

lemma owns_mono: "owns n c \<Longrightarrow> n \<le> m \<Longrightarrow> owns m c"
  by (auto simp: owns_def)

text \<open>Storing a fresh pointer in the place of any other keeps the ownership.\<close>

fun fresh_ptr :: "nat \<Rightarrow> cptr \<Rightarrow> bool" where
  "fresh_ptr n CNull = True"
| "fresh_ptr n (CLit s) = False"
| "fresh_ptr n (CHeap k s) = (k = n)"

definition owned_list :: "nat \<Rightarrow> cptr list \<Rightarrow> bool" where
  "owned_list n ps \<longleftrightarrow> \<not> list_ex is_lit ps \<and> distinct (heap_ids ps) \<and> (\<forall>k \<in> set (heap_ids ps). k < n)"

lemma owns_owned_list: "owns n c \<longleftrightarrow> owned_list n (all_ptrs c)"
  by (simp add: owns_def owned_list_def)

lemma owned_list_insert:
  "owned_list n (ps @ qs) \<Longrightarrow> fresh_ptr n p \<Longrightarrow> owned_list (Suc n) (ps @ p # qs)"
  by (cases p) (auto simp: owned_list_def less_Suc_eq)

lemma owned_list_drop_mid: "owned_list n (ps @ q # qs) \<Longrightarrow> owned_list n (ps @ qs)"
  by (cases q) (auto simp: owned_list_def)

lemma owned_list_update:
  assumes "owned_list n ps" "fresh_ptr n p"
  shows "owned_list (Suc n) (ps[k := p])"
proof (cases "k < length ps")
  case True
  then have "owned_list n (take k ps @ ps ! k # drop (Suc k) ps)"
    using assms(1) by (simp add: id_take_nth_drop [symmetric])
  from owned_list_insert [OF owned_list_drop_mid [OF this] assms(2)] True
  show ?thesis by (simp add: upd_conv_take_nth_drop)
next
  case False
  then have "ps[k := p] = ps" by (simp add: list_update_beyond)
  then show ?thesis using assms(1) by (auto simp: owned_list_def less_Suc_eq)
qed

lemma subseq_set: "subseq xs ys \<Longrightarrow> set xs \<subseteq> set ys"
  by (induction rule: list_emb.induct) auto

lemma subseq_distinct: "subseq xs ys \<Longrightarrow> distinct ys \<Longrightarrow> distinct xs"
proof (induction rule: list_emb.induct)
  case (list_emb_Cons2 x y xs ys)
  then show ?case using subseq_set [of xs ys] by auto
qed simp_all

lemma heap_ids_subseq: "subseq qs ps \<Longrightarrow> subseq (heap_ids qs) (heap_ids ps)"
proof (induction rule: list_emb.induct)
  case (list_emb_Cons xs ys y)
  then show ?case by (cases y) auto
next
  case (list_emb_Cons2 x y xs ys)
  then show ?case by (cases y) auto
qed simp

lemma owned_subseq:
  assumes "owned_list n ps" "subseq qs ps"
  shows "owned_list n qs"
proof -
  have ids: "subseq (heap_ids qs) (heap_ids ps)" using assms(2) by (rule heap_ids_subseq)
  have "set qs \<subseteq> set ps" using assms(2) by (rule subseq_set)
  then have "\<not> list_ex is_lit qs" using assms(1) by (auto simp: owned_list_def list_ex_iff)
  moreover have "distinct (heap_ids qs)"
    using ids assms(1) subseq_distinct unfolding owned_list_def by blast
  moreover have "set (heap_ids qs) \<subseteq> set (heap_ids ps)" using ids by (rule subseq_set)
  ultimately show ?thesis using assms(1) by (auto simp: owned_list_def)
qed

lemma owned_cleanup: "owned_list n ps \<Longrightarrow> free_all ps {} = Inr (set (heap_ids ps))"
  by (simp add: owned_list_def free_all_ok)

lemma cleanup_ptrs_subseq: "subseq (cleanup_ptrs E c) (all_ptrs c)"
proof -
  let ?base = "[client_id c, id_prefix c, host c, file_input c, message c, topic c, bind_address c,
      username c, password c, will_topic c, will_payload c]"
  let ?tls = "[cafile c, capath c, certfile c, keyfile c, ciphers c, tls_version c]"
  let ?psk = "[psk c, psk_identity c]"
  have all: "all_ptrs c = ?base @ (?tls @ ?psk) @ topics c @ filter_outs c @ socks_ptrs c"
    by (simp add: all_ptrs_def scalar_ptrs_def)
  have "subseq (if with_tls E then ?tls @ (if with_tls_psk E then ?psk else []) else []) (?tls @ ?psk)"
    by simp
  moreover have "subseq (if with_socks E then socks_ptrs c else []) (socks_ptrs c)" by simp
  ultimately show ?thesis
    unfolding cleanup_ptrs_def all topic_count_def filter_out_count_def socks_ptrs_def [symmetric]
    by (intro list_emb_append_mono) simp_all
qed

lemma cleanup_of_owned: "owns n c \<Longrightarrow> \<exists>freed. client_config_cleanup E c = Inr freed"
  unfolding client_config_cleanup_def owns_owned_list
  using owned_cleanup owned_subseq cleanup_ptrs_subseq by blast

text \<open>
  The string pointers that \<open>struct mosq_config\<close> has in a build, in the order of the struct, and that
  freeing a configuration that owns its strings frees exactly those. (The blocks of the two arrays
  themselves are not numbered.)
\<close>

definition struct_ptrs :: "client_env \<Rightarrow> mosq_config \<Rightarrow> cptr list" where
  "struct_ptrs E c =
     [client_id c, id_prefix c, host c, file_input c, message c, topic c, bind_address c, username c,
      password c, will_topic c, will_payload c] @
     (if with_tls E then [cafile c, capath c, certfile c, keyfile c, ciphers c, tls_version c] else []) @
     (if with_tls E \<and> with_tls_psk E then [psk c, psk_identity c] else []) @
     topics c @ filter_outs c @
     (if with_socks E then [socks5_host c, socks5_username c, socks5_password c] else [])"

lemma cleanup_struct_ptrs: "cleanup_ptrs E c = struct_ptrs E c"
  by (simp add: cleanup_ptrs_def struct_ptrs_def topic_count_def filter_out_count_def)

lemma cleanup_frees:
  assumes "owns n c"
  shows "client_config_cleanup E c = Inr (set (heap_ids (struct_ptrs E c))) \<and>
    distinct (heap_ids (struct_ptrs E c))"
proof -
  have o: "owned_list n (cleanup_ptrs E c)"
    using assms cleanup_ptrs_subseq unfolding owns_owned_list by (rule owned_subseq)
  show ?thesis
    using owned_cleanup [OF o] o
    by (simp add: client_config_cleanup_def owned_list_def flip: cleanup_struct_ptrs)
qed

end
