(* ===== verification/Parse_State.thy ===== *)
theory Parse_State
  imports Config
begin

text \<open>
  The state the option processing threads through its calls (the configuration, the number of the
  next allocation and the lines written to the standard error stream, without their line ends), the
  result of processing one option, and the contract every group of options keeps. The contract is
  the locale \<open>option_group\<close>; each group of the option chain interprets it.
\<close>

record pstate =
  conf :: mosq_config
  next_alloc :: nat
  err_lines :: "string list"

definition log_err :: "string \<Rightarrow> pstate \<Rightarrow> pstate" where
  "log_err msg st = st\<lparr>err_lines := err_lines st @ [msg]\<rparr>"

text \<open>\<open>strdup\<close>, which returns a null pointer when the allocation fails.\<close>

definition c_strdup :: "client_env \<Rightarrow> string \<Rightarrow> pstate \<Rightarrow> cptr \<times> pstate" where
  "c_strdup E s st =
     (if malloc_ok E (next_alloc st) then CHeap (next_alloc st) s else CNull,
      st\<lparr>next_alloc := Suc (next_alloc st)\<rparr>)"

text \<open>\<open>malloc\<close> followed by a copy into the block without a check.\<close>

definition malloc_copy :: "client_env \<Rightarrow> string \<Rightarrow> pstate \<Rightarrow> (cptr \<times> pstate) run" where
  "malloc_copy E s st =
     (if malloc_ok E (next_alloc st)
      then Inr (CHeap (next_alloc st) s, st\<lparr>next_alloc := Suc (next_alloc st)\<rparr>)
      else Inl Null_Deref)"

section \<open>The result of one option\<close>

text \<open>
  An option either is processed together with \<open>k\<close> of the arguments after it, or ends the processing
  with a return code, or faults.
\<close>

datatype step_result = Consumed nat pstate | Return int pstate | Fault fault

definition fail :: "string \<Rightarrow> pstate \<Rightarrow> step_result" where
  "fail msg st = Return 1 (log_err msg st)"

text \<open>The test for a missing argument, \<open>i == argc - 1\<close>, and the use of the argument.\<close>

definition opt_arg :: "string \<Rightarrow> (string \<Rightarrow> pstate \<Rightarrow> step_result) \<Rightarrow> string list \<Rightarrow> pstate \<Rightarrow> step_result" where
  "opt_arg msg k rest st = (case rest of [] \<Rightarrow> fail msg st | v # vs \<Rightarrow> k v st)"

text \<open>Storing a copy of the argument in a field.\<close>

definition set_dup :: "client_env \<Rightarrow> (cptr \<Rightarrow> mosq_config \<Rightarrow> mosq_config) \<Rightarrow> string \<Rightarrow> pstate \<Rightarrow> step_result" where
  "set_dup E upd v st =
     (case c_strdup E v st of (p, st') \<Rightarrow> Consumed 1 (st'\<lparr>conf := upd p (conf st')\<rparr>))"

text \<open>Storing a number read from the argument, and checking the result.\<close>

definition set_checked ::
  "(string \<Rightarrow> mosq_config \<Rightarrow> mosq_config) \<Rightarrow> (mosq_config \<Rightarrow> bool) \<Rightarrow> (mosq_config \<Rightarrow> string) \<Rightarrow>
   string \<Rightarrow> pstate \<Rightarrow> step_result" where
  "set_checked upd bad msg v st =
     (let c = upd v (conf st); st' = st\<lparr>conf := c\<rparr>
      in if bad c then fail (msg c) st' else Consumed 1 st')"

text \<open>
  Storing a copy of the argument and its length, which is read from the copy: a null pointer when
  the allocation failed.
\<close>

definition set_sized ::
  "client_env \<Rightarrow> (cptr \<Rightarrow> int \<Rightarrow> mosq_config \<Rightarrow> mosq_config) \<Rightarrow> string \<Rightarrow> pstate \<Rightarrow> step_result" where
  "set_sized E upd v st =
     (case c_strdup E v st of (p, st') \<Rightarrow>
       (case deref p of
          Inl f \<Rightarrow> Fault f
        | Inr s \<Rightarrow> Consumed 1 (st'\<lparr>conf := upd p (int (length s)) (conf st')\<rparr>)))"

text \<open>
  Growing an array of strings by one: \<open>realloc\<close>, whose result is used unchecked, and a copy of
  the argument in the last place.
\<close>

definition add_dup :: "client_env \<Rightarrow> (cptr \<Rightarrow> mosq_config \<Rightarrow> mosq_config) \<Rightarrow> string \<Rightarrow> pstate \<Rightarrow> step_result" where
  "add_dup E add v st =
     (if malloc_ok E (next_alloc st) then set_dup E add v (st\<lparr>next_alloc := Suc (next_alloc st)\<rparr>)
      else Fault Null_Deref)"

definition set_flag :: "(mosq_config \<Rightarrow> mosq_config) \<Rightarrow> pstate \<Rightarrow> step_result" where
  "set_flag upd st = Consumed 0 (st\<lparr>conf := upd (conf st)\<rparr>)"

section \<open>What the processing keeps\<close>

definition st_owns :: "pstate \<Rightarrow> bool" where
  "st_owns st \<longleftrightarrow> owns (next_alloc st) (conf st)"

text \<open>
  The values the options are checked for, that not both of the identifier and its prefix are given,
  and that no topic is a null pointer unless an allocation failed.
\<close>

definition in_range :: "client_env \<Rightarrow> mosq_config \<Rightarrow> bool" where
  "in_range E c \<longleftrightarrow> 1 \<le> port c \<and> port c \<le> 65535 \<and> keepalive c \<le> 65535 \<and>
     0 \<le> qos c \<and> qos c \<le> 2 \<and> 0 \<le> will_qos c \<and> will_qos c \<le> 2 \<and> 0 \<le> msg_count c \<and>
     protocol_version c \<in> {proto_v31 E, proto_v311 E} \<and>
     (client_id c = CNull \<or> id_prefix c = CNull) \<and>
     ((\<forall>n. malloc_ok E n) \<longrightarrow> CNull \<notin> set (topics c) \<and> CNull \<notin> set (filter_outs c))"

definition parse_inv :: "client_env \<Rightarrow> pstate \<Rightarrow> bool" where
  "parse_inv E st \<longleftrightarrow> st_owns st \<and> in_range E (conf st)"

text \<open>
  A good result: a processed option keeps the invariant, consumes only arguments that are there and
  prints nothing; a return of 1 prints at most one line, exactly one unless a proxy is parsed, and a
  return of 2 prints nothing. The configuration owns its strings in either case.
\<close>

definition good_result :: "client_env \<Rightarrow> string list \<Rightarrow> pstate \<Rightarrow> step_result \<Rightarrow> bool" where
  "good_result E rest st r \<longleftrightarrow>
     (case r of
        Consumed k st' \<Rightarrow> parse_inv E st' \<and> k \<le> length rest \<and> err_lines st' = err_lines st
      | Return rc st' \<Rightarrow> st_owns st' \<and>
          (rc = 2 \<and> err_lines st' = err_lines st \<or>
           rc = 1 \<and> (\<exists>ms. err_lines st' = err_lines st @ ms \<and> length ms \<le> 1 \<and>
             (\<not> with_socks E \<longrightarrow> length ms = 1)))
      | Fault f \<Rightarrow> \<not> (\<forall>n. malloc_ok E n))"

locale option_group =
  fixes group :: "client_env \<Rightarrow> client_mode \<Rightarrow> string \<Rightarrow> string list \<Rightarrow> pstate \<Rightarrow> step_result option"
  assumes good: "group E mode a rest st = Some r \<Longrightarrow> parse_inv E st \<Longrightarrow> good_result E rest st r"
begin

lemma consumed:
  "group E mode a rest st = Some (Consumed k st') \<Longrightarrow> parse_inv E st \<Longrightarrow>
    parse_inv E st' \<and> k \<le> length rest \<and> err_lines st' = err_lines st"
  using good by (fastforce simp: good_result_def)

lemma returned:
  "group E mode a rest st = Some (Return rc st') \<Longrightarrow> parse_inv E st \<Longrightarrow>
    st_owns st' \<and> (rc = 1 \<or> rc = 2)"
  using good by (fastforce simp: good_result_def)

lemma no_fault:
  "\<forall>n. malloc_ok E n \<Longrightarrow> parse_inv E st \<Longrightarrow> group E mode a rest st \<noteq> Some (Fault f)"
  using good by (fastforce simp: good_result_def)

end

section \<open>Good results of the elementary steps\<close>

lemma good_fail: "parse_inv E st \<Longrightarrow> st_owns st' \<Longrightarrow> err_lines st' = err_lines st \<Longrightarrow>
    good_result E rest st (fail msg st')"
  by (simp add: good_result_def fail_def log_err_def st_owns_def)

lemma good_opt_arg:
  assumes "parse_inv E st" "\<And>v vs. rest = v # vs \<Longrightarrow> good_result E rest st (k v st)"
  shows "good_result E rest st (opt_arg msg k rest st)"
  using assms by (cases rest) (auto simp: opt_arg_def parse_inv_def intro: good_fail)

text \<open>A field that holds a string: storing to it changes one pointer and none of the ranges.\<close>

definition string_field :: "(cptr \<Rightarrow> mosq_config \<Rightarrow> mosq_config) \<Rightarrow> nat \<Rightarrow> bool" where
  "string_field upd k \<longleftrightarrow> (\<forall>p c. all_ptrs (upd p c) = (all_ptrs c)[k := p])"

lemma owns_string_field:
  assumes "string_field upd k" "owns n c" "fresh_ptr n p"
  shows "owns (Suc n) (upd p c)"
  using assms owned_list_update by (simp add: string_field_def owns_owned_list)

lemma fresh_strdup: "fresh_ptr (next_alloc st) (fst (c_strdup E s st))"
  by (simp add: c_strdup_def)

lemma strdup_state:
  "conf (snd (c_strdup E s st)) = conf st" "err_lines (snd (c_strdup E s st)) = err_lines st"
  "next_alloc (snd (c_strdup E s st)) = Suc (next_alloc st)"
  by (simp_all add: c_strdup_def)

lemma good_set_dup:
  assumes "parse_inv E st" "string_field upd k" "rest \<noteq> []"
    "\<And>p. in_range E (conf st) \<Longrightarrow> in_range E (upd p (conf st))"
  shows "good_result E rest st (set_dup E upd v st)"
proof -
  have "1 \<le> length rest" using assms(3) by (cases rest) auto
  moreover have "owns (Suc (next_alloc st)) (upd (fst (c_strdup E v st)) (conf st))"
    using assms(1,2) fresh_strdup by (intro owns_string_field) (auto simp: parse_inv_def st_owns_def)
  ultimately show ?thesis
    using assms(1,4)
    by (simp add: set_dup_def good_result_def parse_inv_def st_owns_def split_beta strdup_state)
qed

text \<open>Steps that change no pointer.\<close>

lemma good_consumed:
  assumes "parse_inv E st" "k \<le> length rest" "all_ptrs c = all_ptrs (conf st)" "in_range E c"
  shows "good_result E rest st (Consumed k (st\<lparr>conf := c\<rparr>))"
  using assms by (simp add: good_result_def parse_inv_def st_owns_def owns_owned_list)

lemma good_fail_conf:
  assumes "parse_inv E st" "all_ptrs c = all_ptrs (conf st)"
  shows "good_result E rest st (fail msg (st\<lparr>conf := c\<rparr>))"
  using assms by (intro good_fail) (simp_all add: parse_inv_def st_owns_def owns_owned_list)

lemma good_set_checked:
  assumes "parse_inv E st" "rest \<noteq> []" "all_ptrs (upd v (conf st)) = all_ptrs (conf st)"
    "\<not> bad (upd v (conf st)) \<Longrightarrow> in_range E (upd v (conf st))"
  shows "good_result E rest st (set_checked upd bad msg v st)"
proof -
  have "1 \<le> length rest" using assms(2) by (cases rest) auto
  then show ?thesis
    using assms good_fail_conf [OF assms(1,3)] good_consumed [OF assms(1) _ assms(3)]
    by (simp add: set_checked_def Let_def)
qed

lemma good_set_flag:
  assumes "parse_inv E st" "all_ptrs (upd (conf st)) = all_ptrs (conf st)" "in_range E (upd (conf st))"
  shows "good_result E rest st (set_flag upd st)"
  using good_consumed [OF assms(1) _ assms(2,3), of 0 rest] by (simp add: set_flag_def)

lemma good_set_sized:
  assumes "parse_inv E st" "\<And>n. string_field (\<lambda>p. upd p n) k" "rest \<noteq> []"
    "\<And>p n. in_range E (conf st) \<Longrightarrow> in_range E (upd p n (conf st))"
  shows "good_result E rest st (set_sized E upd v st)"
proof (cases "malloc_ok E (next_alloc st)")
  case True
  then have "set_sized E upd v st = set_dup E (\<lambda>p. upd p (int (length v))) v st"
    by (simp add: set_sized_def set_dup_def c_strdup_def)
  then show ?thesis using assms good_set_dup [OF assms(1,2,3)] by simp
next
  case False
  then show ?thesis by (auto simp: set_sized_def c_strdup_def good_result_def)
qed

text \<open>An array of strings: storing to it adds one pointer somewhere among the others.\<close>

definition string_array :: "(cptr \<Rightarrow> mosq_config \<Rightarrow> mosq_config) \<Rightarrow> bool" where
  "string_array add \<longleftrightarrow> (\<forall>p c. \<exists>ps qs. all_ptrs c = ps @ qs \<and> all_ptrs (add p c) = ps @ p # qs)"

lemma good_add_dup:
  assumes "parse_inv E st" "string_array add" "rest \<noteq> []"
    "\<And>p. in_range E (conf st) \<Longrightarrow> ((\<forall>n. malloc_ok E n) \<Longrightarrow> p \<noteq> CNull) \<Longrightarrow> in_range E (add p (conf st))"
  shows "good_result E rest st (add_dup E add v st)"
proof (cases "malloc_ok E (next_alloc st)")
  case True
  let ?st = "st\<lparr>next_alloc := Suc (next_alloc st)\<rparr>"
  obtain p st' where d: "c_strdup E v ?st = (p, st')" by fastforce
  obtain ps qs where "all_ptrs (conf st) = ps @ qs" "all_ptrs (add p (conf st)) = ps @ p # qs"
    using assms(2) unfolding string_array_def by blast
  moreover have "owned_list (Suc (next_alloc st)) (all_ptrs (conf st))"
    using assms(1) owns_mono [of "next_alloc st" "conf st" "Suc (next_alloc st)"]
    by (simp add: parse_inv_def st_owns_def owns_owned_list)
  moreover have "fresh_ptr (Suc (next_alloc st)) p"
    using fresh_strdup [of ?st E v] d by simp
  ultimately have "owns (Suc (Suc (next_alloc st))) (add p (conf st))"
    using owned_list_insert by (simp add: owns_owned_list)
  moreover have "st' = st\<lparr>next_alloc := Suc (Suc (next_alloc st))\<rparr>"
    using d by (simp add: c_strdup_def)
  moreover have "1 \<le> length rest" using assms(3) by (cases rest) auto
  moreover have "in_range E (add p (conf st))"
  proof (rule assms(4))
    show "in_range E (conf st)" using assms(1) by (simp add: parse_inv_def)
    show "p \<noteq> CNull" if "\<forall>n. malloc_ok E n" using d that by (auto simp: c_strdup_def)
  qed
  ultimately show ?thesis
    using assms(1) True d
    by (simp add: add_dup_def set_dup_def good_result_def parse_inv_def st_owns_def)
next
  case False
  then show ?thesis by (auto simp: add_dup_def good_result_def)
qed

section \<open>The state at the start\<close>

lemma in_range_init: "in_range E (init_config E)"
  by (simp add: in_range_def init_config_def)

lemma parse_inv_init: "conf st = init_config E \<Longrightarrow> parse_inv E st"
  by (simp add: parse_inv_def st_owns_def owns_init in_range_init)

text \<open>A concrete outside and state for the witnesses.\<close>

definition sample_env :: client_env where
  "sample_env =
     \<lparr>with_tls = True, with_tls_psk = True, with_socks = True, with_srv = False,
      malloc_ok = (\<lambda>_. True),
      pub_topic_check = (\<lambda>s. if CHR ''#'' \<in> set s then 3 else 0), sub_topic_check = (\<lambda>_. 0),
      mosq_err_inval = 3, proto_v31 = 3, proto_v311 = 4, env_xdg_config_home = None,
      env_home = Some ''/home/u'', read_file = (\<lambda>_. None), lrand48_value = 77\<rparr>"

definition sample_state :: pstate where
  "sample_state = \<lparr>conf = init_config sample_env, next_alloc = 0, err_lines = []\<rparr>"

lemma sample_inv: "parse_inv sample_env sample_state"
  by (simp add: parse_inv_init sample_state_def)

lemma sample_malloc: "\<forall>n. malloc_ok sample_env n"
  by (simp add: sample_env_def)

end
