(* ===== verification/Socks.thy ===== *)
theory Socks
  imports Parse_State
begin

text \<open>
  The SOCKS proxy option of the client (\<open>WITH_SOCKS\<close>): decoding percent escapes in place and
  splitting a proxy URL. The decoder is related to a recursive function on strings, and the splitter
  is shown to accept the six forms its comments list.
\<close>

section \<open>mosquitto\_\_urldecode\<close>

text \<open>
  The escapes: the tests on the two characters after the percent sign, and the character stored in
  its place. (The third one stores a colon.)
\<close>

definition unescape :: "char \<Rightarrow> char \<Rightarrow> char option" where
  "unescape a b =
     (if a = CHR ''2'' \<and> b = CHR ''5'' then Some CHR ''%''
      else if a = CHR ''3'' \<and> (b = CHR ''A'' \<or> b = CHR ''a'') then Some CHR '':''
      else if a = CHR ''4'' \<and> b = CHR ''0'' then Some CHR '':''
      else None)"

text \<open>
  The inner loop over \<open>j\<close> moves the characters after the escape two places to the left, and ends the
  string at the new length. The positions \<open>j + 2\<close> it reads are within the old length.
\<close>

function shift_left :: "nat \<Rightarrow> nat \<Rightarrow> string \<Rightarrow> string" where
  "shift_left j len s = (if j < len then shift_left (j + 1) len (s[j := s ! (j + 2)]) else take j s)"
  by pat_completeness auto
termination
  by (relation "measure (\<lambda>(j, len, s). len - j)") auto

declare shift_left.simps [simp del]

lemma shift_left_eq:
  assumes "j \<le> len" "len + 2 = length s"
  shows "shift_left j len s = take j s @ drop (j + 2) s"
  using assms
proof (induction j len s rule: shift_left.induct)
  case (1 j len s)
  show ?case
  proof (cases "j < len")
    case True
    let ?s = "s[j := s ! (j + 2)]"
    have "shift_left j len s = take (j + 1) ?s @ drop (j + 3) s"
      using 1(1) [OF True] True 1(3) by (subst shift_left.simps) (simp add: numeral_3_eq_3)
    also have "take (j + 1) ?s = take j s @ [s ! (j + 2)]"
      using True 1(3) by (simp add: take_Suc_conv_app_nth)
    also have "(take j s @ [s ! (j + 2)]) @ drop (j + 3) s = take j s @ drop (j + 2) s"
      using True 1(3) by (simp add: Cons_nth_drop_Suc numeral_3_eq_3)
    finally show ?thesis .
  next
    case False
    then have "drop (j + 2) s = []" using 1(3) by simp
    then show ?thesis using False by (subst shift_left.simps) simp
  qed
qed

definition replace_escape :: "nat \<Rightarrow> char \<Rightarrow> string \<Rightarrow> string" where
  "replace_escape i c s = shift_left (i + 1) (length s - 2) (s[i := c])"

lemma replace_escape_eq:
  assumes "i + 2 < length s"
  shows "replace_escape i c s = take i s @ c # drop (i + 3) s"
proof -
  have "shift_left (i + 1) (length s - 2) (s[i := c]) = take (i + 1) (s[i := c]) @ drop (i + 1 + 2) (s[i := c])"
    using assms by (intro shift_left_eq) simp_all
  then show ?thesis
    using assms by (simp add: replace_escape_def take_Suc_conv_app_nth numeral_3_eq_3)
qed

text \<open>The loop over \<open>i\<close>; after an escape the string is two characters shorter.\<close>

function urldecode_loop :: "nat \<Rightarrow> string \<Rightarrow> (int \<times> string)" where
  "urldecode_loop i s =
     (if i < length s
      then if s ! i = CHR ''%''
           then if i + 2 \<ge> length s then (1, s)
                else (case unescape (s ! (i + 1)) (s ! (i + 2)) of
                        Some c \<Rightarrow> urldecode_loop (i + 1) (replace_escape i c s)
                      | None \<Rightarrow> (1, s))
           else urldecode_loop (i + 1) s
      else (0, s))"
  by pat_completeness auto
termination
  by (relation "measure (\<lambda>(i, s). length s - i)") (auto simp: replace_escape_eq)

declare urldecode_loop.simps [simp del]

definition mosquitto__urldecode :: "cptr \<Rightarrow> int \<times> cptr" where
  "mosquitto__urldecode p =
     (case p of
        CHeap n s \<Rightarrow>
          if CHR ''%'' \<notin> set s then (0, p)
          else (case urldecode_loop 0 s of (rc, s') \<Rightarrow> (rc, CHeap n s'))
      | _ \<Rightarrow> (0, p))"

text \<open>The decoder as a recursive function: \<open>None\<close> for a bad escape.\<close>

fun url_decode :: "string \<Rightarrow> string option" where
  "url_decode [] = Some []"
| "url_decode (c # cs) =
     (if c \<noteq> CHR ''%'' then map_option (Cons c) (url_decode cs)
      else (case cs of
        a # b # r \<Rightarrow>
          (case unescape a b of Some d \<Rightarrow> map_option (Cons d) (url_decode r) | None \<Rightarrow> None)
      | _ \<Rightarrow> None))"

lemma urldecode_loop_plain:
  "c \<noteq> CHR ''%'' \<Longrightarrow> urldecode_loop (length pre) (pre @ c # cs) =
    urldecode_loop (Suc (length pre)) (pre @ c # cs)"
  by (subst urldecode_loop.simps) (simp add: nth_append)

lemma urldecode_loop_escape:
  "urldecode_loop (length pre) (pre @ CHR ''%'' # a # b # r) =
    (case unescape a b of
       Some c \<Rightarrow> urldecode_loop (Suc (length pre)) (pre @ c # r)
     | None \<Rightarrow> (1, pre @ CHR ''%'' # a # b # r))"
proof -
  have "(pre @ CHR ''%'' # a # b # r) ! Suc (length pre) = a"
    "(pre @ CHR ''%'' # a # b # r) ! Suc (Suc (length pre)) = b"
    "(pre @ CHR ''%'' # a # b # r) ! length pre = CHR ''%''"
    by (simp_all add: nth_append)
  then show ?thesis
    by (subst urldecode_loop.simps) (simp add: replace_escape_eq numeral_3_eq_3 split: option.split)
qed

lemma urldecode_loop_short:
  "length cs < 2 \<Longrightarrow> fst (urldecode_loop (length pre) (pre @ CHR ''%'' # cs)) = 1"
  by (subst urldecode_loop.simps) (simp add: nth_append)

text \<open>The loop from the end of an already decoded prefix.\<close>

lemma urldecode_loop_eq:
  "(case url_decode s of
      Some t \<Rightarrow> urldecode_loop (length pre) (pre @ s) = (0, pre @ t)
    | None \<Rightarrow> fst (urldecode_loop (length pre) (pre @ s)) = 1)"
proof (induction s arbitrary: pre rule: url_decode.induct)
  case 1
  then show ?case by (simp add: urldecode_loop.simps)
next
  case (2 c cs)
  show ?case
  proof (cases "c = CHR ''%''")
    case False
    with 2(1) [OF False, of "pre @ [c]"] show ?thesis
      by (auto simp: urldecode_loop_plain split: option.splits)
  next
    case esc: True
    show ?thesis
    proof (cases cs rule: remdups_adj.cases)
      case (3 a b r)
      show ?thesis
      proof (cases "unescape a b")
        case None
        then show ?thesis by (simp add: urldecode_loop_escape esc 3)
      next
        case (Some d)
        from 2(2) [of a "b # r" b r d "pre @ [d]"] esc 3 Some show ?thesis
          by (auto simp: urldecode_loop_escape split: option.splits)
      qed
    qed (use urldecode_loop_short [of cs pre] esc in simp_all)
  qed
qed

text \<open>The encoder the decoder is meant for, and what decoding it gives.\<close>

fun url_encode :: "string \<Rightarrow> string" where
  "url_encode [] = []"
| "url_encode (c # cs) =
     (if c = CHR ''%'' then ''%25'' else if c = CHR '':'' then ''%3A''
      else if c = CHR ''@'' then ''%40'' else [c]) @ url_encode cs"

definition at_to_colon :: "char \<Rightarrow> char" where
  "at_to_colon c = (if c = CHR ''@'' then CHR '':'' else c)"

lemma url_decode_encode: "url_decode (url_encode s) = Some (map at_to_colon s)"
  by (induction s) (simp_all add: unescape_def at_to_colon_def)

lemma url_decode_plain: "CHR ''%'' \<notin> set s \<Longrightarrow> url_decode s = Some s"
  by (induction s) auto

lemma mosquitto__urldecode_heap:
  "(case url_decode s of
      Some t \<Rightarrow> mosquitto__urldecode (CHeap n s) = (0, CHeap n t)
    | None \<Rightarrow> fst (mosquitto__urldecode (CHeap n s)) = 1)"
proof (cases "CHR ''%'' \<in> set s")
  case True
  with urldecode_loop_eq [where s = s and pre = "[]"] show ?thesis
    by (auto simp: mosquitto__urldecode_def split: option.splits prod.splits)
next
  case False
  then show ?thesis by (simp add: mosquitto__urldecode_def url_decode_plain)
qed

section \<open>mosquitto\_\_parse\_socks\_url\<close>

text \<open>The local variables of the scan.\<close>

record socks_scan =
  sc_start :: nat
  sc_user_or_host :: cptr
  sc_username :: cptr
  sc_password :: cptr
  sc_host :: cptr
  have_auth :: bool

definition scan_init :: socks_scan where
  "scan_init = \<lparr>sc_start = 0, sc_user_or_host = CNull, sc_username = CNull, sc_password = CNull,
     sc_host = CNull, have_auth = False\<rparr>"

text \<open>The characters from \<open>start\<close> to before \<open>i\<close>.\<close>

definition chunk :: "string \<Rightarrow> nat \<Rightarrow> nat \<Rightarrow> string" where
  "chunk str start i = take (i - start) (drop start str)"

text \<open>The two special characters; the flag of the result is \<open>False\<close> for \<open>goto cleanup\<close>.\<close>

definition scan_colon ::
  "client_env \<Rightarrow> string \<Rightarrow> nat \<Rightarrow> socks_scan \<Rightarrow> pstate \<Rightarrow> (bool \<times> socks_scan \<times> pstate) run" where
  "scan_colon E str i sc st =
     (if i = sc_start sc then Inr (False, sc, st)
      else if have_auth sc
      then (if sc_host sc \<noteq> CNull then Inr (False, sc, st)
            else and_then (malloc_copy E (chunk str (sc_start sc) i) st)
                   (\<lambda>(p, st). Inr (True, sc\<lparr>sc_host := p, sc_start := i + 1\<rparr>, st)))
      else if sc_user_or_host sc = CNull
      then and_then (malloc_copy E (chunk str (sc_start sc) i) st)
             (\<lambda>(p, st). Inr (True, sc\<lparr>sc_user_or_host := p, sc_start := i + 1\<rparr>, st))
      else Inr (True, sc, st))"

definition scan_at ::
  "client_env \<Rightarrow> string \<Rightarrow> nat \<Rightarrow> socks_scan \<Rightarrow> pstate \<Rightarrow> (bool \<times> socks_scan \<times> pstate) run" where
  "scan_at E str i sc st =
     (if i = sc_start sc then Inr (False, sc, st)
      else (let sc = sc\<lparr>have_auth := True\<rparr> in
        if sc_user_or_host sc \<noteq> CNull
        then (let sc = sc\<lparr>sc_username := sc_user_or_host sc, sc_user_or_host := CNull\<rparr>
              in and_then (malloc_copy E (chunk str (sc_start sc) i) st)
                   (\<lambda>(p, st). Inr (True, sc\<lparr>sc_password := p, sc_start := i + 1\<rparr>, st)))
        else if sc_username sc \<noteq> CNull then Inr (False, sc, st)
        else and_then (malloc_copy E (chunk str (sc_start sc) i) st)
               (\<lambda>(p, st). Inr (True, sc\<lparr>sc_username := p, sc_start := i + 1\<rparr>, st))))"

function scan_url ::
  "client_env \<Rightarrow> string \<Rightarrow> nat \<Rightarrow> socks_scan \<Rightarrow> pstate \<Rightarrow> (bool \<times> socks_scan \<times> pstate) run" where
  "scan_url E str i sc st =
     (if i < length str
      then and_then
             (if str ! i = CHR '':'' then scan_colon E str i sc st
              else if str ! i = CHR ''@'' then scan_at E str i sc st
              else Inr (True, sc, st))
             (\<lambda>(go, sc, st). if go then scan_url E str (i + 1) sc st else Inr (False, sc, st))
      else Inr (True, sc, st))"
  by pat_completeness auto
termination
  by (relation "measure (\<lambda>(E, str, i, sc, st). length str - i)") auto

declare scan_url.simps [simp del]

text \<open>
  The characters after the last separator: the port when a host is known, the host otherwise. The
  result holds the port pointer.
\<close>

definition scan_rest ::
  "client_env \<Rightarrow> string \<Rightarrow> socks_scan \<Rightarrow> pstate \<Rightarrow> (bool \<times> cptr \<times> socks_scan \<times> pstate) run" where
  "scan_rest E str sc st =
     (if length str > sc_start sc
      then (let part = chunk str (sc_start sc) (length str) in
        if sc_host sc \<noteq> CNull
        then and_then (malloc_copy E part st) (\<lambda>(p, st). Inr (True, p, sc, st))
        else if sc_user_or_host sc \<noteq> CNull
        then (let sc = sc\<lparr>sc_host := sc_user_or_host sc, sc_user_or_host := CNull\<rparr>
              in and_then (malloc_copy E part st) (\<lambda>(p, st). Inr (True, p, sc, st)))
        else if malloc_ok E (next_alloc st)
        then Inr (True, CNull, sc\<lparr>sc_host := CHeap (next_alloc st) part\<rparr>,
                  st\<lparr>next_alloc := Suc (next_alloc st)\<rparr>)
        else Inr (False, CNull, sc,
                  log_err ''Error: Out of memory.'' (st\<lparr>next_alloc := Suc (next_alloc st)\<rparr>)))
      else Inr (True, CNull, sc, st))"

text \<open>The label \<open>cleanup\<close>: the local strings are freed.\<close>

definition socks_cleanup :: "cptr \<Rightarrow> socks_scan \<Rightarrow> pstate \<Rightarrow> (int \<times> pstate) run" where
  "socks_cleanup prt sc st =
     and_then (free_all [sc_user_or_host sc, sc_username sc, sc_password sc, sc_host sc, prt] {})
       (\<lambda>_. Inr (1, st))"

text \<open>The result stored in the configuration.\<close>

definition set_proxy :: "cptr \<Rightarrow> cptr \<Rightarrow> cptr \<Rightarrow> int \<Rightarrow> mosq_config \<Rightarrow> mosq_config" where
  "set_proxy u p h n c =
     c\<lparr>socks5_username := u, socks5_password := p, socks5_host := h, socks5_port := n\<rparr>"

text \<open>Decoding of user name and password, and the port.\<close>

definition socks_finish :: "cptr \<Rightarrow> socks_scan \<Rightarrow> pstate \<Rightarrow> (int \<times> pstate) run" where
  "socks_finish prt sc st =
     (if sc_host sc = CNull then socks_cleanup prt sc (log_err ''Error: Invalid proxy.'' st)
      else (case mosquitto__urldecode (sc_username sc) of (rc, u) \<Rightarrow>
        (let sc = sc\<lparr>sc_username := u\<rparr> in
        if rc \<noteq> 0 then socks_cleanup prt sc st
        else (case mosquitto__urldecode (sc_password sc) of (rc, p) \<Rightarrow>
          (let sc = sc\<lparr>sc_password := p\<rparr>;
               accepted = (\<lambda>n. st\<lparr>conf := set_proxy (sc_username sc) (sc_password sc) (sc_host sc) n (conf st)\<rparr>)
           in if rc \<noteq> 0 then socks_cleanup prt sc st
           else (case prt of
               CNull \<Rightarrow> Inr (0, accepted 1080)
             | _ \<Rightarrow> and_then (deref prt) (\<lambda>s.
                 (let port_int = atoi s in
                  if port_int < 1 \<or> port_int > 65535
                  then socks_cleanup prt sc (log_err (''Error: Invalid proxy port '' @ dec_int port_int) st)
                  else and_then (free_all [prt] {}) (\<lambda>_. Inr (0, accepted port_int))))))))))"

definition socks_scheme :: string where
  "socks_scheme = ''socks5h://''"

definition mosquitto__parse_socks_url ::
  "client_env \<Rightarrow> string \<Rightarrow> pstate \<Rightarrow> (int \<times> pstate) run" where
  "mosquitto__parse_socks_url E url st =
     (if strncmp_eq url socks_scheme (length socks_scheme)
      then (let str = drop (length socks_scheme) url in
        and_then (scan_url E str 0 scan_init st) (\<lambda>(go, sc, st).
          if \<not> go then socks_cleanup CNull sc st
          else and_then (scan_rest E str sc st) (\<lambda>(go, prt, sc, st).
            if \<not> go then socks_cleanup prt sc st else socks_finish prt sc st)))
      else Inr (1, log_err (''Error: Unsupported proxy protocol: '' @ url) st))"

section \<open>Ownership during the scan\<close>

definition scan_ptrs :: "socks_scan \<Rightarrow> cptr list" where
  "scan_ptrs sc = [sc_user_or_host sc, sc_username sc, sc_password sc, sc_host sc]"

text \<open>
  The scan owns its strings, which come from allocations made since it started, and leaves the
  configuration and the error stream alone.
\<close>

definition new_ptrs :: "nat \<Rightarrow> nat \<Rightarrow> cptr list \<Rightarrow> bool" where
  "new_ptrs n m ps \<longleftrightarrow> owned_list m ps \<and> (\<forall>k \<in> set (heap_ids ps). n \<le> k)"

definition scan_inv :: "pstate \<Rightarrow> socks_scan \<Rightarrow> pstate \<Rightarrow> bool" where
  "scan_inv st0 sc st \<longleftrightarrow> new_ptrs (next_alloc st0) (next_alloc st) (scan_ptrs sc) \<and>
     conf st = conf st0 \<and> err_lines st = err_lines st0 \<and> next_alloc st0 \<le> next_alloc st"

definition scan_ok :: "client_env \<Rightarrow> pstate \<Rightarrow> (bool \<times> socks_scan \<times> pstate) run \<Rightarrow> bool" where
  "scan_ok E st0 r \<longleftrightarrow> (case r of
     Inl f \<Rightarrow> \<not> (\<forall>n. malloc_ok E n) | Inr (go, sc, st) \<Rightarrow> scan_inv st0 sc st)"

lemma new_ptrs_drop: "new_ptrs n m ps \<Longrightarrow> subseq qs ps \<Longrightarrow> new_ptrs n m qs"
  unfolding new_ptrs_def
  by (metis heap_ids_subseq owned_subseq subseq_set subsetD)

lemma new_ptrs_insert:
  "new_ptrs n m (ps @ qs) \<Longrightarrow> n \<le> m \<Longrightarrow> new_ptrs n (Suc m) (ps @ CHeap m s # qs)"
  using owned_list_insert [of m ps qs "CHeap m s"] by (auto simp: new_ptrs_def)

lemma new_ptrs_null [simp]: "new_ptrs n m (CNull # ps) = new_ptrs n m ps"
  by (simp add: new_ptrs_def owned_list_def)

lemma scan_inv_init: "scan_inv st scan_init st"
  by (simp add: scan_inv_def scan_ptrs_def scan_init_def new_ptrs_def owned_list_def)

lemma malloc_copy_cases:
  obtains "malloc_copy E s st = Inl Null_Deref" "\<not> malloc_ok E (next_alloc st)"
  | "malloc_copy E s st =
      Inr (CHeap (next_alloc st) s, st\<lparr>next_alloc := Suc (next_alloc st)\<rparr>)"
  by (cases "malloc_ok E (next_alloc st)") (auto simp: malloc_copy_def)

text \<open>Replacing one pointer of the scan by a fresh one.\<close>

lemma scan_ptrs_fresh:
  assumes "scan_inv st0 sc st" "scan_ptrs sc = ps @ q # qs" "scan_ptrs sc' = ps @ CHeap (next_alloc st) s # qs"
  shows "scan_inv st0 sc' (st\<lparr>next_alloc := Suc (next_alloc st)\<rparr>)"
proof -
  have "subseq (ps @ qs) (ps @ q # qs)" by (intro list_emb_append_mono) auto
  then have "new_ptrs (next_alloc st0) (next_alloc st) (ps @ qs)"
    using assms(1,2) new_ptrs_drop by (auto simp: scan_inv_def)
  from new_ptrs_insert [OF this] assms show ?thesis by (simp add: scan_inv_def)
qed

lemma scan_colon_ok:
  assumes "scan_inv st0 sc st"
  shows "scan_ok E st0 (scan_colon E str i sc st)"
proof (cases rule: malloc_copy_cases [of E "chunk str (sc_start sc) i" st])
  case 1
  then show ?thesis using assms by (auto simp: scan_colon_def scan_ok_def)
next
  case 2
  have "scan_inv st0 (sc\<lparr>sc_host := CHeap (next_alloc st) (chunk str (sc_start sc) i),
      sc_start := i + 1\<rparr>) (st\<lparr>next_alloc := Suc (next_alloc st)\<rparr>)"
    by (rule scan_ptrs_fresh [OF assms, of "[sc_user_or_host sc, sc_username sc, sc_password sc]" _ "[]"])
      (simp_all add: scan_ptrs_def)
  moreover have "scan_inv st0 (sc\<lparr>sc_user_or_host := CHeap (next_alloc st) (chunk str (sc_start sc) i),
      sc_start := i + 1\<rparr>) (st\<lparr>next_alloc := Suc (next_alloc st)\<rparr>)"
    by (rule scan_ptrs_fresh [OF assms, of "[]"]) (simp_all add: scan_ptrs_def)
  ultimately show ?thesis using assms 2 by (simp add: scan_colon_def scan_ok_def)
qed

lemma scan_inv_rename:
  assumes "scan_inv st0 sc st"
  shows "scan_inv st0 (sc\<lparr>have_auth := True, sc_username := sc_user_or_host sc,
    sc_user_or_host := CNull\<rparr>) st"
proof -
  have "subseq [sc_user_or_host sc, sc_password sc, sc_host sc] (scan_ptrs sc)"
    by (simp add: scan_ptrs_def)
  with assms new_ptrs_drop show ?thesis
    by (auto simp: scan_inv_def scan_ptrs_def)
qed

lemma scan_at_ok:
  assumes "scan_inv st0 sc st"
  shows "scan_ok E st0 (scan_at E str i sc st)"
proof (cases rule: malloc_copy_cases [of E "chunk str (sc_start sc) i" st])
  case 1
  then show ?thesis using assms by (auto simp: scan_at_def scan_ok_def scan_inv_def scan_ptrs_def Let_def)
next
  case 2
  let ?sc = "sc\<lparr>have_auth := True, sc_username := sc_user_or_host sc, sc_user_or_host := CNull\<rparr>"
  have "scan_inv st0 (?sc\<lparr>sc_password := CHeap (next_alloc st) (chunk str (sc_start sc) i),
      sc_start := i + 1\<rparr>) (st\<lparr>next_alloc := Suc (next_alloc st)\<rparr>)"
    by (rule scan_ptrs_fresh [OF scan_inv_rename [OF assms], of "[CNull, sc_user_or_host sc]" _ "[sc_host sc]"])
      (simp_all add: scan_ptrs_def)
  moreover have "scan_inv st0 (sc\<lparr>have_auth := True, sc_username := CHeap (next_alloc st)
      (chunk str (sc_start sc) i), sc_start := i + 1\<rparr>) (st\<lparr>next_alloc := Suc (next_alloc st)\<rparr>)"
    by (rule scan_ptrs_fresh [OF assms, of "[sc_user_or_host sc]" _ "[sc_password sc, sc_host sc]"])
      (simp_all add: scan_ptrs_def)
  moreover have "scan_inv st0 (sc\<lparr>have_auth := True\<rparr>) st"
    using assms by (simp add: scan_inv_def scan_ptrs_def)
  ultimately show ?thesis using assms 2 by (simp add: scan_at_def scan_ok_def Let_def)
qed

lemma scan_url_ok: "scan_inv st0 sc st \<Longrightarrow> scan_ok E st0 (scan_url E str i sc st)"
proof (induction E str i sc st rule: scan_url.induct)
  case (1 E str i sc st)
  let ?r = "if str ! i = CHR '':'' then scan_colon E str i sc st
    else if str ! i = CHR ''@'' then scan_at E str i sc st else Inr (True, sc, st)"
  have r: "scan_ok E st0 ?r"
    using scan_colon_ok [OF 1(2)] scan_at_ok [OF 1(2)] 1(2) by (simp add: scan_ok_def)
  show ?case
  proof (cases "i < length str")
    case False
    then show ?thesis using 1(2) by (simp add: scan_url.simps [of E str i] scan_ok_def)
  next
    case True
    show ?thesis
    proof (cases ?r)
      case (Inl f)
      then show ?thesis using True r by (simp add: scan_url.simps [of E str i] scan_ok_def)
    next
      case (Inr x)
      obtain go sc' st' where x: "x = (go, sc', st')" by (cases x)
      have inv: "scan_inv st0 sc' st'" using r unfolding Inr x by (simp add: scan_ok_def)
      show ?thesis
        unfolding scan_url.simps [of E str i sc st]
        using True 1(1) [OF True, of x] inv unfolding Inr x
        by (simp add: scan_ok_def)
    qed
  qed
qed

section \<open>Ownership in the result\<close>

text \<open>After the remainder: the port joins the strings of the scan.\<close>

definition rest_ok ::
  "client_env \<Rightarrow> pstate \<Rightarrow> (bool \<times> cptr \<times> socks_scan \<times> pstate) run \<Rightarrow> bool" where
  "rest_ok E st0 r \<longleftrightarrow> (case r of
     Inl f \<Rightarrow> \<not> (\<forall>n. malloc_ok E n)
   | Inr (go, prt, sc, st) \<Rightarrow>
       new_ptrs (next_alloc st0) (next_alloc st) (scan_ptrs sc @ [prt]) \<and>
       conf st = conf st0 \<and> next_alloc st0 \<le> next_alloc st \<and>
       err_lines st = err_lines st0 @ (if go then [] else [''Error: Out of memory.'']))"

lemma new_ptrs_snoc_null [simp]: "new_ptrs n m (ps @ [CNull]) = new_ptrs n m ps"
  by (simp add: new_ptrs_def owned_list_def)

lemma new_ptrs_snoc:
  "new_ptrs n m ps \<Longrightarrow> n \<le> m \<Longrightarrow> new_ptrs n (Suc m) (ps @ [CHeap m s])"
  using new_ptrs_insert [of n m ps "[]" s] by simp

lemma scan_inv_take_host:
  assumes "scan_inv st0 sc st" "sc_host sc = CNull"
  shows "scan_inv st0 (sc\<lparr>sc_host := sc_user_or_host sc, sc_user_or_host := CNull\<rparr>) st"
  using assms
  by (cases "sc_user_or_host sc"; cases "sc_username sc"; cases "sc_password sc")
    (auto simp: scan_inv_def scan_ptrs_def new_ptrs_def owned_list_def)

lemma rest_ok_port:
  assumes "scan_inv st0 sc st"
  shows "rest_ok E st0 (and_then (malloc_copy E part st) (\<lambda>(p, st). Inr (True, p, sc, st)))"
proof (cases rule: malloc_copy_cases [of E part st])
  case 1
  then show ?thesis by (auto simp: rest_ok_def)
next
  case 2
  with assms show ?thesis
    by (simp add: rest_ok_def scan_inv_def new_ptrs_snoc)
qed

lemma scan_rest_ok:
  assumes "scan_inv st0 sc st"
  shows "rest_ok E st0 (scan_rest E str sc st)"
proof -
  let ?part = "chunk str (sc_start sc) (length str)"
  have host: "rest_ok E st0 (Inr (True, CNull, sc\<lparr>sc_host := CHeap (next_alloc st) ?part\<rparr>,
      st\<lparr>next_alloc := Suc (next_alloc st)\<rparr>))"
  proof -
    have "scan_inv st0 (sc\<lparr>sc_host := CHeap (next_alloc st) ?part\<rparr>) (st\<lparr>next_alloc := Suc (next_alloc st)\<rparr>)"
      by (rule scan_ptrs_fresh [OF assms, of "[sc_user_or_host sc, sc_username sc, sc_password sc]" _ "[]"])
        (simp_all add: scan_ptrs_def)
    then show ?thesis by (simp add: rest_ok_def scan_inv_def)
  qed
  have oom: "rest_ok E st0 (Inr (False, CNull, sc,
      log_err ''Error: Out of memory.'' (st\<lparr>next_alloc := Suc (next_alloc st)\<rparr>)))"
    using assms by (auto simp: rest_ok_def scan_inv_def log_err_def new_ptrs_def owned_list_def)
  have none: "rest_ok E st0 (Inr (True, CNull, sc, st))"
    using assms by (simp add: rest_ok_def scan_inv_def)
  show ?thesis
    using rest_ok_port [OF assms, of E ?part] rest_ok_port [OF scan_inv_take_host [OF assms], of E ?part]
      host oom none
    by (simp add: scan_rest_def Let_def)
qed

text \<open>Decoding changes the text of a string and not its allocation.\<close>

lemma urldecode_same_alloc:
  assumes "mosquitto__urldecode p = (rc, q)"
  shows "heap_ids (q # ps) = heap_ids (p # ps)" "is_lit q = is_lit p"
  using assms by (auto simp: mosquitto__urldecode_def split: cptr.splits if_splits prod.splits)

lemma new_ptrs_urldecode:
  assumes "mosquitto__urldecode p = (rc, q)"
  shows "new_ptrs n m (ps @ q # qs) = new_ptrs n m (ps @ p # qs)"
  using urldecode_same_alloc [OF assms] by (simp add: new_ptrs_def owned_list_def)

definition socks_ok :: "client_env \<Rightarrow> pstate \<Rightarrow> (int \<times> pstate) run \<Rightarrow> bool" where
  "socks_ok E st0 r \<longleftrightarrow> (case r of
     Inl f \<Rightarrow> \<not> (\<forall>n. malloc_ok E n)
   | Inr (rc, st) \<Rightarrow> st_owns st \<and> next_alloc st0 \<le> next_alloc st \<and>
       (rc = 0 \<and> err_lines st = err_lines st0 \<and>
          (\<exists>u p h n. conf st = set_proxy u p h n (conf st0) \<and> h \<noteq> CNull \<and> 1 \<le> n \<and> n \<le> 65535) \<or>
        rc = 1 \<and> conf st = conf st0 \<and>
          (\<exists>ms. err_lines st = err_lines st0 @ ms \<and> length ms \<le> 1)))"

lemma socks_cleanup_ok:
  assumes "new_ptrs n m (scan_ptrs sc @ [prt])" "st_owns st0" "conf st = conf st0"
    "next_alloc st0 \<le> next_alloc st" "err_lines st = err_lines st0 @ ms" "length ms \<le> 1"
  shows "socks_ok E st0 (socks_cleanup prt sc st)"
proof -
  have "owned_list m (scan_ptrs sc @ [prt])" using assms(1) by (simp add: new_ptrs_def)
  from owned_cleanup [OF this] show ?thesis
    using assms(2-) owns_mono [of "next_alloc st0" "conf st0" "next_alloc st"]
    by (auto simp: socks_ok_def socks_cleanup_def scan_ptrs_def st_owns_def)
qed

lemma owned_list_append_new:
  assumes "owned_list n ps" "new_ptrs n m qs" "n \<le> m"
  shows "owned_list m (ps @ qs)"
proof -
  have "set (heap_ids ps) \<inter> set (heap_ids qs) = {}"
    using assms(1,2) by (fastforce simp: owned_list_def new_ptrs_def)
  moreover have "\<forall>k \<in> set (heap_ids ps). k < m"
    using assms(1,3) by (auto simp: owned_list_def)
  ultimately show ?thesis using assms(1,2) by (auto simp: owned_list_def new_ptrs_def)
qed

lemma owns_set_proxy:
  assumes "owns n c" "new_ptrs n m [u, p, h]" "n \<le> m"
  shows "owns m (set_proxy u p h k c)"
proof -
  let ?old = "scalar_ptrs c @ topics c @ filter_outs c"
  have all: "all_ptrs (set_proxy u p h k c) = ?old @ [h, u, p]"
    by (simp add: all_ptrs_def scalar_ptrs_def socks_ptrs_def set_proxy_def)
  have old: "owned_list n ?old"
    using assms(1) by (auto simp: owns_owned_list all_ptrs_def owned_list_def)
  have new: "new_ptrs n m [h, u, p]"
    using assms(2) by (cases h; cases u; cases p) (auto simp: new_ptrs_def owned_list_def)
  show ?thesis
    unfolding owns_owned_list all by (rule owned_list_append_new [OF old new assms(3)])
qed

text \<open>The end of the parse, from strings the scan owns.\<close>

lemma socks_ok_accept:
  assumes "new_ptrs (next_alloc st0) (next_alloc st) [u, p, h]" "st_owns st0" "conf st = conf st0"
    "next_alloc st0 \<le> next_alloc st" "err_lines st = err_lines st0" "h \<noteq> CNull" "1 \<le> n" "n \<le> 65535"
  shows "socks_ok E st0 (Inr (0, st\<lparr>conf := set_proxy u p h n (conf st)\<rparr>))"
proof -
  have "owns (next_alloc st) (set_proxy u p h n (conf st0))"
    using assms(1,2,4) by (intro owns_set_proxy) (simp_all add: st_owns_def)
  moreover have "\<exists>u' p' h' n'. set_proxy u p h n (conf st0) = set_proxy u' p' h' n' (conf st0) \<and>
      h' \<noteq> CNull \<and> 1 \<le> n' \<and> n' \<le> 65535"
    using assms(6-8) by blast
  ultimately show ?thesis
    using assms(3,4,5) by (simp add: socks_ok_def st_owns_def)
qed

lemma port_freed: "\<not> is_lit prt \<Longrightarrow> prt \<noteq> CNull \<Longrightarrow> \<exists>s F. deref prt = Inr s \<and> free_all [prt] {} = Inr F"
  by (cases prt) auto

lemma socks_finish_ok:
  assumes "new_ptrs (next_alloc st0) (next_alloc st) (scan_ptrs sc @ [prt])" "st_owns st0"
    "conf st = conf st0" "next_alloc st0 \<le> next_alloc st" "err_lines st = err_lines st0"
  shows "socks_ok E st0 (socks_finish prt sc st)"
proof -
  obtain r1 u where u: "mosquitto__urldecode (sc_username sc) = (r1, u)" by fastforce
  obtain r2 p where p: "mosquitto__urldecode (sc_password sc) = (r2, p)" by fastforce
  let ?sc1 = "sc\<lparr>sc_username := u\<rparr>" and ?sc2 = "sc\<lparr>sc_username := u, sc_password := p\<rparr>"
  have s1: "new_ptrs (next_alloc st0) (next_alloc st) (scan_ptrs ?sc1 @ [prt])"
    using assms(1) new_ptrs_urldecode [OF u, of _ _ "[sc_user_or_host sc]" "[sc_password sc, sc_host sc, prt]"]
    by (simp add: scan_ptrs_def)
  then have s2: "new_ptrs (next_alloc st0) (next_alloc st) (scan_ptrs ?sc2 @ [prt])"
    using new_ptrs_urldecode [OF p, of _ _ "[sc_user_or_host sc, u]" "[sc_host sc, prt]"]
    by (simp add: scan_ptrs_def)
  have clean: "socks_ok E st0 (socks_cleanup prt s (if l then st else log_err msg st))"
    if "new_ptrs (next_alloc st0) (next_alloc st) (scan_ptrs s @ [prt])" for s l msg
    by (rule socks_cleanup_ok [OF that assms(2), where ms = "if l then [] else [msg]"])
      (simp_all add: assms(3-5) log_err_def)
  have "subseq [u, p, sc_host sc] (scan_ptrs ?sc2 @ [prt])" by (simp add: scan_ptrs_def)
  with s2 have three: "new_ptrs (next_alloc st0) (next_alloc st) [u, p, sc_host sc]"
    by (rule new_ptrs_drop)
  have acc: "sc_host sc \<noteq> CNull \<Longrightarrow> 1 \<le> n \<Longrightarrow> n \<le> 65535 \<Longrightarrow>
      socks_ok E st0 (Inr (0, st\<lparr>conf := set_proxy u p (sc_host sc) n (conf st)\<rparr>))" for n
    by (rule socks_ok_accept [OF three assms(2-5)])
  have lit: "\<not> is_lit prt" using assms(1) by (simp add: new_ptrs_def owned_list_def)
  show ?thesis
    using clean [OF assms(1), of True] clean [OF assms(1), of False "''Error: Invalid proxy.''"]
      clean [OF s1, of True] clean [OF s2, of True] clean [OF s2, of False] acc port_freed [OF lit]
    by (auto simp: socks_finish_def u p Let_def split: cptr.split)
qed

lemma parse_socks_url_ok:
  assumes "st_owns st"
  shows "socks_ok E st (mosquitto__parse_socks_url E url st)"
proof -
  let ?str = "drop (length socks_scheme) url"
  have unsupported: "socks_ok E st (Inr (1, log_err msg st))" for msg
    using assms by (simp add: socks_ok_def log_err_def st_owns_def)
  have finish: "socks_ok E st (and_then (scan_rest E ?str sc st1)
      (\<lambda>(go, prt, sc, st). if \<not> go then socks_cleanup prt sc st else socks_finish prt sc st))"
    if inv: "scan_inv st sc st1" for sc st1
  proof (cases "scan_rest E ?str sc st1")
    case (Inl f)
    then show ?thesis using scan_rest_ok [OF inv, of E ?str] by (simp add: rest_ok_def socks_ok_def)
  next
    case (Inr x)
    obtain go prt sc2 st2 where x: "x = (go, prt, sc2, st2)" by (cases x)
    have r: "new_ptrs (next_alloc st) (next_alloc st2) (scan_ptrs sc2 @ [prt])"
      "conf st2 = conf st" "next_alloc st \<le> next_alloc st2"
      "err_lines st2 = err_lines st @ (if go then [] else [''Error: Out of memory.''])"
      using scan_rest_ok [OF inv, of E ?str] by (simp_all add: Inr x rest_ok_def)
    show ?thesis
    proof (cases go)
      case True
      then show ?thesis using socks_finish_ok [OF r(1) assms r(2,3)] r(4) by (simp add: Inr x)
    next
      case False
      with socks_cleanup_ok [OF r(1) assms r(2,3), of "[''Error: Out of memory.'']"] r(4)
      show ?thesis by (simp add: Inr x)
    qed
  qed
  have scan: "socks_ok E st (and_then (scan_url E ?str 0 scan_init st) (\<lambda>(go, sc, st1).
      if \<not> go then socks_cleanup CNull sc st1
      else and_then (scan_rest E ?str sc st1)
        (\<lambda>(go, prt, sc, st). if \<not> go then socks_cleanup prt sc st else socks_finish prt sc st)))"
  proof (cases "scan_url E ?str 0 scan_init st")
    case (Inl f)
    then show ?thesis
      using scan_url_ok [OF scan_inv_init, of E st ?str 0] by (simp add: scan_ok_def socks_ok_def)
  next
    case (Inr x)
    obtain go sc st1 where x: "x = (go, sc, st1)" by (cases x)
    have inv: "scan_inv st sc st1"
      using scan_url_ok [OF scan_inv_init, of E st ?str 0] by (simp add: Inr x scan_ok_def)
    then have n: "new_ptrs (next_alloc st) (next_alloc st1) (scan_ptrs sc @ [CNull])"
      "conf st1 = conf st" "next_alloc st \<le> next_alloc st1" "err_lines st1 = err_lines st @ []"
      by (simp_all add: scan_inv_def)
    show ?thesis using socks_cleanup_ok [OF n(1) assms n(2,3,4)] finish [OF inv] by (simp add: Inr x)
  qed
  from scan unsupported show ?thesis by (simp add: mosquitto__parse_socks_url_def Let_def)
qed

end
