(* ===== verification/Options.thy ===== *)
theory Options
  imports Socks
begin

text \<open>
  The option chain of \<open>client_config_line_proc\<close>, in groups of neighbouring branches. A group
  answers \<open>None\<close> for an argument that none of its branches accepts; the groups are tried in the
  order of the chain. Every group keeps the contract \<open>option_group\<close>.
\<close>

section \<open>Branch by branch\<close>

definition unknown_option :: "string \<Rightarrow> pstate \<Rightarrow> step_result" where
  "unknown_option a st = fail (''Error: Unknown option '' @ quote # a @ quote # ''.'') st"

text \<open>The guard of the options that give the message to send.\<close>

definition one_message :: "(pstate \<Rightarrow> step_result) \<Rightarrow> pstate \<Rightarrow> step_result" where
  "one_message k st =
     (if pub_mode (conf st) \<noteq> MSGMODE_NONE
      then fail ''Error: Only one type of message can be sent at once.'' st
      else k st)"

definition net_options ::
  "client_env \<Rightarrow> client_mode \<Rightarrow> string \<Rightarrow> string list \<Rightarrow> pstate \<Rightarrow> step_result option" where
  "net_options E mode a rest st =
     (if a = ''-p'' \<or> a = ''--port''
      then Some (opt_arg ''Error: -p argument given but no port specified.''
             (set_checked (\<lambda>v c. c\<lparr>port := atoi v\<rparr>) (\<lambda>c. port c < 1 \<or> port c > 65535)
                (\<lambda>c. ''Error: Invalid port given: '' @ dec_int (port c))) rest st)
      else if a = ''-A''
      then Some (opt_arg ''Error: -A argument given but no address specified.''
             (set_dup E (\<lambda>p c. c\<lparr>bind_address := p\<rparr>)) rest st)
      else if with_tls E \<and> a = ''--cafile''
      then Some (opt_arg ''Error: --cafile argument given but no file specified.''
             (set_dup E (\<lambda>p c. c\<lparr>cafile := p\<rparr>)) rest st)
      else if with_tls E \<and> a = ''--capath''
      then Some (opt_arg ''Error: --capath argument given but no directory specified.''
             (set_dup E (\<lambda>p c. c\<lparr>capath := p\<rparr>)) rest st)
      else if with_tls E \<and> a = ''--cert''
      then Some (opt_arg ''Error: --cert argument given but no file specified.''
             (set_dup E (\<lambda>p c. c\<lparr>certfile := p\<rparr>)) rest st)
      else if with_tls E \<and> a = ''--ciphers''
      then Some (opt_arg ''Error: --ciphers argument given but no ciphers specified.''
             (set_dup E (\<lambda>p c. c\<lparr>ciphers := p\<rparr>)) rest st)
      else None)"

definition run_options ::
  "client_env \<Rightarrow> client_mode \<Rightarrow> string \<Rightarrow> string list \<Rightarrow> pstate \<Rightarrow> step_result option" where
  "run_options E mode a rest st =
     (if a = ''-C''
      then (if mode = CLIENT_PUB then Some (unknown_option a st)
            else Some (opt_arg ''Error: -C argument given but no count specified.''
                   (set_checked (\<lambda>v c. c\<lparr>msg_count := atoi v\<rparr>) (\<lambda>c. msg_count c < 1)
                      (\<lambda>c. ''Error: Invalid message count '' @ dquote # dec_int (msg_count c) @
                        dquote # ''.'')) rest st))
      else if a = ''-d'' \<or> a = ''--debug'' then Some (set_flag (\<lambda>c. c\<lparr>debug := True\<rparr>) st)
      else if a = ''-f'' \<or> a = ''--file''
      then (if mode = CLIENT_SUB then Some (unknown_option a st)
            else Some (one_message (opt_arg ''Error: -f argument given but no file specified.''
                   (set_dup E (\<lambda>p c. c\<lparr>pub_mode := MSGMODE_FILE, file_input := p\<rparr>)) rest) st))
      else if a = ''--help'' then Some (Return 2 st)
      else if a = ''-h'' \<or> a = ''--host''
      then Some (opt_arg ''Error: -h argument given but no host specified.''
             (set_dup E (\<lambda>p c. c\<lparr>host := p\<rparr>)) rest st)
      else if with_tls E \<and> a = ''--insecure'' then Some (set_flag (\<lambda>c. c\<lparr>insecure := True\<rparr>) st)
      else None)"

definition id_options ::
  "client_env \<Rightarrow> client_mode \<Rightarrow> string \<Rightarrow> string list \<Rightarrow> pstate \<Rightarrow> step_result option" where
  "id_options E mode a rest st =
     (if a = ''-i'' \<or> a = ''--id''
      then Some (if id_prefix (conf st) \<noteq> CNull
             then fail ''Error: -i and -I argument cannot be used together.'' st
             else opt_arg ''Error: -i argument given but no id specified.''
               (set_dup E (\<lambda>p c. c\<lparr>client_id := p\<rparr>)) rest st)
      else if a = ''-I'' \<or> a = ''--id-prefix''
      then Some (if client_id (conf st) \<noteq> CNull
             then fail ''Error: -i and -I argument cannot be used together.'' st
             else opt_arg ''Error: -I argument given but no id prefix specified.''
               (set_dup E (\<lambda>p c. c\<lparr>id_prefix := p\<rparr>)) rest st)
      else if a = ''-k'' \<or> a = ''--keepalive''
      then Some (opt_arg ''Error: -k argument given but no keepalive specified.''
             (set_checked (\<lambda>v c. c\<lparr>keepalive := atoi v\<rparr>) (\<lambda>c. keepalive c > 65535)
                (\<lambda>c. ''Error: Invalid keepalive given: '' @ dec_int (keepalive c))) rest st)
      else if with_tls E \<and> a = ''--key''
      then Some (opt_arg ''Error: --key argument given but no file specified.''
             (set_dup E (\<lambda>p c. c\<lparr>keyfile := p\<rparr>)) rest st)
      else None)"

definition message_options ::
  "client_env \<Rightarrow> client_mode \<Rightarrow> string \<Rightarrow> string list \<Rightarrow> pstate \<Rightarrow> step_result option" where
  "message_options E mode a rest st =
     (if a = ''-l'' \<or> a = ''--stdin-line''
      then (if mode = CLIENT_SUB then Some (unknown_option a st)
            else Some (one_message (set_flag (\<lambda>c. c\<lparr>pub_mode := MSGMODE_STDIN_LINE\<rparr>)) st))
      else if a = ''-m'' \<or> a = ''--message''
      then (if mode = CLIENT_SUB then Some (unknown_option a st)
            else Some (one_message (opt_arg ''Error: -m argument given but no message specified.''
                   (set_sized E (\<lambda>p n c. c\<lparr>message := p, msglen := n, pub_mode := MSGMODE_CMD\<rparr>)) rest) st))
      else if a = ''-M''
      then Some (opt_arg ''Error: -M argument given but max_inflight not specified.''
             (set_checked (\<lambda>v c. c\<lparr>max_inflight := word_of_int (atoi v)\<rparr>) (\<lambda>c. False) (\<lambda>c. [])) rest st)
      else if a = ''-n'' \<or> a = ''--null-message''
      then (if mode = CLIENT_SUB then Some (unknown_option a st)
            else Some (one_message (set_flag (\<lambda>c. c\<lparr>pub_mode := MSGMODE_NULL\<rparr>)) st))
      else None)"

text \<open>The proxy option returns 1 whenever the URL is not accepted.\<close>

definition set_socks :: "client_env \<Rightarrow> string \<Rightarrow> pstate \<Rightarrow> step_result" where
  "set_socks E v st =
     (case mosquitto__parse_socks_url E v st of
        Inl f \<Rightarrow> Fault f
      | Inr (rc, st') \<Rightarrow> if rc \<noteq> 0 then Return 1 st' else Consumed 1 st')"

definition proto_options ::
  "client_env \<Rightarrow> client_mode \<Rightarrow> string \<Rightarrow> string list \<Rightarrow> pstate \<Rightarrow> step_result option" where
  "proto_options E mode a rest st =
     (if a = ''-V'' \<or> a = ''--protocol-version''
      then Some (opt_arg ''Error: --protocol-version argument given but no version specified.''
             (\<lambda>v st. if v = ''mqttv31''
                then Consumed 1 (st\<lparr>conf := (conf st)\<lparr>protocol_version := proto_v31 E\<rparr>\<rparr>)
                else if v = ''mqttv311''
                then Consumed 1 (st\<lparr>conf := (conf st)\<lparr>protocol_version := proto_v311 E\<rparr>\<rparr>)
                else fail ''Error: Invalid protocol version argument given.'' st) rest st)
      else if with_socks E \<and> a = ''--proxy''
      then Some (opt_arg ''Error: --proxy argument given but no proxy url specified.''
             (set_socks E) rest st)
      else if with_tls_psk E \<and> a = ''--psk''
      then Some (opt_arg ''Error: --psk argument given but no key specified.''
             (set_dup E (\<lambda>p c. c\<lparr>psk := p\<rparr>)) rest st)
      else if with_tls_psk E \<and> a = ''--psk-identity''
      then Some (opt_arg ''Error: --psk-identity argument given but no identity specified.''
             (set_dup E (\<lambda>p c. c\<lparr>psk_identity := p\<rparr>)) rest st)
      else None)"

definition qos_options ::
  "client_env \<Rightarrow> client_mode \<Rightarrow> string \<Rightarrow> string list \<Rightarrow> pstate \<Rightarrow> step_result option" where
  "qos_options E mode a rest st =
     (if a = ''-q'' \<or> a = ''--qos''
      then Some (opt_arg ''Error: -q argument given but no QoS specified.''
             (set_checked (\<lambda>v c. c\<lparr>qos := atoi v\<rparr>) (\<lambda>c. qos c < 0 \<or> qos c > 2)
                (\<lambda>c. ''Error: Invalid QoS given: '' @ dec_int (qos c))) rest st)
      else if a = ''--quiet'' then Some (set_flag (\<lambda>c. c\<lparr>quiet := True\<rparr>) st)
      else if a = ''-r'' \<or> a = ''--retain''
      then (if mode = CLIENT_SUB then Some (unknown_option a st)
            else Some (set_flag (\<lambda>c. c\<lparr>retain := True\<rparr>) st))
      else if a = ''-s'' \<or> a = ''--stdin-file''
      then (if mode = CLIENT_SUB then Some (unknown_option a st)
            else Some (one_message (set_flag (\<lambda>c. c\<lparr>pub_mode := MSGMODE_STDIN_FILE\<rparr>)) st))
      else if with_srv E \<and> a = ''-S'' then Some (set_flag (\<lambda>c. c\<lparr>use_srv := True\<rparr>) st)
      else None)"

text \<open>The topic options: the argument is checked by libmosquitto before it is copied.\<close>

definition pub_topic_msg :: "string \<Rightarrow> string \<Rightarrow> string" where
  "pub_topic_msg what v = ''Error: Invalid '' @ what @ '' topic '' @ quote # v @ quote #
     '', does it contain '' @ quote # ''+'' @ quote # '' or '' @ quote # ''#'' @ quote # ''?''"

definition sub_topic_msg :: "string \<Rightarrow> string \<Rightarrow> string" where
  "sub_topic_msg what v = ''Error: Invalid '' @ what @ '' topic '' @ quote # v @ quote #
     '', are all '' @ quote # ''+'' @ quote # '' and '' @ quote # ''#'' @ quote # '' wildcards correct?''"

definition check_pub :: "client_env \<Rightarrow> string \<Rightarrow> (string \<Rightarrow> pstate \<Rightarrow> step_result) \<Rightarrow> string \<Rightarrow> pstate \<Rightarrow> step_result" where
  "check_pub E what k v st =
     (if pub_topic_check E v = mosq_err_inval E then fail (pub_topic_msg what v) st else k v st)"

definition check_sub :: "client_env \<Rightarrow> string \<Rightarrow> (string \<Rightarrow> pstate \<Rightarrow> step_result) \<Rightarrow> string \<Rightarrow> pstate \<Rightarrow> step_result" where
  "check_sub E what k v st =
     (if sub_topic_check E v = mosq_err_inval E then fail (sub_topic_msg what v) st else k v st)"

definition topic_options ::
  "client_env \<Rightarrow> client_mode \<Rightarrow> string \<Rightarrow> string list \<Rightarrow> pstate \<Rightarrow> step_result option" where
  "topic_options E mode a rest st =
     (if a = ''-t'' \<or> a = ''--topic''
      then Some (opt_arg ''Error: -t argument given but no topic specified.''
             (if mode = CLIENT_PUB
              then check_pub E ''publish'' (set_dup E (\<lambda>p c. c\<lparr>topic := p\<rparr>))
              else check_sub E ''subscription'' (add_dup E (\<lambda>p c. c\<lparr>topics := topics c @ [p]\<rparr>))) rest st)
      else if a = ''-b'' \<or> a = ''--pub-topic''
      then Some (opt_arg ''Error: -b argument given but no topic specified.''
             (check_pub E ''publish'' (set_dup E (\<lambda>p c. c\<lparr>topic := p\<rparr>))) rest st)
      else if a = ''-T'' \<or> a = ''--filter-out''
      then (if mode = CLIENT_PUB then Some (unknown_option a st)
            else Some (opt_arg ''Error: -T argument given but no topic filter specified.''
                   (check_sub E ''filter'' (add_dup E (\<lambda>p c. c\<lparr>filter_outs := filter_outs c @ [p]\<rparr>))) rest st))
      else None)"

definition login_options ::
  "client_env \<Rightarrow> client_mode \<Rightarrow> string \<Rightarrow> string list \<Rightarrow> pstate \<Rightarrow> step_result option" where
  "login_options E mode a rest st =
     (if with_tls E \<and> a = ''--tls-version''
      then Some (opt_arg ''Error: --tls-version argument given but no version specified.''
             (set_dup E (\<lambda>p c. c\<lparr>tls_version := p\<rparr>)) rest st)
      else if a = ''-u'' \<or> a = ''--username''
      then Some (opt_arg ''Error: -u argument given but no username specified.''
             (set_dup E (\<lambda>p c. c\<lparr>username := p\<rparr>)) rest st)
      else if a = ''-P'' \<or> a = ''--pw''
      then Some (opt_arg ''Error: -P argument given but no password specified.''
             (set_dup E (\<lambda>p c. c\<lparr>password := p\<rparr>)) rest st)
      else None)"

definition will_options ::
  "client_env \<Rightarrow> client_mode \<Rightarrow> string \<Rightarrow> string list \<Rightarrow> pstate \<Rightarrow> step_result option" where
  "will_options E mode a rest st =
     (if a = ''--will-payload''
      then Some (opt_arg ''Error: --will-payload argument given but no will payload specified.''
             (set_sized E (\<lambda>p n c. c\<lparr>will_payload := p, will_payloadlen := n\<rparr>)) rest st)
      else if a = ''--will-qos''
      then Some (opt_arg ''Error: --will-qos argument given but no will QoS specified.''
             (set_checked (\<lambda>v c. c\<lparr>will_qos := atoi v\<rparr>) (\<lambda>c. will_qos c < 0 \<or> will_qos c > 2)
                (\<lambda>c. ''Error: Invalid will QoS '' @ dec_int (will_qos c) @ ''.'')) rest st)
      else if a = ''--will-retain'' then Some (set_flag (\<lambda>c. c\<lparr>will_retain := True\<rparr>) st)
      else if a = ''--will-topic''
      then Some (opt_arg ''Error: --will-topic argument given but no will topic specified.''
             (check_pub E ''will'' (set_dup E (\<lambda>p c. c\<lparr>will_topic := p\<rparr>))) rest st)
      else None)"

definition sub_flag :: "client_mode \<Rightarrow> string \<Rightarrow> (mosq_config \<Rightarrow> mosq_config) \<Rightarrow> pstate \<Rightarrow> step_result" where
  "sub_flag mode a upd st = (if mode = CLIENT_PUB then unknown_option a st else set_flag upd st)"

definition sub_options ::
  "client_env \<Rightarrow> client_mode \<Rightarrow> string \<Rightarrow> string list \<Rightarrow> pstate \<Rightarrow> step_result option" where
  "sub_options E mode a rest st =
     (if a = ''-c'' \<or> a = ''--disable-clean-session''
      then Some (sub_flag mode a (\<lambda>c. c\<lparr>clean_session := False\<rparr>) st)
      else if a = ''-N'' then Some (sub_flag mode a (\<lambda>c. c\<lparr>eol := False\<rparr>) st)
      else if a = ''-R'' then Some (sub_flag mode a (\<lambda>c. c\<lparr>no_retain := True\<rparr>) st)
      else if a = ''-v'' \<or> a = ''--verbose'' then Some (sub_flag mode a (\<lambda>c. c\<lparr>verbose := True\<rparr>) st)
      else None)"

section \<open>The chain and the loop over the arguments\<close>

definition chain :: "(client_env \<Rightarrow> client_mode \<Rightarrow> string \<Rightarrow> string list \<Rightarrow> pstate \<Rightarrow> step_result option) list" where
  "chain = [net_options, run_options, id_options, message_options, proto_options, qos_options,
     topic_options, login_options, will_options, sub_options]"

fun try_groups ::
  "(client_env \<Rightarrow> client_mode \<Rightarrow> string \<Rightarrow> string list \<Rightarrow> pstate \<Rightarrow> step_result option) list \<Rightarrow>
   client_env \<Rightarrow> client_mode \<Rightarrow> string \<Rightarrow> string list \<Rightarrow> pstate \<Rightarrow> step_result" where
  "try_groups [] E mode a rest st = unknown_option a st"
| "try_groups (g # gs) E mode a rest st =
     (case g E mode a rest st of Some r \<Rightarrow> r | None \<Rightarrow> try_groups gs E mode a rest st)"

definition option_step ::
  "client_env \<Rightarrow> client_mode \<Rightarrow> string \<Rightarrow> string list \<Rightarrow> pstate \<Rightarrow> step_result" where
  "option_step = try_groups chain"

text \<open>
  The arguments are those after the program name. \<open>Inr (0, _)\<close> is \<open>MOSQ_ERR_SUCCESS\<close>.
\<close>

function client_config_line_proc ::
  "client_env \<Rightarrow> client_mode \<Rightarrow> string list \<Rightarrow> pstate \<Rightarrow> (int \<times> pstate) run" where
  "client_config_line_proc E mode [] st = Inr (0, st)"
| "client_config_line_proc E mode (a # rest) st =
     (case option_step E mode a rest st of
        Consumed k st' \<Rightarrow> client_config_line_proc E mode (drop k rest) st'
      | Return rc st' \<Rightarrow> Inr (rc, st')
      | Fault f \<Rightarrow> Inl f)"
  by pat_completeness auto
termination
  by (relation "measure (\<lambda>(E, mode, args, st). length args)") auto

section \<open>The groups keep their contract\<close>

lemmas ptr_lists = all_ptrs_def scalar_ptrs_def socks_ptrs_def

lemma string_fields:
  "string_field (\<lambda>p c. c\<lparr>client_id := p\<rparr>) 0"
  "string_field (\<lambda>p c. c\<lparr>id_prefix := p\<rparr>) (Suc 0)"
  "string_field (\<lambda>p c. c\<lparr>host := p\<rparr>) 2"
  "string_field (\<lambda>p c. c\<lparr>pub_mode := MSGMODE_FILE, file_input := p\<rparr>) 3"
  "\<And>n. string_field (\<lambda>p c. c\<lparr>message := p, msglen := n, pub_mode := MSGMODE_CMD\<rparr>) 4"
  "string_field (\<lambda>p c. c\<lparr>topic := p\<rparr>) 5"
  "string_field (\<lambda>p c. c\<lparr>bind_address := p\<rparr>) 6"
  "string_field (\<lambda>p c. c\<lparr>username := p\<rparr>) 7"
  "string_field (\<lambda>p c. c\<lparr>password := p\<rparr>) 8"
  "string_field (\<lambda>p c. c\<lparr>will_topic := p\<rparr>) 9"
  "\<And>n. string_field (\<lambda>p c. c\<lparr>will_payload := p, will_payloadlen := n\<rparr>) 10"
  by (simp_all add: string_field_def ptr_lists eval_nat_numeral)

lemma string_fields_tls:
  "string_field (\<lambda>p c. c\<lparr>cafile := p\<rparr>) 11"
  "string_field (\<lambda>p c. c\<lparr>capath := p\<rparr>) 12"
  "string_field (\<lambda>p c. c\<lparr>certfile := p\<rparr>) 13"
  "string_field (\<lambda>p c. c\<lparr>keyfile := p\<rparr>) 14"
  "string_field (\<lambda>p c. c\<lparr>ciphers := p\<rparr>) 15"
  "string_field (\<lambda>p c. c\<lparr>tls_version := p\<rparr>) 16"
  "string_field (\<lambda>p c. c\<lparr>psk := p\<rparr>) 17"
  "string_field (\<lambda>p c. c\<lparr>psk_identity := p\<rparr>) 18"
  by (simp_all add: string_field_def ptr_lists eval_nat_numeral)

lemma string_arrays:
  "string_array (\<lambda>p c. c\<lparr>topics := topics c @ [p]\<rparr>)"
  "string_array (\<lambda>p c. c\<lparr>filter_outs := filter_outs c @ [p]\<rparr>)"
proof -
  have "all_ptrs c = (scalar_ptrs c @ topics c) @ filter_outs c @ socks_ptrs c"
    "all_ptrs (c\<lparr>topics := topics c @ [p]\<rparr>) = (scalar_ptrs c @ topics c) @ p # filter_outs c @ socks_ptrs c"
    "all_ptrs c = (scalar_ptrs c @ topics c @ filter_outs c) @ socks_ptrs c"
    "all_ptrs (c\<lparr>filter_outs := filter_outs c @ [p]\<rparr>) =
      (scalar_ptrs c @ topics c @ filter_outs c) @ p # socks_ptrs c" for p c
    by (simp_all add: ptr_lists)
  then show "string_array (\<lambda>p c. c\<lparr>topics := topics c @ [p]\<rparr>)"
    "string_array (\<lambda>p c. c\<lparr>filter_outs := filter_outs c @ [p]\<rparr>)"
    unfolding string_array_def by blast+
qed

lemma parse_inv_range: "parse_inv E st \<Longrightarrow> in_range E (conf st)"
  by (simp add: parse_inv_def)

lemma good_fail_same: "parse_inv E st \<Longrightarrow> good_result E rest st (fail msg st)"
  by (simp add: good_fail parse_inv_def)

lemma good_help: "parse_inv E st \<Longrightarrow> good_result E rest st (Return 2 st)"
  by (simp add: good_result_def parse_inv_def)

lemma good_if:
  "(c \<Longrightarrow> good_result E rest st x) \<Longrightarrow> (\<not> c \<Longrightarrow> good_result E rest st y) \<Longrightarrow>
    good_result E rest st (if c then x else y)"
  by simp

lemma good_if_fun:
  "(c \<Longrightarrow> good_result E rest st (f v st)) \<Longrightarrow> (\<not> c \<Longrightarrow> good_result E rest st (g v st)) \<Longrightarrow>
    good_result E rest st ((if c then f else g) v st)"
  by simp

lemma good_set_conf:
  assumes "parse_inv E st" "rest \<noteq> []" "all_ptrs c = all_ptrs (conf st)" "in_range E c"
  shows "good_result E rest st (Consumed 1 (st\<lparr>conf := c\<rparr>))"
proof -
  have "1 \<le> length rest" using assms(2) by (cases rest) auto
  then show ?thesis using assms by (intro good_consumed)
qed

lemma good_unknown: "parse_inv E st \<Longrightarrow> good_result E rest st (unknown_option a st)"
  by (simp add: unknown_option_def good_fail parse_inv_def)

lemma good_one_message:
  "parse_inv E st \<Longrightarrow> good_result E rest st (k st) \<Longrightarrow> good_result E rest st (one_message k st)"
  by (simp add: one_message_def good_fail parse_inv_def)

lemma good_check_pub:
  "parse_inv E st \<Longrightarrow> good_result E rest st (k v st) \<Longrightarrow> good_result E rest st (check_pub E what k v st)"
  by (simp add: check_pub_def good_fail parse_inv_def)

lemma good_check_sub:
  "parse_inv E st \<Longrightarrow> good_result E rest st (k v st) \<Longrightarrow> good_result E rest st (check_sub E what k v st)"
  by (simp add: check_sub_def good_fail parse_inv_def)

lemma good_sub_flag:
  assumes "parse_inv E st" "all_ptrs (upd (conf st)) = all_ptrs (conf st)" "in_range E (upd (conf st))"
  shows "good_result E rest st (sub_flag mode a upd st)"
  using assms by (simp add: sub_flag_def good_unknown good_set_flag)

lemma good_set_socks:
  assumes "parse_inv E st" "rest \<noteq> []" "with_socks E"
  shows "good_result E rest st (set_socks E v st)"
proof -
  have s: "socks_ok E st (mosquitto__parse_socks_url E v st)"
    using assms(1) parse_socks_url_ok by (simp add: parse_inv_def)
  have len: "1 \<le> length rest" using assms(2) by (cases rest) auto
  show ?thesis
  proof (cases "mosquitto__parse_socks_url E v st")
    case (Inl f)
    then show ?thesis using s by (simp add: set_socks_def socks_ok_def good_result_def)
  next
    case (Inr x)
    obtain rc st' where x: "x = (rc, st')" by (cases x)
    show ?thesis
    proof (cases "rc = 0")
      case True
      then obtain u p h n where "conf st' = set_proxy u p h n (conf st)" "st_owns st'"
        "err_lines st' = err_lines st"
        using s by (auto simp: Inr x socks_ok_def)
      then show ?thesis
        using assms(1) True len
        by (simp add: Inr x set_socks_def good_result_def parse_inv_def in_range_def set_proxy_def)
    next
      case False
      then show ?thesis
        using s assms(3) by (auto simp: Inr x set_socks_def good_result_def socks_ok_def)
    qed
  qed
qed

lemmas good_intros = good_opt_arg good_fail_same good_help good_unknown good_one_message
  good_check_pub good_check_sub good_sub_flag good_set_socks good_set_checked good_set_flag
  good_set_dup good_set_sized good_add_dup

text \<open>The contract of a group, in a form that follows the chain of conditions.\<close>

definition good_group :: "client_env \<Rightarrow> string list \<Rightarrow> pstate \<Rightarrow> step_result option \<Rightarrow> bool" where
  "good_group E rest st x \<longleftrightarrow> (\<forall>r. x = Some r \<longrightarrow> good_result E rest st r)"

lemma good_group_intros:
  "good_group E rest st None"
  "good_result E rest st r \<Longrightarrow> good_group E rest st (Some r)"
  "(c \<Longrightarrow> good_group E rest st x) \<Longrightarrow> good_group E rest st y \<Longrightarrow> good_group E rest st (if c then x else y)"
  by (simp_all add: good_group_def)

lemma good_groupD: "good_group E rest st x \<Longrightarrow> x = Some r \<Longrightarrow> good_result E rest st r"
  by (simp add: good_group_def)

lemmas field_facts = string_fields string_fields_tls string_arrays

lemma net_options_good:
  assumes inv: "parse_inv E st"
  shows "good_group E rest st (net_options E mode a rest st)"
  unfolding net_options_def using inv parse_inv_range [OF inv]
  by (intro good_group_intros good_if good_if_fun good_set_conf good_intros) (auto simp: in_range_def ptr_lists intro: field_facts)

interpretation net: option_group net_options
  by unfold_locales (rule good_groupD [OF net_options_good])

lemma run_options_good:
  assumes inv: "parse_inv E st"
  shows "good_group E rest st (run_options E mode a rest st)"
  unfolding run_options_def using inv parse_inv_range [OF inv]
  by (intro good_group_intros good_if good_if_fun good_set_conf good_intros) (auto simp: in_range_def ptr_lists intro: field_facts)

interpretation run: option_group run_options
  by unfold_locales (rule good_groupD [OF run_options_good])

lemma id_options_good:
  assumes inv: "parse_inv E st"
  shows "good_group E rest st (id_options E mode a rest st)"
  unfolding id_options_def using inv parse_inv_range [OF inv]
  by (intro good_group_intros good_if good_if_fun good_set_conf good_intros) (auto simp: in_range_def ptr_lists intro: field_facts)

interpretation ident: option_group id_options
  by unfold_locales (rule good_groupD [OF id_options_good])

lemma message_options_good:
  assumes inv: "parse_inv E st"
  shows "good_group E rest st (message_options E mode a rest st)"
  unfolding message_options_def using inv parse_inv_range [OF inv]
  by (intro good_group_intros good_if good_if_fun good_set_conf good_intros) (auto simp: in_range_def ptr_lists intro: field_facts)

interpretation msg: option_group message_options
  by unfold_locales (rule good_groupD [OF message_options_good])

lemma proto_options_good:
  assumes inv: "parse_inv E st"
  shows "good_group E rest st (proto_options E mode a rest st)"
  unfolding proto_options_def using inv parse_inv_range [OF inv]
  by (intro good_group_intros good_if good_if_fun good_set_conf good_intros) (auto simp: in_range_def ptr_lists intro: field_facts)

interpretation proto: option_group proto_options
  by unfold_locales (rule good_groupD [OF proto_options_good])

lemma qos_options_good:
  assumes inv: "parse_inv E st"
  shows "good_group E rest st (qos_options E mode a rest st)"
  unfolding qos_options_def using inv parse_inv_range [OF inv]
  by (intro good_group_intros good_if good_if_fun good_set_conf good_intros) (auto simp: in_range_def ptr_lists intro: field_facts)

interpretation qos_group: option_group qos_options
  by unfold_locales (rule good_groupD [OF qos_options_good])

lemma topic_options_good:
  assumes inv: "parse_inv E st"
  shows "good_group E rest st (topic_options E mode a rest st)"
  unfolding topic_options_def using inv parse_inv_range [OF inv]
  by (intro good_group_intros good_if good_if_fun good_set_conf good_intros) (auto simp: in_range_def ptr_lists intro: field_facts)

interpretation topic_group: option_group topic_options
  by unfold_locales (rule good_groupD [OF topic_options_good])

lemma login_options_good:
  assumes inv: "parse_inv E st"
  shows "good_group E rest st (login_options E mode a rest st)"
  unfolding login_options_def using inv parse_inv_range [OF inv]
  by (intro good_group_intros good_if good_if_fun good_set_conf good_intros) (auto simp: in_range_def ptr_lists intro: field_facts)

interpretation login: option_group login_options
  by unfold_locales (rule good_groupD [OF login_options_good])

lemma will_options_good:
  assumes inv: "parse_inv E st"
  shows "good_group E rest st (will_options E mode a rest st)"
  unfolding will_options_def using inv parse_inv_range [OF inv]
  by (intro good_group_intros good_if good_if_fun good_set_conf good_intros) (auto simp: in_range_def ptr_lists intro: field_facts)

interpretation will: option_group will_options
  by unfold_locales (rule good_groupD [OF will_options_good])

lemma sub_options_good:
  assumes inv: "parse_inv E st"
  shows "good_group E rest st (sub_options E mode a rest st)"
  unfolding sub_options_def using inv parse_inv_range [OF inv]
  by (intro good_group_intros good_if good_if_fun good_set_conf good_intros) (auto simp: in_range_def ptr_lists intro: field_facts)

interpretation sub_group: option_group sub_options
  by unfold_locales (rule good_groupD [OF sub_options_good])

end
