(* ===== verification/Line_Proc.thy ===== *)
theory Line_Proc
  imports Options
begin

text \<open>
  The option loop as a whole: what \<open>client_config_line_proc\<close> returns for every list of arguments,
  how it composes over concatenated argument lists, and what the repeated and the misplaced options
  do.
\<close>

section \<open>One step\<close>

lemma try_groups_good:
  "list_all option_group gs \<Longrightarrow> parse_inv E st \<Longrightarrow> good_result E rest st (try_groups gs E mode a rest st)"
  by (induction gs) (auto simp: good_unknown split: option.split dest: option_group.good)

lemma chain_groups: "list_all option_group chain"
  by (simp add: chain_def net.option_group_axioms run.option_group_axioms ident.option_group_axioms
      msg.option_group_axioms proto.option_group_axioms qos_group.option_group_axioms
      topic_group.option_group_axioms login.option_group_axioms will.option_group_axioms
      sub_group.option_group_axioms)

lemma option_step_good: "parse_inv E st \<Longrightarrow> good_result E rest st (option_step E mode a rest st)"
  by (simp add: option_step_def try_groups_good chain_groups)

section \<open>The loop\<close>

definition line_ok :: "client_env \<Rightarrow> pstate \<Rightarrow> (int \<times> pstate) run \<Rightarrow> bool" where
  "line_ok E st r \<longleftrightarrow> (case r of
     Inl f \<Rightarrow> \<not> (\<forall>n. malloc_ok E n)
   | Inr (rc, st') \<Rightarrow> st_owns st' \<and>
       (rc = 0 \<and> parse_inv E st' \<and> err_lines st' = err_lines st \<or>
        rc = 2 \<and> err_lines st' = err_lines st \<or>
        rc = 1 \<and> (\<exists>ms. err_lines st' = err_lines st @ ms \<and> length ms \<le> 1 \<and>
          (\<not> with_socks E \<longrightarrow> length ms = 1))))"

lemma line_ok_cong: "err_lines st' = err_lines st \<Longrightarrow> line_ok E st' r = line_ok E st r"
  by (cases r) (auto simp: line_ok_def)

lemma line_proc_ok: "parse_inv E st \<Longrightarrow> line_ok E st (client_config_line_proc E mode args st)"
proof (induction E mode args st rule: client_config_line_proc.induct)
  case (1 E mode st)
  then show ?case by (simp add: line_ok_def parse_inv_def)
next
  case (2 E mode a rest st)
  have g: "good_result E rest st (option_step E mode a rest st)"
    using 2(2) by (rule option_step_good)
  show ?case
  proof (cases "option_step E mode a rest st")
    case (Consumed k st')
    with g have "parse_inv E st'" "err_lines st' = err_lines st" by (simp_all add: good_result_def)
    with 2(1) [OF Consumed] Consumed line_ok_cong [of st' st] show ?thesis by simp
  next
    case (Return rc st')
    with g show ?thesis by (auto simp: line_ok_def good_result_def)
  next
    case (Fault f)
    with g show ?thesis by (simp add: line_ok_def good_result_def)
  qed
qed

lemma line_proc_owns:
  "parse_inv E st \<Longrightarrow> client_config_line_proc E mode args st = Inr (rc, st') \<Longrightarrow> st_owns st'"
  using line_proc_ok [of E st mode args] by (simp add: line_ok_def)

lemma line_proc_zero:
  "parse_inv E st \<Longrightarrow> client_config_line_proc E mode args st = Inr (0, st') \<Longrightarrow>
    parse_inv E st' \<and> err_lines st' = err_lines st"
  using line_proc_ok [of E st mode args] by (simp add: line_ok_def)

section \<open>Arguments after the ones processed\<close>

text \<open>
  A processed option looks at no argument beyond those it consumes, so that more arguments after
  them change nothing: a contract on top of \<open>option_group\<close>.
\<close>

definition same_step :: "step_result \<Rightarrow> step_result \<Rightarrow> bool" where
  "same_step r r' \<longleftrightarrow> (\<forall>k st. r = Consumed k st \<longrightarrow> r' = Consumed k st)"

definition same_group :: "step_result option \<Rightarrow> step_result option \<Rightarrow> bool" where
  "same_group x y \<longleftrightarrow> (case (x, y) of
     (None, None) \<Rightarrow> True | (Some r, Some r') \<Rightarrow> same_step r r' | _ \<Rightarrow> False)"

locale local_group = option_group +
  assumes extend: "same_group (group E mode a rest st) (group E mode a (rest @ ys) st)"
begin

lemma extend_None: "group E mode a rest st = None \<Longrightarrow> group E mode a (rest @ ys) st = None"
  using extend [of E mode a rest st ys] by (auto simp: same_group_def split: option.splits)

lemma extend_Some:
  "group E mode a rest st = Some r \<Longrightarrow> \<exists>r'. group E mode a (rest @ ys) st = Some r' \<and> same_step r r'"
  using extend [of E mode a rest st ys] by (auto simp: same_group_def split: option.splits)

end

lemma same_refl: "same_step r r" by (simp add: same_step_def)

lemma same_fail: "same_step (fail msg st) r" by (simp add: same_step_def fail_def)

lemma same_opt_arg: "same_step (opt_arg msg k rest st) (opt_arg msg k (rest @ ys) st)"
  by (cases rest) (simp_all add: opt_arg_def same_fail same_refl)

lemma same_one_message:
  "same_step (k st) (k' st) \<Longrightarrow> same_step (one_message k st) (one_message k' st)"
  by (simp add: one_message_def same_refl)

lemma same_if:
  "same_step r r' \<Longrightarrow> same_step s s' \<Longrightarrow> same_step (if c then r else s) (if c then r' else s')"
  by simp

lemma same_group_intros:
  "same_group None None"
  "same_step r r' \<Longrightarrow> same_group (Some r) (Some r')"
  "same_group x x' \<Longrightarrow> same_group y y' \<Longrightarrow> same_group (if c then x else y) (if c then x' else y')"
  by (simp_all add: same_group_def)

lemmas same_intros = same_group_intros same_opt_arg same_fail same_one_message same_if same_refl

interpretation net_local: local_group net_options
  by unfold_locales (unfold net_options_def, intro same_intros)

interpretation run_local: local_group run_options
  by unfold_locales (unfold run_options_def, intro same_intros)

interpretation ident_local: local_group id_options
  by unfold_locales (unfold id_options_def, intro same_intros)

interpretation msg_local: local_group message_options
  by unfold_locales (unfold message_options_def, intro same_intros)

interpretation proto_local: local_group proto_options
  by unfold_locales (unfold proto_options_def, intro same_intros)

interpretation qos_group_local: local_group qos_options
  by unfold_locales (unfold qos_options_def, intro same_intros)

interpretation topic_group_local: local_group topic_options
  by unfold_locales (unfold topic_options_def, intro same_intros)

interpretation login_local: local_group login_options
  by unfold_locales (unfold login_options_def, intro same_intros)

interpretation will_local: local_group will_options
  by unfold_locales (unfold will_options_def, intro same_intros)

interpretation sub_group_local: local_group sub_options
  by unfold_locales (unfold sub_options_def, intro same_intros)

lemma chain_local: "list_all local_group chain"
  by (simp add: chain_def net_local.local_group_axioms run_local.local_group_axioms ident_local.local_group_axioms
      msg_local.local_group_axioms proto_local.local_group_axioms qos_group_local.local_group_axioms
      topic_group_local.local_group_axioms login_local.local_group_axioms will_local.local_group_axioms
      sub_group_local.local_group_axioms)

lemma try_groups_extend:
  "list_all local_group gs \<Longrightarrow> same_step (try_groups gs E mode a rest st) (try_groups gs E mode a (rest @ ys) st)"
proof (induction gs)
  case (Cons g gs)
  then have g: "local_group g" by simp
  show ?case
    using Cons local_group.extend_None [OF g, of E mode a rest st ys]
      local_group.extend_Some [OF g, of E mode a rest st _ ys]
    by (cases "g E mode a rest st") auto
qed (simp add: same_refl)

lemma option_step_extend:
  "option_step E mode a rest st = Consumed k st' \<Longrightarrow> option_step E mode a (rest @ ys) st = Consumed k st'"
  using try_groups_extend [OF chain_local, of E mode a rest st ys]
  by (simp add: option_step_def same_step_def)

lemma line_proc_append:
  "parse_inv E st \<Longrightarrow> client_config_line_proc E mode xs st = Inr (0, st') \<Longrightarrow>
    client_config_line_proc E mode (xs @ ys) st = client_config_line_proc E mode ys st'"
proof (induction E mode xs st rule: client_config_line_proc.induct)
  case (2 E mode a rest st)
  have g: "good_result E rest st (option_step E mode a rest st)"
    using 2(2) by (rule option_step_good)
  show ?case
  proof (cases "option_step E mode a rest st")
    case (Consumed k st1)
    with g have "parse_inv E st1" "k \<le> length rest" by (simp_all add: good_result_def)
    with 2(1) [OF Consumed] 2(3) Consumed option_step_extend [OF Consumed, of ys]
    show ?thesis by simp
  next
    case (Return rc st1)
    with g 2(3) show ?thesis by (simp add: good_result_def)
  next
    case (Fault f)
    with 2(3) show ?thesis by simp
  qed
qed simp

section \<open>Repeated and misplaced options\<close>

lemma option_t_sub:
  assumes "\<forall>n. malloc_ok E n" "sub_topic_check E v \<noteq> mosq_err_inval E"
  shows "option_step E CLIENT_SUB ''-t'' (v # rest) st =
    Consumed 1 (st\<lparr>next_alloc := Suc (Suc (next_alloc st)),
      conf := (conf st)\<lparr>topics := topics (conf st) @ [CHeap (Suc (next_alloc st)) v]\<rparr>\<rparr>)"
  using assms
  by (simp add: option_step_def chain_def net_options_def run_options_def id_options_def
      message_options_def proto_options_def qos_options_def topic_options_def opt_arg_def
      check_sub_def add_dup_def set_dup_def c_strdup_def)

lemma show_ptr_heap [simp]: "show_ptr (CHeap n s) = s"
  by (simp add: show_ptr_def)

lemma line_proc_topics:
  assumes "\<forall>n. malloc_ok E n" "\<forall>v \<in> set vs. sub_topic_check E v \<noteq> mosq_err_inval E"
  shows "\<exists>st'. client_config_line_proc E CLIENT_SUB (concat (map (\<lambda>v. [''-t'', v]) vs)) st = Inr (0, st') \<and>
    map show_ptr (topics (conf st')) = map show_ptr (topics (conf st)) @ vs \<and>
    conf st' = (conf st)\<lparr>topics := topics (conf st')\<rparr>"
  using assms(2)
proof (induction vs arbitrary: st)
  case (Cons v vs)
  let ?st = "st\<lparr>next_alloc := Suc (Suc (next_alloc st)),
      conf := (conf st)\<lparr>topics := topics (conf st) @ [CHeap (Suc (next_alloc st)) v]\<rparr>\<rparr>"
  from Cons.IH [of ?st] Cons.prems obtain st' where
    "client_config_line_proc E CLIENT_SUB (concat (map (\<lambda>v. [''-t'', v]) vs)) ?st = Inr (0, st')"
    "map show_ptr (topics (conf st')) = map show_ptr (topics (conf ?st)) @ vs"
    "conf st' = (conf ?st)\<lparr>topics := topics (conf st')\<rparr>"
    by auto
  then show ?case
    using option_t_sub [OF assms(1), of v "concat (map (\<lambda>v. [''-t'', v]) vs)" st] Cons.prems
    by (intro exI [of _ st']) simp
qed simp

text \<open>The options of the publisher and those of the subscriber.\<close>

definition pub_only :: "string list" where
  "pub_only = [''-f'', ''--file'', ''-l'', ''--stdin-line'', ''-m'', ''--message'', ''-n'',
     ''--null-message'', ''-r'', ''--retain'', ''-s'', ''--stdin-file'']"

definition sub_only :: "string list" where
  "sub_only = [''-C'', ''-T'', ''--filter-out'', ''-c'', ''--disable-clean-session'', ''-N'', ''-R'',
     ''-v'', ''--verbose'']"

lemmas chain_defs = option_step_def chain_def net_options_def run_options_def id_options_def
  message_options_def proto_options_def qos_options_def topic_options_def login_options_def
  will_options_def sub_options_def sub_flag_def

lemma pub_only_steps: "list_all (\<lambda>a. option_step E CLIENT_SUB a rest st = unknown_option a st) pub_only"
  by (simp add: pub_only_def chain_defs)

lemma sub_only_steps: "list_all (\<lambda>a. option_step E CLIENT_PUB a rest st = unknown_option a st) sub_only"
  by (simp add: sub_only_def chain_defs)

section \<open>Properties\<close>

text \<open>
  C3. For every list of arguments the option loop ends, with a fault only if an allocation failed:
  with 0 and a configuration that owns its strings and has every checked number in range, and
  nothing printed; with 2 and nothing printed; or with 1 after exactly one diagnostic (at most one
  when the proxy option is compiled in).
\<close>

theorem line_proc_outcome:
  assumes "parse_inv E st"
  shows "(case client_config_line_proc E mode args st of
      Inl f \<Rightarrow> \<not> (\<forall>n. malloc_ok E n)
    | Inr (rc, st') \<Rightarrow> st_owns st' \<and>
        (rc = 0 \<and> parse_inv E st' \<and> err_lines st' = err_lines st \<or>
         rc = 2 \<and> err_lines st' = err_lines st \<or>
         rc = 1 \<and> (\<exists>ms. err_lines st' = err_lines st @ ms \<and> length ms \<le> 1 \<and>
           (\<not> with_socks E \<longrightarrow> length ms = 1))))"
  using line_proc_ok [OF assms, of mode args] by (simp add: line_ok_def)

theorem line_proc_outcome_witness:
  "\<exists>st'. client_config_line_proc sample_env CLIENT_SUB [''-p'', ''99999''] sample_state = Inr (1, st') \<and>
    st_owns st'"
proof -
  have "atoi ''99999'' = 99999" by code_simp
  then have "\<exists>st'. client_config_line_proc sample_env CLIENT_SUB [''-p'', ''99999''] sample_state = Inr (1, st')"
    by (simp add: option_step_def chain_def net_options_def opt_arg_def set_checked_def fail_def Let_def)
  then obtain st' where
    s: "client_config_line_proc sample_env CLIENT_SUB [''-p'', ''99999''] sample_state = Inr (1, st')" ..
  with line_proc_outcome [OF sample_inv, of CLIENT_SUB "[''-p'', ''99999'']"] show ?thesis by auto
qed

text \<open>
  C15. After the option loop, whatever it returned, the string pointers of the configuration come from
  different allocations, and freeing the configuration frees exactly the strings they point to: none is
  left out, none is freed twice, and nothing else is freed.
\<close>

theorem cleanup_after_line_proc:
  assumes "parse_inv E st" "client_config_line_proc E mode args st = Inr (rc, st')"
  shows "client_config_cleanup E (conf st') = Inr (set (heap_ids (struct_ptrs E (conf st')))) \<and>
    distinct (heap_ids (struct_ptrs E (conf st')))"
  using line_proc_owns [OF assms] cleanup_frees unfolding st_owns_def by blast

theorem cleanup_after_line_proc_witness:
  "\<exists>st'. client_config_line_proc sample_env CLIENT_SUB [''-u'', ''u'', ''-P'', ''p'', ''-t'', ''x''] sample_state =
      Inr (0, st') \<and>
    client_config_cleanup sample_env (conf st') = Inr {0, 1, 3}"
proof -
  let ?args = "[''-u'', ''u'', ''-P'', ''p'', ''-t'', ''x'']"
  have "sub_topic_check sample_env ''x'' \<noteq> mosq_err_inval sample_env" by (simp add: sample_env_def)
  then obtain st' where s: "client_config_line_proc sample_env CLIENT_SUB ?args sample_state = Inr (0, st')"
    "conf st' = (conf sample_state)\<lparr>username := CHeap 0 ''u'', password := CHeap 1 ''p'', topics := [CHeap 3 ''x'']\<rparr>"
    by (simp add: sample_malloc chain_defs opt_arg_def check_sub_def add_dup_def set_dup_def c_strdup_def)
      (simp add: sample_state_def init_config_def)
  have "heap_ids (struct_ptrs sample_env (conf st')) = [0, 1, 3]"
    unfolding s(2) by (simp add: struct_ptrs_def sample_state_def init_config_def)
  with cleanup_after_line_proc [OF sample_inv s(1)] s(1) show ?thesis
    by (intro exI [of _ st']) simp
qed

text \<open>
  C32. Processing a list of arguments without an error and then another list is processing their
  concatenation: the lines of a configuration file and the command line are one list of options.
\<close>

theorem line_proc_compositional:
  assumes "parse_inv E st" "client_config_line_proc E mode xs st = Inr (0, st')"
  shows "client_config_line_proc E mode (xs @ ys) st = client_config_line_proc E mode ys st'"
  using assms by (rule line_proc_append)

theorem line_proc_compositional_witness:
  "client_config_line_proc sample_env CLIENT_SUB ([''-d''] @ [''--quiet'']) sample_state =
    client_config_line_proc sample_env CLIENT_SUB [''--quiet'']
      (sample_state\<lparr>conf := (conf sample_state)\<lparr>debug := True\<rparr>\<rparr>)"
  by (rule line_proc_compositional [OF sample_inv])
    (simp add: option_step_def chain_def net_options_def run_options_def set_flag_def)

text \<open>
  C39. The topic option of the subscriber may be repeated: the topics are appended in the order given
  to those already there, and nothing else of the configuration changes.
\<close>

theorem topics_accumulate:
  assumes "\<forall>n. malloc_ok E n" "\<forall>v \<in> set vs. sub_topic_check E v \<noteq> mosq_err_inval E"
  shows "\<exists>st'. client_config_line_proc E CLIENT_SUB (concat (map (\<lambda>v. [''-t'', v]) vs)) st = Inr (0, st') \<and>
    map show_ptr (topics (conf st')) = map show_ptr (topics (conf st)) @ vs \<and>
    conf st' = (conf st)\<lparr>topics := topics (conf st')\<rparr>"
  using assms by (rule line_proc_topics)

theorem topics_accumulate_witness:
  "\<exists>st'. client_config_line_proc sample_env CLIENT_SUB [''-t'', ''a'', ''-t'', ''b/#''] sample_state = Inr (0, st') \<and>
    map show_ptr (topics (conf st')) = [''a'', ''b/#'']"
  using topics_accumulate [OF sample_malloc, of "[''a'', ''b/#'']" sample_state]
  by (auto simp: sample_env_def sample_state_def init_config_def)

text \<open>
  The options of the publisher are unknown to the subscriber and those of the subscriber unknown
  to the publisher, whatever follows them.
\<close>

theorem misplaced_options_rejected:
  "list_all (\<lambda>a. client_config_line_proc E CLIENT_SUB (a # rest) st =
      Inr (1, log_err (''Error: Unknown option '' @ quote # a @ quote # ''.'') st)) pub_only \<and>
   list_all (\<lambda>a. client_config_line_proc E CLIENT_PUB (a # rest) st =
      Inr (1, log_err (''Error: Unknown option '' @ quote # a @ quote # ''.'') st)) sub_only"
  using pub_only_steps [of E rest st] sub_only_steps [of E rest st]
  by (simp add: list_all_iff unknown_option_def fail_def)

end
