(* ===== verification/Load.thy ===== *)
theory Load
  imports Line_Proc
begin

text \<open>
  \<open>client_config_load\<close>: the default configuration file is read line by line, the command line is
  processed after it, the result is checked, and what is still missing gets its default: the host,
  an anonymous uid with the shared password, and for the subscriber its topics.
\<close>

section \<open>The configuration file\<close>

definition newline :: char where
  "newline = CHR 0x0A"

definition is_eol :: "char \<Rightarrow> bool" where
  "is_eol c \<longleftrightarrow> c = newline \<or> c = CHR 0x0D"

text \<open>
  \<open>fgets\<close> into a buffer of 1024 bytes: at most 1023 bytes, up to and including a line feed. Only the
  bytes before a NUL are seen afterwards.
\<close>

definition fgets_line :: "string \<Rightarrow> string \<times> string" where
  "fgets_line s =
     (let l = take 1023 s; b = takeWhile (\<lambda>c. c \<noteq> newline) l
      in if length b < length l then (b @ [newline], drop (Suc (length b)) s) else (l, drop 1023 s))"

definition c_str :: "string \<Rightarrow> string" where
  "c_str s = takeWhile (\<lambda>c. c \<noteq> CHR 0x00) s"

lemma fgets_shorter: "s \<noteq> [] \<Longrightarrow> length (snd (fgets_line s)) < length s"
  by (cases s) (auto simp: fgets_line_def Let_def)

text \<open>
  The loop that removes line ends looks at the last character of the line; of an empty line that is
  the byte before the buffer.
\<close>

function strip_eol :: "string \<Rightarrow> string run" where
  "strip_eol s =
     (if s = [] then Inl Out_Of_Bounds
      else if is_eol (last s) then strip_eol (butlast s) else Inr s)"
  by pat_completeness auto
termination by (relation "measure length") auto

declare strip_eol.simps [simp del]

text \<open>The first two words of a line.\<close>

definition line_args :: "string \<Rightarrow> string list" where
  "line_args l =
     (case strtok_space l of
        None \<Rightarrow> []
      | Some (a, r) \<Rightarrow> a # (case strtok_space r of None \<Rightarrow> [] | Some (b, _) \<Rightarrow> [b]))"

function load_lines :: "client_env \<Rightarrow> client_mode \<Rightarrow> string \<Rightarrow> pstate \<Rightarrow> (int \<times> pstate) run" where
  "load_lines E mode content st =
     (if content = [] then Inr (0, st)
      else (let line = c_str (fst (fgets_line content)); rest = snd (fgets_line content)
        in if line \<noteq> [] \<and> hd line = CHR ''#'' then load_lines E mode rest st
           else and_then (strip_eol line) (\<lambda>l.
             if line_args l = [] then load_lines E mode rest st
             else and_then (client_config_line_proc E mode (line_args l) st) (\<lambda>(rc, st).
               if rc \<noteq> 0 then Inr (rc, st) else load_lines E mode rest st))))"
  by pat_completeness auto
termination
  by (relation "measure (\<lambda>(E, mode, s, st). length s)") (auto simp: fgets_shorter)

declare load_lines.simps [simp del]

text \<open>Where the file is.\<close>

definition file_name :: "client_mode \<Rightarrow> string" where
  "file_name mode = (if mode = CLIENT_PUB then ''/mosquitto_pub'' else ''/mosquitto_sub'')"

definition config_path :: "client_env \<Rightarrow> client_mode \<Rightarrow> string option" where
  "config_path E mode =
     (case env_xdg_config_home E of
        Some d \<Rightarrow> Some (d @ file_name mode)
      | None \<Rightarrow> map_option (\<lambda>d. d @ ''/.config'' @ file_name mode) (env_home E))"

definition load_file :: "client_env \<Rightarrow> client_mode \<Rightarrow> pstate \<Rightarrow> (int \<times> pstate) run" where
  "load_file E mode st =
     (case config_path E mode of
        None \<Rightarrow> Inr (0, log_err
          ''Warning: Unable to locate configuration directory, default config not loaded.'' st)
      | Some loc \<Rightarrow>
          if \<not> malloc_ok E (next_alloc st)
          then Inr (1, log_err ''Error: Out of memory.'' (st\<lparr>next_alloc := Suc (next_alloc st)\<rparr>))
          else (let st = st\<lparr>next_alloc := Suc (next_alloc st)\<rparr>
            in case read_file E loc of None \<Rightarrow> Inr (0, st) | Some content \<Rightarrow> load_lines E mode content st))"

section \<open>Checks and defaults\<close>

definition warn_unless_quiet :: "string \<Rightarrow> pstate \<Rightarrow> pstate" where
  "warn_unless_quiet msg st = (if quiet (conf st) then st else log_err msg st)"

text \<open>The consistency checks; 1 ends the load.\<close>

definition check_tls :: "client_env \<Rightarrow> pstate \<Rightarrow> int \<times> pstate" where
  "check_tls E st =
     (let c = conf st in
      if with_tls E \<and> (certfile c \<noteq> CNull \<and> keyfile c = CNull \<or> keyfile c \<noteq> CNull \<and> certfile c = CNull)
      then (1, log_err ''Error: Both certfile and keyfile must be provided if one of them is.'' st)
      else if with_tls_psk E \<and> (cafile c \<noteq> CNull \<or> capath c \<noteq> CNull) \<and> psk c \<noteq> CNull
      then (1, warn_unless_quiet
        ''Error: Only one of --psk or --cafile/--capath may be used at once.'' st)
      else if with_tls_psk E \<and> psk c \<noteq> CNull \<and> psk_identity c = CNull
      then (1, warn_unless_quiet ''Error: --psk-identity required if --psk used.'' st)
      else (0, st))"

definition check_config :: "client_env \<Rightarrow> pstate \<Rightarrow> int \<times> pstate" where
  "check_config E st =
     (let c = conf st in
      if will_payload c \<noteq> CNull \<and> will_topic c = CNull
      then (1, log_err ''Error: Will payload given, but no will topic given.'' st)
      else if will_retain c \<and> will_topic c = CNull
      then (1, log_err ''Error: Will retain given, but no will topic given.'' st)
      else check_tls E
        (if password c \<noteq> CNull \<and> username c = CNull
         then warn_unless_quiet ''Warning: Not using password since username not set.'' st
         else st))"

text \<open>\<open>sprintf\<close> into a block of the given size, without a check of either.\<close>

definition malloc_sprintf :: "client_env \<Rightarrow> nat \<Rightarrow> string \<Rightarrow> pstate \<Rightarrow> (cptr \<times> pstate) run" where
  "malloc_sprintf E n s st =
     (if \<not> malloc_ok E (next_alloc st) then Inl Null_Deref
      else if n \<le> length s then Inl Buffer_Overflow
      else Inr (CHeap (next_alloc st) s, st\<lparr>next_alloc := Suc (next_alloc st)\<rparr>))"

definition anon_uid :: "client_env \<Rightarrow> int run" where
  "anon_uid E = to_long ((lrand48_value E AND 0x0fffffffffffffff) + 9223372000000000000)"

definition default_login :: "client_env \<Rightarrow> pstate \<Rightarrow> pstate run" where
  "default_login E st =
     (let st = (if host (conf st) = CNull
                then st\<lparr>conf := (conf st)\<lparr>host := CLit ''localhost''\<rparr>\<rparr> else st)
      in and_then
           (if username (conf st) = CNull
            then and_then (anon_uid E) (\<lambda>uid.
                   and_then (malloc_sprintf E 24 (dec_int uid) st) (\<lambda>(p, st).
                     Inr (st\<lparr>conf := (conf st)\<lparr>username := p\<rparr>\<rparr>)))
            else Inr st)
           (\<lambda>st. if password (conf st) = CNull
              then (case c_strdup E ''codein.tv'' st of (p, st) \<Rightarrow>
                      Inr (st\<lparr>conf := (conf st)\<lparr>password := p\<rparr>\<rparr>))
              else Inr st))"

text \<open>The array of one topic, its topic, and the topic to publish to.\<close>

definition default_sub_topic :: "client_env \<Rightarrow> pstate \<Rightarrow> pstate run" where
  "default_sub_topic E st =
     (if \<not> malloc_ok E (next_alloc st) then Inl Null_Deref
      else and_then (deref (username (conf st))) (\<lambda>u.
        and_then (malloc_sprintf E 50 (''codein/live/'' @ u) (st\<lparr>next_alloc := Suc (next_alloc st)\<rparr>))
          (\<lambda>(p, st).
            (let st = st\<lparr>conf := (conf st)\<lparr>topics := [p]\<rparr>\<rparr>
             in if topic (conf st) = CNull
                then (case c_strdup E ''codein/live'' st of (p, st) \<Rightarrow>
                        Inr (st\<lparr>conf := (conf st)\<lparr>topic := p\<rparr>\<rparr>))
                else Inr st))))"

text \<open>When no topic to publish to is given, the pointer to the first subscription is taken.\<close>

definition default_sub :: "client_env \<Rightarrow> pstate \<Rightarrow> (int \<times> pstate) run" where
  "default_sub E st =
     (if \<not> clean_session (conf st) \<and> (id_prefix (conf st) \<noteq> CNull \<or> client_id (conf st) = CNull)
      then Inr (1, warn_unless_quiet
             ''Error: You must provide a client id if you are using the -c option.'' st)
      else and_then (if topic_count (conf st) = 0 then default_sub_topic E st else Inr st) (\<lambda>st.
        (let st = (if topic (conf st) = CNull
                   then st\<lparr>conf := (conf st)\<lparr>topic := topics (conf st) ! 0\<rparr>\<rparr> else st)
         in Inr (0, warn_unless_quiet (''sub topic: '' @ show_ptr (topics (conf st) ! 0) @
              '', pub topic: '' @ show_ptr (topic (conf st))) st))))"

definition load_defaults :: "client_env \<Rightarrow> client_mode \<Rightarrow> pstate \<Rightarrow> (int \<times> pstate) run" where
  "load_defaults E mode st =
     and_then (default_login E st) (\<lambda>st.
       if mode = CLIENT_SUB then default_sub E st else Inr (0, st))"

definition load_start :: "client_env \<Rightarrow> pstate" where
  "load_start E = \<lparr>conf = init_config E, next_alloc = 0, err_lines = []\<rparr>"

definition client_config_load :: "client_env \<Rightarrow> client_mode \<Rightarrow> string list \<Rightarrow> (int \<times> pstate) run" where
  "client_config_load E mode args =
     and_then (load_file E mode (load_start E)) (\<lambda>(rc, st).
       if rc \<noteq> 0 then Inr (rc, st)
       else and_then (client_config_line_proc E mode args st) (\<lambda>(rc, st).
         if rc \<noteq> 0 then Inr (rc, st)
         else (case check_config E st of (rc, st) \<Rightarrow>
           if rc \<noteq> 0 then Inr (rc, st) else load_defaults E mode st)))"

section \<open>Up to the checks\<close>

text \<open>
  A result of reading the file: as for the option loop, but a line without a character before its end
  is read out of bounds.
\<close>

definition file_ok :: "client_env \<Rightarrow> (int \<times> pstate) run \<Rightarrow> bool" where
  "file_ok E r \<longleftrightarrow> (case r of
     Inl f \<Rightarrow> \<not> (\<forall>n. malloc_ok E n) \<or> f = Out_Of_Bounds
   | Inr (rc, st') \<Rightarrow> st_owns st' \<and> (rc = 0 \<and> parse_inv E st' \<or> rc = 1 \<or> rc = 2))"

lemma file_ok_line: "parse_inv E st \<Longrightarrow> file_ok E (client_config_line_proc E mode args st)"
  using line_proc_ok [of E st mode args] by (auto simp: file_ok_def line_ok_def split: sum.splits)

lemma strip_eol_fault: "strip_eol s = Inl f \<Longrightarrow> f = Out_Of_Bounds"
proof (induction s rule: strip_eol.induct)
  case (1 s)
  then show ?case by (subst (asm) (2) strip_eol.simps) (auto split: if_splits)
qed

lemma load_lines_ok: "parse_inv E st \<Longrightarrow> file_ok E (load_lines E mode content st)"
proof (induction E mode content st rule: load_lines.induct)
  case (1 E mode content st)
  let ?line = "c_str (fst (fgets_line content))" and ?rest = "snd (fgets_line content)"
  have skip: "file_ok E (load_lines E mode ?rest st)" if "content \<noteq> []" "?line \<noteq> [] \<and> hd ?line = CHR ''#''"
    using 1(1) [OF that(1) refl refl that(2) 1(4)] .
  have line: "file_ok E (and_then (strip_eol ?line) (\<lambda>l.
      if line_args l = [] then load_lines E mode ?rest st
      else and_then (client_config_line_proc E mode (line_args l) st) (\<lambda>(rc, st).
        if rc \<noteq> 0 then Inr (rc, st) else load_lines E mode ?rest st)))"
    if c: "content \<noteq> []" "\<not> (?line \<noteq> [] \<and> hd ?line = CHR ''#'')"
  proof (cases "strip_eol ?line")
    case (Inl f)
    then show ?thesis using strip_eol_fault [OF Inl] by (simp add: file_ok_def)
  next
    case (Inr l)
    show ?thesis
    proof (cases "line_args l = []")
      case True
      then show ?thesis using 1(2) [OF c(1) refl refl c(2) Inr True 1(4)] by (simp add: Inr)
    next
      case False
      have f: "file_ok E (client_config_line_proc E mode (line_args l) st)"
        using 1(4) by (rule file_ok_line)
      show ?thesis
      proof (cases "client_config_line_proc E mode (line_args l) st")
        case inl: (Inl f)
        then show ?thesis using f False by (simp add: Inr file_ok_def)
      next
        case inr: (Inr x)
        obtain rc st' where x: "x = (rc, st')" by (cases x)
        show ?thesis
        proof (cases "rc = 0")
          case True
          have "parse_inv E st'" using f by (simp add: inr x file_ok_def True)
          with 1(3) [OF c(1) refl refl c(2) Inr False inr x [symmetric]] True False
          show ?thesis by (simp add: Inr inr x)
        next
          case rc: False
          then show ?thesis using f False by (simp add: Inr inr x file_ok_def)
        qed
      qed
    qed
  qed
  show ?case
    using skip line 1(4)
    by (subst load_lines.simps) (auto simp: Let_def file_ok_def parse_inv_def)
qed

lemma parse_inv_same_conf:
  "parse_inv E st \<Longrightarrow> conf st' = conf st \<Longrightarrow> next_alloc st \<le> next_alloc st' \<Longrightarrow> parse_inv E st'"
  using owns_mono by (auto simp: parse_inv_def st_owns_def)

lemma load_file_ok: "parse_inv E st \<Longrightarrow> file_ok E (load_file E mode st)"
proof -
  assume inv: "parse_inv E st"
  have next_inv: "parse_inv E (st\<lparr>next_alloc := Suc (next_alloc st)\<rparr>)"
    using parse_inv_same_conf [OF inv] by simp
  have err: "parse_inv E (log_err m s)" if "parse_inv E s" for m s
    using parse_inv_same_conf [OF that, of "log_err m s"] by (simp add: log_err_def)
  show ?thesis
    using err [OF inv] err [OF next_inv] next_inv load_lines_ok [OF next_inv]
    by (auto simp: load_file_def Let_def file_ok_def parse_inv_def split: option.split)
qed

text \<open>The checks only print, and return 0 or 1.\<close>

definition only_prints :: "pstate \<Rightarrow> int \<times> pstate \<Rightarrow> bool" where
  "only_prints st x \<longleftrightarrow> conf (snd x) = conf st \<and> next_alloc (snd x) = next_alloc st \<and>
     (fst x = 0 \<or> fst x = 1)"

lemma only_prints_intros:
  "only_prints st x \<Longrightarrow> only_prints st y \<Longrightarrow> only_prints st (if c then x else y)"
  "only_prints st (0, st)" "only_prints st (1, log_err m st)" "only_prints st (1, warn_unless_quiet m st)"
  by (simp_all add: only_prints_def log_err_def warn_unless_quiet_def)

lemma check_tls_prints: "only_prints st (check_tls E st)"
  unfolding check_tls_def Let_def by (intro only_prints_intros)

lemma only_prints_warn: "only_prints (if c then warn_unless_quiet m st else st) x \<Longrightarrow> only_prints st x"
  by (cases c) (auto simp: only_prints_def log_err_def warn_unless_quiet_def split: if_splits)

lemma check_config_prints: "only_prints st (check_config E st)"
  unfolding check_config_def Let_def
  by (intro only_prints_intros only_prints_warn [OF check_tls_prints])

text \<open>What the checks are for.\<close>

definition consistent :: "client_env \<Rightarrow> mosq_config \<Rightarrow> bool" where
  "consistent E c \<longleftrightarrow>
     (will_payload c \<noteq> CNull \<or> will_retain c \<longrightarrow> will_topic c \<noteq> CNull) \<and>
     (with_tls E \<longrightarrow> (certfile c = CNull \<longleftrightarrow> keyfile c = CNull)) \<and>
     (with_tls_psk E \<and> psk c \<noteq> CNull \<longrightarrow>
        cafile c = CNull \<and> capath c = CNull \<and> psk_identity c \<noteq> CNull)"

lemma check_tls_zero_iff: "fst (check_tls E st) = 0 \<longleftrightarrow>
    (with_tls E \<longrightarrow> (certfile (conf st) = CNull \<longleftrightarrow> keyfile (conf st) = CNull)) \<and>
    (with_tls_psk E \<and> psk (conf st) \<noteq> CNull \<longrightarrow>
       cafile (conf st) = CNull \<and> capath (conf st) = CNull \<and> psk_identity (conf st) \<noteq> CNull)"
  unfolding check_tls_def Let_def by (simp; blast)

lemma check_config_zero_iff: "fst (check_config E st) = 0 \<longleftrightarrow> consistent E (conf st)"
proof -
  have w: "conf (if c then warn_unless_quiet m st else st) = conf st" for c m
    by (simp add: warn_unless_quiet_def log_err_def)
  show ?thesis
    unfolding check_config_def Let_def consistent_def
    by (simp add: check_tls_zero_iff w)
qed

section \<open>The defaults\<close>

text \<open>
  Ownership while the host may be a literal: with the flag set, the place of the host is left out.
\<close>

definition masked :: "bool \<Rightarrow> cptr list \<Rightarrow> cptr list" where
  "masked b ps = (if b then ps[2 := CNull] else ps)"

definition owns_but :: "bool \<Rightarrow> nat \<Rightarrow> mosq_config \<Rightarrow> bool" where
  "owns_but b n c \<longleftrightarrow> owned_list n (masked b (all_ptrs c))"

lemma owns_but_field:
  assumes "string_field upd k" "k \<noteq> 2" "owns_but b n c" "fresh_ptr n p"
  shows "owns_but b (Suc n) (upd p c)"
proof -
  have "masked b ((all_ptrs c)[k := p]) = (masked b (all_ptrs c))[k := p]"
    using assms(2) by (simp add: masked_def list_update_swap)
  then show ?thesis
    using assms(1,3,4) owned_list_update by (simp add: owns_but_def string_field_def)
qed

lemma owns_but_start:
  assumes "owns n c"
  shows "owns_but (host c = CNull) n (if host c = CNull then c\<lparr>host := CLit s\<rparr> else c)"
proof (cases "host c = CNull")
  case True
  have "all_ptrs (c\<lparr>host := CLit s\<rparr>) = (all_ptrs c)[2 := CLit s]"
    using string_fields(3) by (simp add: string_field_def)
  moreover have "(all_ptrs c)[2 := CNull] = all_ptrs c"
    using True by (simp add: ptr_lists eval_nat_numeral)
  ultimately show ?thesis using assms True by (simp add: owns_but_def masked_def owns_owned_list)
next
  case False
  then show ?thesis using assms by (simp add: owns_but_def masked_def owns_owned_list)
qed

text \<open>The anonymous uid: \<open>lrand48\<close> is documented to return at most 31 bits.\<close>

definition lrand48_ok :: "client_env \<Rightarrow> bool" where
  "lrand48_ok E \<longleftrightarrow> 0 \<le> lrand48_value E \<and> lrand48_value E < 2147483648"

lemma and_60_bits: "0 \<le> x \<Longrightarrow> x < 2147483648 \<Longrightarrow> x AND 0x0fffffffffffffff = (x :: int)"
proof -
  assume x: "0 \<le> x" "x < 2147483648"
  have m: "(0x0fffffffffffffff :: int) = mask 60" by (simp add: mask_eq_exp_minus_1)
  have "x AND 0x0fffffffffffffff = x mod 2 ^ 60"
    unfolding m by (simp only: take_bit_eq_mask [symmetric] take_bit_eq_mod)
  also have "\<dots> = x" using x by (intro mod_pos_pos_trivial) auto
  finally show ?thesis .
qed

lemma anon_uid_eq: "lrand48_ok E \<Longrightarrow> anon_uid E = Inr (lrand48_value E + 9223372000000000000)"
  by (simp add: anon_uid_def lrand48_ok_def and_60_bits to_long_def is_long_def long_max_def long_min_def)

lemma length_anon_uid:
  "anon_uid E = Inr uid \<Longrightarrow> 0 \<le> uid \<Longrightarrow> length (dec_int uid) < 24"
proof -
  assume "anon_uid E = Inr uid" "0 \<le> uid"
  then have "uid \<le> 9223372036854775807" by (auto simp: anon_uid_def to_long_Inr_iff is_long_def long_max_def)
  then have "length (dec_nat (nat uid)) \<le> 19" by (intro length_dec_nat_le) auto
  with \<open>0 \<le> uid\<close> show ?thesis by (simp add: dec_int_def)
qed

text \<open>
  The login defaults fill what is missing: the host, the user name, the password. They own the strings
  they add.
\<close>

definition login_ok :: "client_env \<Rightarrow> pstate \<Rightarrow> pstate run \<Rightarrow> bool" where
  "login_ok E st r \<longleftrightarrow> (case r of
     Inl f \<Rightarrow> \<not> ((\<forall>n. malloc_ok E n) \<and> lrand48_ok E)
   | Inr st' \<Rightarrow> owns_but (host (conf st) = CNull) (next_alloc st') (conf st') \<and>
       next_alloc st \<le> next_alloc st' \<and> err_lines st' = err_lines st \<and> username (conf st') \<noteq> CNull \<and>
       ((\<forall>n. malloc_ok E n) \<longrightarrow> password (conf st') \<noteq> CNull) \<and>
       conf st' = (conf st)\<lparr>host := if host (conf st) = CNull then CLit ''localhost'' else host (conf st),
         username := username (conf st'), password := password (conf st')\<rparr>)"

lemma malloc_sprintf_fails:
  "\<not> (malloc_ok E (next_alloc st) \<and> \<not> n \<le> length s) \<Longrightarrow> \<exists>f. malloc_sprintf E n s st = Inl f"
  by (auto simp: malloc_sprintf_def)

lemma password_kept:
  assumes "c = c0\<lparr>host := h, username := u\<rparr>"
  shows "c = c0\<lparr>host := h, username := u, password := password c\<rparr>"
  unfolding assms by (cases c0) simp

lemma default_password_ok:
  assumes "owns_but b (next_alloc st) (conf st)"
  shows "owns_but b (Suc (next_alloc st)) ((conf st)\<lparr>password := fst (c_strdup E s st)\<rparr>)"
  using string_fields(9) _ assms fresh_strdup by (rule owns_but_field) simp

lemma default_login_ok:
  assumes "st_owns st"
  shows "login_ok E st (default_login E st)"
proof -
  let ?b = "host (conf st) = CNull"
  let ?c1 = "if ?b then (conf st)\<lparr>host := CLit ''localhost''\<rparr> else conf st"
  let ?st1 = "st\<lparr>conf := ?c1\<rparr>"
  have start: "(if ?b then st\<lparr>conf := (conf st)\<lparr>host := CLit ''localhost''\<rparr>\<rparr> else st) = ?st1" by simp
  have own1: "owns_but ?b (next_alloc ?st1) (conf ?st1)"
    using owns_but_start assms by (simp add: st_owns_def)
  have pw: "login_ok E st (if password (conf s) = CNull
      then (case c_strdup E ''codein.tv'' s of (p, s) \<Rightarrow> Inr (s\<lparr>conf := (conf s)\<lparr>password := p\<rparr>\<rparr>))
      else Inr s)"
    if "owns_but ?b (next_alloc s) (conf s)" "next_alloc st \<le> next_alloc s" "err_lines s = err_lines st"
      "username (conf s) \<noteq> CNull" "conf s = ?c1\<lparr>username := username (conf s)\<rparr>" for s
  proof -
    have c5: "conf s = (conf st)\<lparr>host := if ?b then CLit ''localhost'' else host (conf st), username := username (conf s)\<rparr>"
      using that(5) by (cases ?b) (simp_all split: if_splits)
    have c6: "conf s = (conf st)\<lparr>host := if ?b then CLit ''localhost'' else host (conf st),
        username := username (conf s), password := password (conf s)\<rparr>"
      using c5 by (rule password_kept)
    show ?thesis
    proof (cases "password (conf s) = CNull")
      case True
      obtain p s' where d: "c_strdup E ''codein.tv'' s = (p, s')" by fastforce
      have p: "fst (c_strdup E ''codein.tv'' s) = p" "conf s' = conf s" "err_lines s' = err_lines s"
        "next_alloc s' = Suc (next_alloc s)" "(\<forall>n. malloc_ok E n) \<Longrightarrow> p \<noteq> CNull"
        using d by (auto simp: c_strdup_def)
      have "owns_but ?b (Suc (next_alloc s)) ((conf s)\<lparr>password := p\<rparr>)"
        using default_password_ok [OF that(1), of E "''codein.tv''"] p(1) by simp
      then show ?thesis
        using True that(2-4) p(2-) c5 by (simp add: d login_ok_def)
    next
      case False
      then show ?thesis using that(1-4) c6 by (simp add: login_ok_def)
    qed
  qed
  show ?thesis
  proof (cases "username (conf st) = CNull")
    case False
    then have u: "username ?c1 \<noteq> CNull" by simp
    have "login_ok E st (if password (conf ?st1) = CNull
        then (case c_strdup E ''codein.tv'' ?st1 of (p, s) \<Rightarrow> Inr (s\<lparr>conf := (conf s)\<lparr>password := p\<rparr>\<rparr>))
        else Inr ?st1)"
      by (rule pw) (use own1 u in simp_all)
    with u show ?thesis unfolding default_login_def Let_def start by simp
  next
    case True
    then have u: "username ?c1 = CNull" by simp
    show ?thesis
    proof (cases "anon_uid E")
      case (Inl f)
      then have "\<not> lrand48_ok E" using anon_uid_eq [of E] by auto
      with Inl u show ?thesis unfolding default_login_def Let_def start by (simp add: login_ok_def)
    next
      case (Inr uid)
      let ?p = "CHeap (next_alloc st) (dec_int uid)"
      let ?st2 = "?st1\<lparr>next_alloc := Suc (next_alloc st), conf := ?c1\<lparr>username := ?p\<rparr>\<rparr>"
      have fits: "lrand48_ok E \<Longrightarrow> \<not> 24 \<le> length (dec_int uid)"
        using length_anon_uid [OF Inr] anon_uid_eq [of E] Inr by (simp add: lrand48_ok_def)
      have own2: "owns_but ?b (Suc (next_alloc st)) (?c1\<lparr>username := ?p\<rparr>)"
        by (rule owns_but_field [OF string_fields(8)]) (use own1 in simp_all)
      have ok: "login_ok E st (if password (conf ?st2) = CNull
          then (case c_strdup E ''codein.tv'' ?st2 of (p, s) \<Rightarrow> Inr (s\<lparr>conf := (conf s)\<lparr>password := p\<rparr>\<rparr>))
          else Inr ?st2)"
        by (rule pw) (use own2 in simp_all)
      show ?thesis
      proof (cases "malloc_ok E (next_alloc st) \<and> \<not> 24 \<le> length (dec_int uid)")
        case True
        then have s: "malloc_sprintf E 24 (dec_int uid) ?st1 =
            Inr (?p, ?st1\<lparr>next_alloc := Suc (next_alloc st)\<rparr>)"
          by (simp add: malloc_sprintf_def)
        have "default_login E st = (if password (conf ?st2) = CNull
            then (case c_strdup E ''codein.tv'' ?st2 of (p, s) \<Rightarrow> Inr (s\<lparr>conf := (conf s)\<lparr>password := p\<rparr>\<rparr>))
            else Inr ?st2)"
          unfolding default_login_def Let_def start using u Inr s by simp
        then show ?thesis using ok by (simp only:)
      next
        case False
        then obtain f where s: "malloc_sprintf E 24 (dec_int uid) ?st1 = Inl f"
          using malloc_sprintf_fails [of E ?st1 24] by auto
        have "default_login E st = Inl f"
          unfolding default_login_def Let_def start using u Inr s by simp
        then show ?thesis using False fits by (auto simp: login_ok_def)
      qed
    qed
  qed
qed

text \<open>The defaults of the subscriber.\<close>

definition needs_id :: "mosq_config \<Rightarrow> bool" where
  "needs_id c \<longleftrightarrow> \<not> clean_session c \<and> (id_prefix c \<noteq> CNull \<or> client_id c = CNull)"

lemma default_sub_refused:
  "needs_id (conf st) \<Longrightarrow> default_sub E st = Inr (1, warn_unless_quiet
     ''Error: You must provide a client id if you are using the -c option.'' st)"
  by (simp add: default_sub_def needs_id_def)

lemma warn_conf [simp]: "conf (warn_unless_quiet m st) = conf st" "next_alloc (warn_unless_quiet m st) = next_alloc st"
  by (simp_all add: warn_unless_quiet_def log_err_def)

text \<open>
  The subscriber gets a topic to subscribe to and one to publish to; a user name of more than 37
  characters does not fit the buffer for the former.
\<close>

lemma default_sub_topic_cases:
  assumes "\<forall>n. malloc_ok E n" "deref (username (conf st)) = Inr u"
  shows "if 38 \<le> length u then default_sub_topic E st = Inl Buffer_Overflow
    else \<exists>st'. default_sub_topic E st = Inr st' \<and> topic (conf st') \<noteq> CNull \<and>
      topics (conf st') = [CHeap (Suc (next_alloc st)) (''codein/live/'' @ u)] \<and>
      conf st' = (conf st)\<lparr>topics := topics (conf st'), topic := topic (conf st')\<rparr> \<and>
      (topic (conf st) = CNull \<longrightarrow> show_ptr (topic (conf st')) = ''codein/live'') \<and>
      (topic (conf st) \<noteq> CNull \<longrightarrow> topic (conf st') = topic (conf st))"
proof -
  have keep: "c\<lparr>topics := ts\<rparr> = c\<lparr>topics := ts, topic := topic c\<rparr>" for c :: mosq_config and ts
    by (cases c) simp
  show ?thesis
    using assms
    by (auto simp: default_sub_topic_def malloc_sprintf_def Let_def c_strdup_def intro: keep)
qed

lemma default_sub_cases:
  assumes "\<forall>n. malloc_ok E n" "deref (username (conf st)) = Inr u" "\<not> needs_id (conf st)"
    "CNull \<notin> set (topics (conf st))"
  shows "if topics (conf st) = [] \<and> 38 \<le> length u then default_sub E st = Inl Buffer_Overflow
    else \<exists>st'. default_sub E st = Inr (0, st') \<and> topic (conf st') \<noteq> CNull \<and> topics (conf st') \<noteq> [] \<and>
      CNull \<notin> set (topics (conf st')) \<and>
      conf st' = (conf st)\<lparr>topics := topics (conf st'), topic := topic (conf st')\<rparr> \<and>
      (topics (conf st) = [] \<longrightarrow> map show_ptr (topics (conf st')) = [''codein/live/'' @ u]) \<and>
      (topics (conf st) = [] \<and> topic (conf st) = CNull \<longrightarrow> show_ptr (topic (conf st')) = ''codein/live'')"
proof (cases "topics (conf st) = []")
  case True
  then show ?thesis
    using default_sub_topic_cases [OF assms(1,2)] assms(3)
    by (auto simp: default_sub_def needs_id_def topic_count_def Let_def)
next
  case False
  then have t: "topics (conf st) ! 0 \<noteq> CNull" using assms(4) by (metis length_greater_0_conv nth_mem)
  have same: "(conf st)\<lparr>topic := x\<rparr> = (conf st)\<lparr>topics := topics (conf st), topic := x\<rparr>"
    "conf st = (conf st)\<lparr>topics := topics (conf st), topic := topic (conf st)\<rparr>" for x
    by (cases "conf st"; simp)+
  show ?thesis
    using False t assms(3,4) same
    by (cases "topic (conf st) = CNull")
      (auto simp: default_sub_def needs_id_def topic_count_def Let_def)
qed

section \<open>The whole load\<close>

text \<open>The stages: up to the checks every error leaves a configuration that owns its strings.\<close>

lemma load_stages:
  assumes "client_config_load E mode args = r"
  obtains (fault) f where "r = Inl f" "\<not> (\<forall>n. malloc_ok E n) \<or> f = Out_Of_Bounds \<and> config_path E mode \<noteq> None"
  | (failed) rc st where "r = Inr (rc, st)" "rc = 1 \<or> rc = 2" "st_owns st"
  | (checked) st where "parse_inv E st" "consistent E (conf st)" "load_defaults E mode st = r"
proof -
  have start: "parse_inv E (load_start E)" by (simp add: load_start_def parse_inv_init)
  have lf: "file_ok E (load_file E mode (load_start E))" using start by (rule load_file_ok)
  show thesis
  proof (cases "load_file E mode (load_start E)")
    case (Inl f)
    have "config_path E mode \<noteq> None" using Inl by (cases "config_path E mode") (auto simp: load_file_def)
    with Inl lf assms show thesis
      by (intro fault [of f]) (auto simp: client_config_load_def file_ok_def)
  next
    case (Inr x)
    obtain rc st where x: "x = (rc, st)" by (cases x)
    show thesis
    proof (cases "rc = 0")
      case False
      with Inr x lf assms show thesis
        by (intro failed [of rc st]) (auto simp: client_config_load_def file_ok_def)
    next
      case True
      with Inr x lf have inv: "parse_inv E st" by (simp add: file_ok_def)
      have lo: "line_ok E st (client_config_line_proc E mode args st)" using inv by (rule line_proc_ok)
      show thesis
      proof (cases "client_config_line_proc E mode args st")
        case inl: (Inl f)
        with Inr x True lo assms show thesis
          by (intro fault [of f]) (auto simp: client_config_load_def line_ok_def)
      next
        case inr: (Inr y)
        obtain rc2 st2 where y: "y = (rc2, st2)" by (cases y)
        show thesis
        proof (cases "rc2 = 0")
          case rc2: False
          with Inr x True inr y lo assms show thesis
            by (intro failed [of rc2 st2]) (auto simp: client_config_load_def line_ok_def)
        next
          case rc2: True
          with inr y lo have inv2: "parse_inv E st2" by (simp add: line_ok_def)
          obtain rc3 st3 where c: "check_config E st2 = (rc3, st3)" by fastforce
          have pr: "conf st3 = conf st2" "next_alloc st3 = next_alloc st2" "rc3 = 0 \<or> rc3 = 1"
            using check_config_prints [of st2 E] by (simp_all add: c only_prints_def)
          then have inv3: "parse_inv E st3" using parse_inv_same_conf [OF inv2] by simp
          show thesis
          proof (cases "rc3 = 0")
            case rc3: True
            have "consistent E (conf st3)"
              using check_config_zero_iff [of E st2] by (simp add: c rc3 pr(1))
            moreover have "load_defaults E mode st3 = r"
              using assms by (simp add: client_config_load_def Inr x True inr y rc2 c rc3)
            ultimately show thesis using inv3 by (intro checked)
          next
            case rc3: False
            have "st_owns st3" using inv3 by (simp add: parse_inv_def)
            moreover have "r = Inr (rc3, st3)"
              using assms rc3 by (simp add: client_config_load_def Inr x True inr y rc2 c)
            ultimately show thesis using rc3 pr(3) by (intro failed [of rc3 st3]) auto
          qed
        qed
      qed
    qed
  qed
qed

text \<open>Freeing a configuration whose host is a literal.\<close>

lemma cleanup_literal_host:
  assumes "owns_but True n c" "host c = CLit s"
  shows "client_config_cleanup E c = Inl Bad_Free"
proof -
  have "\<exists>ps. (all_ptrs c)[2 := CNull] = client_id c # id_prefix c # CNull # ps"
    by (simp add: ptr_lists eval_nat_numeral)
  then obtain ps where "owned_list n (client_id c # id_prefix c # CNull # ps)"
    using assms(1) by (auto simp: owns_but_def masked_def)
  then have "\<not> is_lit (client_id c)" "\<not> is_lit (id_prefix c)" "distinct (heap_ids [client_id c, id_prefix c])"
    by (cases "client_id c"; cases "id_prefix c"; simp add: owned_list_def)+
  then show ?thesis
    by (cases "client_id c"; cases "id_prefix c")
      (auto simp: client_config_cleanup_def cleanup_ptrs_def assms(2))
qed

lemma owns_but_False: "owns_but False n c = owns n c"
  by (simp add: owns_but_def masked_def owns_owned_list)

lemma login_fields:
  assumes "c = c0\<lparr>host := h, username := u, password := p\<rparr>"
  shows "host c = h" "topics c = topics c0" "topic c = topic c0" "in_range E c = in_range E c0"
    "consistent E c = consistent E c0" "needs_id c = needs_id c0" "quiet c = quiet c0"
  unfolding assms by (simp_all add: in_range_def consistent_def needs_id_def)

lemma topic_fields:
  assumes "c = c0\<lparr>topics := ts, topic := t\<rparr>"
  shows "host c = host c0" "username c = username c0" "password c = password c0"
    "consistent E c = consistent E c0" "needs_id c = needs_id c0"
    "in_range E c0 \<Longrightarrow> ((\<forall>n. malloc_ok E n) \<Longrightarrow> CNull \<notin> set ts) \<Longrightarrow> in_range E c"
  unfolding assms by (auto simp: in_range_def consistent_def needs_id_def)

text \<open>A refused load.\<close>

lemma failed_load_cleanup:
  assumes "client_config_load E mode args = Inr (rc, st)" "rc \<noteq> 0"
  shows "if is_lit (host (conf st)) then client_config_cleanup E (conf st) = Inl Bad_Free
    else \<exists>freed. client_config_cleanup E (conf st) = Inr freed"
  using assms(1)
proof (cases rule: load_stages)
  case (failed rc' st')
  then have own: "st_owns st" by simp
  then have "\<not> is_lit (host (conf st))"
    by (simp add: st_owns_def owns_def ptr_lists)
  with own show ?thesis using cleanup_of_owned by (simp add: st_owns_def)
next
  case (checked st0)
  have own0: "st_owns st0" using checked(1) by (simp add: parse_inv_def)
  have lok: "login_ok E st0 (default_login E st0)" using own0 by (rule default_login_ok)
  obtain st1 where l: "default_login E st0 = Inr st1"
    using checked(3) by (cases "default_login E st0") (auto simp: load_defaults_def)
  have own1: "owns_but (host (conf st0) = CNull) (next_alloc st1) (conf st1)"
    using lok unfolding l login_ok_def by simp
  have host: "host (conf st1) = (if host (conf st0) = CNull then CLit ''localhost'' else host (conf st0))"
    by (rule login_fields(1)) (use lok in \<open>unfold l login_ok_def sum.case, blast\<close>)
  have d: "mode = CLIENT_SUB" "default_sub E st1 = Inr (rc, st)"
    using checked(3) assms(2) by (auto simp: load_defaults_def l split: if_splits)
  have "conf st = conf st1"
    using d(2) assms(2)
    by (auto simp: default_sub_def Let_def fault_simps split: if_splits)
  moreover have "\<not> is_lit (host (conf st0))"
    using own0 by (simp add: st_owns_def owns_def ptr_lists)
  ultimately show ?thesis
    using own1 host cleanup_literal_host [of "next_alloc st1" "conf st1"] cleanup_of_owned
    by (cases "host (conf st0) = CNull") (auto simp: owns_but_False)
qed simp

text \<open>An accepted load: everything the callbacks and the connection need is there.\<close>

definition complete :: "client_mode \<Rightarrow> mosq_config \<Rightarrow> bool" where
  "complete mode c \<longleftrightarrow> host c \<noteq> CNull \<and> username c \<noteq> CNull \<and> password c \<noteq> CNull \<and>
     (mode = CLIENT_SUB \<longrightarrow> topics c \<noteq> [] \<and> topic c \<noteq> CNull \<and> \<not> needs_id c)"

text \<open>The results of the defaults, when the allocator and \<open>lrand48\<close> keep their promises.\<close>

lemma load_defaults_cases:
  assumes "\<forall>n. malloc_ok E n" "lrand48_ok E" "parse_inv E st" "consistent E (conf st)"
  shows "load_defaults E mode st = Inl Buffer_Overflow \<and> mode = CLIENT_SUB \<and> topics (conf st) = [] \<or>
    (\<exists>st'. load_defaults E mode st = Inr (1, st') \<and> mode = CLIENT_SUB \<and> needs_id (conf st')) \<or>
    (\<exists>st'. load_defaults E mode st = Inr (0, st') \<and> complete mode (conf st') \<and> in_range E (conf st') \<and>
       consistent E (conf st'))"
proof -
  have own: "st_owns st" and range: "in_range E (conf st)" using assms(3) by (simp_all add: parse_inv_def)
  have lok: "login_ok E st (default_login E st)" using own by (rule default_login_ok)
  obtain st1 where l: "default_login E st = Inr st1"
    using lok assms(1,2) by (cases "default_login E st") (auto simp: login_ok_def)
  have c1: "conf st1 = (conf st)\<lparr>host := if host (conf st) = CNull then CLit ''localhost'' else host (conf st),
      username := username (conf st1), password := password (conf st1)\<rparr>"
    using lok unfolding l login_ok_def sum.case by blast
  have up: "username (conf st1) \<noteq> CNull" "password (conf st1) \<noteq> CNull"
    using lok assms(1) unfolding l login_ok_def sum.case by blast+
  have h: "host (conf st1) \<noteq> CNull" using login_fields(1) [OF c1] by simp
  have r1: "in_range E (conf st1)" "consistent E (conf st1)"
    using login_fields(4,5) [OF c1] range assms(4) by simp_all
  have nn: "CNull \<notin> set (topics (conf st1))" using r1(1) assms(1) by (simp add: in_range_def)
  obtain u where u: "deref (username (conf st1)) = Inr u"
    using up(1) by (cases "username (conf st1)") auto
  show ?thesis
  proof (cases "mode = CLIENT_SUB")
    case False
    then show ?thesis using l h up r1 by (simp add: load_defaults_def complete_def)
  next
    case sub: True
    show ?thesis
    proof (cases "needs_id (conf st1)")
      case True
      then show ?thesis using l sub by (simp add: load_defaults_def default_sub_refused)
    next
      case False
      note dc = default_sub_cases [OF assms(1) u False nn]
      show ?thesis
      proof (cases "topics (conf st1) = [] \<and> 38 \<le> length u")
        case True
        then show ?thesis using dc l sub login_fields(2) [OF c1] by (simp add: load_defaults_def)
      next
        case fits: False
        then obtain st' where d: "default_sub E st1 = Inr (0, st')" "topic (conf st') \<noteq> CNull"
          "topics (conf st') \<noteq> []" "CNull \<notin> set (topics (conf st'))"
          and c2: "conf st' = (conf st1)\<lparr>topics := topics (conf st'), topic := topic (conf st')\<rparr>"
          using dc by auto
        have "complete mode (conf st')"
          using d h up False topic_fields(1-3,5) [OF c2] by (simp add: complete_def)
        moreover have "in_range E (conf st')" "consistent E (conf st')"
          using topic_fields(6) [OF c2 r1(1)] topic_fields(4) [OF c2] d(4) r1(2) by simp_all
        ultimately show ?thesis using d(1) l sub by (simp add: load_defaults_def)
      qed
    qed
  qed
qed

text \<open>The run without configuration file and arguments.\<close>

lemma load_without_file:
  assumes "config_path E mode = None"
  shows "client_config_load E mode args =
    and_then (client_config_line_proc E mode args
        (log_err ''Warning: Unable to locate configuration directory, default config not loaded.'' (load_start E)))
      (\<lambda>(rc, st). if rc \<noteq> 0 then Inr (rc, st)
        else (case check_config E st of (rc, st) \<Rightarrow> if rc \<noteq> 0 then Inr (rc, st) else load_defaults E mode st))"
  using assms by (simp add: client_config_load_def load_file_def)

text \<open>The defaults from a configuration in which at most the user name was given.\<close>

definition only_username :: "client_env \<Rightarrow> cptr \<Rightarrow> mosq_config" where
  "only_username E u = (init_config E)\<lparr>username := u\<rparr>"

definition warned :: "client_env \<Rightarrow> pstate" where
  "warned E =
     log_err ''Warning: Unable to locate configuration directory, default config not loaded.'' (load_start E)"

lemma check_only_username:
  "conf st = only_username E u \<Longrightarrow> check_config E st = (0, st)"
  by (simp add: check_config_def check_tls_def Let_def only_username_def init_config_def)

lemma default_login_named:
  assumes "\<forall>n. malloc_ok E n" "conf st = only_username E (CHeap k u)"
  shows "\<exists>st'. default_login E st = Inr st' \<and>
    conf st' = (only_username E (CHeap k u))\<lparr>host := CLit ''localhost'', password := CHeap (next_alloc st) ''codein.tv''\<rparr>"
  using assms
  by (simp add: default_login_def Let_def only_username_def init_config_def c_strdup_def)

lemma default_login_anonymous:
  assumes "\<forall>n. malloc_ok E n" "anon_uid E = Inr uid" "0 \<le> uid" "conf st = only_username E CNull"
  shows "\<exists>st' k j. default_login E st = Inr st' \<and>
    conf st' = (only_username E (CHeap k (dec_int uid)))\<lparr>host := CLit ''localhost'', password := CHeap j ''codein.tv''\<rparr>"
  using assms length_anon_uid [OF assms(2,3)]
  by (simp add: default_login_def Let_def only_username_def init_config_def c_strdup_def malloc_sprintf_def)

lemma defaults_named:
  assumes "\<forall>n. malloc_ok E n" "default_login E st = Inr st1"
    "conf st1 = (only_username E (CHeap k u))\<lparr>host := CLit ''localhost'', password := CHeap j ''codein.tv''\<rparr>"
  shows "if 38 \<le> length u then load_defaults E CLIENT_SUB st = Inl Buffer_Overflow
    else \<exists>st'. load_defaults E CLIENT_SUB st = Inr (0, st') \<and>
      show_ptr (username (conf st')) = u \<and> show_ptr (password (conf st')) = ''codein.tv'' \<and>
      host (conf st') = CLit ''localhost'' \<and> port (conf st') = 1883 \<and>
      map show_ptr (topics (conf st')) = [''codein/live/'' @ u] \<and>
      show_ptr (topic (conf st')) = ''codein/live''"
proof -
  have c: "deref (username (conf st1)) = Inr u" "\<not> needs_id (conf st1)" "topics (conf st1) = []"
    "topic (conf st1) = CNull"
    by (simp_all add: assms(3) only_username_def init_config_def needs_id_def)
  note dc = default_sub_cases [OF assms(1) c(1,2)]
  show ?thesis
  proof (cases "38 \<le> length u")
    case True
    then show ?thesis using dc c(3) assms(2) by (simp add: load_defaults_def)
  next
    case False
    then obtain st' where d: "default_sub E st1 = Inr (0, st')"
      "map show_ptr (topics (conf st')) = [''codein/live/'' @ u]" "show_ptr (topic (conf st')) = ''codein/live''"
      and c2: "conf st' = (conf st1)\<lparr>topics := topics (conf st'), topic := topic (conf st')\<rparr>"
      using dc c(3,4) by auto
    have "port (conf st') = port (conf st1)" by (subst c2) simp
    moreover have "load_defaults E CLIENT_SUB st = Inr (0, st')"
      using assms(2) d(1) by (simp add: load_defaults_def)
    moreover have "username (conf st1) = CHeap k u" "password (conf st1) = CHeap j ''codein.tv''"
      "host (conf st1) = CLit ''localhost''" "port (conf st1) = 1883"
      by (simp_all add: assms(3) only_username_def init_config_def)
    ultimately show ?thesis
      using False d topic_fields(1-3) [OF c2] by simp
  qed
qed

lemma load_no_arguments:
  assumes "config_path E CLIENT_SUB = None" "\<forall>n. malloc_ok E n" "lrand48_ok E"
  shows "\<exists>st. client_config_load E CLIENT_SUB [] = Inr (0, st) \<and>
    show_ptr (username (conf st)) = dec_int (lrand48_value E + 9223372000000000000) \<and>
    show_ptr (password (conf st)) = ''codein.tv'' \<and> host (conf st) = CLit ''localhost'' \<and> port (conf st) = 1883 \<and>
    map show_ptr (topics (conf st)) = [''codein/live/'' @ dec_int (lrand48_value E + 9223372000000000000)] \<and>
    show_ptr (topic (conf st)) = ''codein/live''"
proof -
  let ?uid = "lrand48_value E + 9223372000000000000"
  have uid: "anon_uid E = Inr ?uid" "0 \<le> ?uid" using assms(3) anon_uid_eq by (auto simp: lrand48_ok_def)
  have c: "conf (warned E) = only_username E CNull"
    by (simp add: warned_def log_err_def load_start_def only_username_def init_config_def)
  obtain st1 k j where "default_login E (warned E) = Inr st1"
    "conf st1 = (only_username E (CHeap k (dec_int ?uid)))\<lparr>host := CLit ''localhost'', password := CHeap j ''codein.tv''\<rparr>"
    using default_login_anonymous [OF assms(2) uid c] by blast
  from defaults_named [OF assms(2) this] length_anon_uid [OF uid] show ?thesis
    using load_without_file [OF assms(1), of "[]"] check_only_username [OF c]
    by (simp add: warned_def)
qed

lemma if_else_mono: "if c then P else Q \<Longrightarrow> (Q \<Longrightarrow> R) \<Longrightarrow> if c then P else R"
  by (simp split: if_splits)

lemma option_u:
  "malloc_ok E (next_alloc st) \<Longrightarrow> client_config_line_proc E mode [''-u'', u] st =
    Inr (0, st\<lparr>next_alloc := Suc (next_alloc st), conf := (conf st)\<lparr>username := CHeap (next_alloc st) u\<rparr>\<rparr>)"
  by (simp add: chain_defs opt_arg_def set_dup_def c_strdup_def)

lemma load_username:
  assumes "config_path E CLIENT_SUB = None" "\<forall>n. malloc_ok E n"
  shows "if 38 \<le> length u then client_config_load E CLIENT_SUB [''-u'', u] = Inl Buffer_Overflow
    else \<exists>st. client_config_load E CLIENT_SUB [''-u'', u] = Inr (0, st) \<and>
      map show_ptr (topics (conf st)) = [''codein/live/'' @ u]"
proof -
  let ?st = "(warned E)\<lparr>next_alloc := Suc (next_alloc (warned E)),
    conf := (conf (warned E))\<lparr>username := CHeap (next_alloc (warned E)) u\<rparr>\<rparr>"
  have c: "conf ?st = only_username E (CHeap (next_alloc (warned E)) u)"
    by (simp add: warned_def log_err_def load_start_def only_username_def)
  have eq: "client_config_load E CLIENT_SUB [''-u'', u] = load_defaults E CLIENT_SUB ?st"
    using load_without_file [OF assms(1), of "[''-u'', u]"] option_u [of E "warned E" CLIENT_SUB u]
      assms(2) check_only_username [OF c]
    by (simp add: warned_def)
  obtain st1 where st1: "default_login E ?st = Inr st1"
    "conf st1 = (only_username E (CHeap (next_alloc (warned E)) u))
      \<lparr>host := CLit ''localhost'', password := CHeap (next_alloc ?st) ''codein.tv''\<rparr>"
    using default_login_named [OF assms(2) c] by blast
  show ?thesis
    unfolding eq using defaults_named [OF assms(2) st1]
  proof (rule if_else_mono)
    assume "\<exists>st'. load_defaults E CLIENT_SUB ?st = Inr (0, st') \<and>
      show_ptr (username (conf st')) = u \<and> show_ptr (password (conf st')) = ''codein.tv'' \<and>
      host (conf st') = CLit ''localhost'' \<and> port (conf st') = 1883 \<and>
      map show_ptr (topics (conf st')) = [''codein/live/'' @ u] \<and>
      show_ptr (topic (conf st')) = ''codein/live''"
    then show "\<exists>st. load_defaults E CLIENT_SUB ?st = Inr (0, st) \<and>
      map show_ptr (topics (conf st)) = [''codein/live/'' @ u]"
      by (elim exE conjE) (intro exI conjI)
  qed
qed

section \<open>A file is a command line\<close>

text \<open>The lines an option file is meant to have: an option, or an option and its argument.\<close>

definition word_char :: "char \<Rightarrow> bool" where
  "word_char c \<longleftrightarrow> c \<noteq> CHR '' '' \<and> \<not> is_eol c \<and> c \<noteq> CHR 0x00"

definition word_wf :: "string \<Rightarrow> bool" where
  "word_wf w \<longleftrightarrow> w \<noteq> [] \<and> list_all word_char w"

fun line_text :: "string list \<Rightarrow> string" where
  "line_text [a, b] = a @ CHR '' '' # b"
| "line_text l = concat l"

fun line_wf :: "string list \<Rightarrow> bool" where
  "line_wf [a] = (word_wf a \<and> hd a \<noteq> CHR ''#'' \<and> length a < 1023)"
| "line_wf [a, b] = (word_wf a \<and> word_wf b \<and> hd a \<noteq> CHR ''#'' \<and> Suc (length a + length b) < 1023)"
| "line_wf _ = False"

definition file_text :: "string list list \<Rightarrow> string" where
  "file_text ls = concat (map (\<lambda>l. line_text l @ [newline]) ls)"

lemma fgets_line_eol:
  assumes "newline \<notin> set l" "length l < 1023"
  shows "fgets_line (l @ newline # r) = (l @ [newline], r)"
proof -
  have t: "take 1023 (l @ newline # r) = l @ newline # take (1023 - Suc (length l)) r"
    using assms(2) by (simp add: take_Cons')
  have "takeWhile (\<lambda>c. c \<noteq> newline) (l @ newline # ys) = l" for ys
    using assms(1) takeWhile_up_to by fastforce
  then show ?thesis unfolding fgets_line_def Let_def t by simp
qed

lemma word_facts:
  assumes "word_wf w"
  shows "w \<noteq> []" "newline \<notin> set w" "CHR 0x00 \<notin> set w" "CHR '' '' \<notin> set w" "\<not> is_eol (last w)"
proof -
  have w: "w \<noteq> []" "\<forall>c \<in> set w. word_char c"
    using assms by (simp_all add: word_wf_def list_all_iff)
  have n: "\<not> word_char newline" "\<not> word_char CHR 0x00" "\<not> word_char CHR '' ''"
    by (simp_all add: word_char_def is_eol_def)
  show "w \<noteq> []" "newline \<notin> set w" "CHR 0x00 \<notin> set w" "CHR '' '' \<notin> set w" using w n by blast+
  have "word_char (last w)" using w by simp
  then show "\<not> is_eol (last w)" by (simp add: word_char_def)
qed

lemma blank_not_eol: "newline \<noteq> CHR '' ''"
  by (simp add: newline_def)

lemma line_wf_text:
  assumes "line_wf l"
  shows "line_text l \<noteq> []" "newline \<notin> set (line_text l)" "CHR 0x00 \<notin> set (line_text l)"
    "hd (line_text l) \<noteq> CHR ''#''" "\<not> is_eol (last (line_text l))" "length (line_text l) < 1023"
    "line_args (line_text l) = l"
proof -
  have "line_text l \<noteq> [] \<and> newline \<notin> set (line_text l) \<and> CHR 0x00 \<notin> set (line_text l) \<and>
    hd (line_text l) \<noteq> CHR ''#'' \<and> \<not> is_eol (last (line_text l)) \<and> length (line_text l) < 1023 \<and>
    line_args (line_text l) = l"
  proof (cases l rule: line_wf.cases)
    case (1 a)
    then have a: "word_wf a" "hd a \<noteq> CHR ''#''" "length a < 1023" using assms by simp_all
    have "strtok_space [] = None" by (simp add: strtok_space_def)
    with a word_facts [OF a(1)] strtok_space_word(2) [of a] show ?thesis
      by (simp add: 1 line_args_def)
  next
    case (2 a b)
    then have a: "word_wf a" "word_wf b" "hd a \<noteq> CHR ''#''" "Suc (length a + length b) < 1023"
      using assms by simp_all
    with word_facts [OF a(1)] word_facts [OF a(2)] strtok_space_word(1) [of a b] strtok_space_word(2) [of b]
      blank_not_eol
    show ?thesis by (simp add: 2 line_args_def)
  qed (use assms in simp_all)
  then show "line_text l \<noteq> []" "newline \<notin> set (line_text l)" "CHR 0x00 \<notin> set (line_text l)"
    "hd (line_text l) \<noteq> CHR ''#''" "\<not> is_eol (last (line_text l))" "length (line_text l) < 1023"
    "line_args (line_text l) = l" by blast+
qed

lemma strip_eol_line:
  assumes "l \<noteq> []" "\<not> is_eol (last l)"
  shows "strip_eol (l @ [newline]) = Inr l"
proof -
  have "strip_eol (l @ [newline]) = strip_eol l"
    by (subst strip_eol.simps) (simp add: is_eol_def)
  also have "\<dots> = Inr l" using assms by (subst strip_eol.simps) simp
  finally show ?thesis .
qed

lemma load_lines_line:
  assumes "line_wf l"
  shows "load_lines E mode (line_text l @ newline # r) st =
    and_then (client_config_line_proc E mode l st) (\<lambda>(rc, st).
      if rc \<noteq> 0 then Inr (rc, st) else load_lines E mode r st)"
proof -
  note w = line_wf_text [OF assms]
  have f: "fgets_line (line_text l @ newline # r) = (line_text l @ [newline], r)"
    using w(2,6) by (rule fgets_line_eol)
  have "\<forall>x \<in> set (line_text l @ [newline]). x \<noteq> CHR 0x00" using w(3) by (auto simp: newline_def)
  then have c: "c_str (line_text l @ [newline]) = line_text l @ [newline]"
    unfolding c_str_def by (rule takeWhile_all)
  have "l \<noteq> []" using assms by auto
  then show ?thesis
    using w(1,4) strip_eol_line [OF w(1,5)]
    by (subst load_lines.simps) (simp add: f c w(7) Let_def)
qed

lemma file_as_arguments:
  assumes "parse_inv E st" "list_all line_wf ls" "load_lines E mode (file_text ls) st = Inr (0, st')"
  shows "client_config_line_proc E mode (concat ls) st = Inr (0, st')"
  using assms
proof (induction ls arbitrary: st)
  case Nil
  then show ?case by (simp add: file_text_def load_lines.simps)
next
  case (Cons l ls)
  have "load_lines E mode (line_text l @ newline # file_text ls) st = Inr (0, st')"
    using Cons.prems(3) by (simp add: file_text_def)
  then have "and_then (client_config_line_proc E mode l st) (\<lambda>(rc, st).
      if rc \<noteq> 0 then Inr (rc, st) else load_lines E mode (file_text ls) st) = Inr (0, st')"
    using load_lines_line [of l E mode "file_text ls" st] Cons.prems(2) by simp
  then obtain st1 where st1: "client_config_line_proc E mode l st = Inr (0, st1)"
    "load_lines E mode (file_text ls) st1 = Inr (0, st')"
    by (auto simp: fault_simps split: if_splits)
  then show ?case
    using Cons.IH [of st1] Cons.prems(1,2) line_proc_zero [OF Cons.prems(1) st1(1)]
      line_proc_append [OF Cons.prems(1) st1(1)]
    by simp
qed

lemma blank_line: "load_lines E mode (newline # r) st = Inl Out_Of_Bounds"
proof -
  have f: "fgets_line (newline # r) = ([newline], r)"
    using fgets_line_eol [of "[]" r] by simp
  have "newline \<noteq> CHR ''#''" by (simp add: newline_def)
  moreover have "c_str [newline] = [newline]" by (simp add: c_str_def newline_def)
  moreover have "strip_eol [newline] = Inl Out_Of_Bounds"
    by (simp add: strip_eol.simps is_eol_def)
  ultimately show ?thesis by (subst load_lines.simps) (simp add: f)
qed

section \<open>Properties\<close>

text \<open>
  C4. An accepted load is complete: host, user name and password are there, every checked number is in
  range, the will, certificate and key options are consistent, and the subscriber has a topic to
  subscribe to, one to publish to, and an identifier if it keeps its session.
\<close>

theorem accepted_load_complete:
  assumes "client_config_load E mode args = Inr (0, st)" "\<forall>n. malloc_ok E n" "lrand48_ok E"
  shows "complete mode (conf st) \<and> in_range E (conf st) \<and> consistent E (conf st)"
  using assms(1)
proof (cases rule: load_stages)
  case (checked st0)
  from load_defaults_cases [OF assms(2,3) checked(1,2), of mode] checked(3) show ?thesis by auto
qed simp_all

definition bare_env :: client_env where
  "bare_env = sample_env\<lparr>env_home := None\<rparr>"

lemma bare_env_simps [simp]:
  "malloc_ok bare_env n" "lrand48_value bare_env = 77" "lrand48_ok bare_env" "config_path bare_env mode = None"
  by (simp_all add: bare_env_def sample_env_def lrand48_ok_def config_path_def)

theorem accepted_load_complete_witness:
  "\<exists>st. client_config_load bare_env CLIENT_SUB [] = Inr (0, st) \<and> complete CLIENT_SUB (conf st)"
proof -
  obtain st where "client_config_load bare_env CLIENT_SUB [] = Inr (0, st)"
    using load_no_arguments [of bare_env] by auto
  with accepted_load_complete [OF this] show ?thesis by auto
qed

text \<open>
  C38. Without a configuration directory and arguments the subscriber connects to the local broker with a
  random uid of the anonymous range and the shared password, subscribes to the topic of that uid and
  publishes to the live topic.
\<close>

theorem default_configuration:
  assumes "config_path E CLIENT_SUB = None" "\<forall>n. malloc_ok E n" "lrand48_ok E"
  shows "\<exists>st. client_config_load E CLIENT_SUB [] = Inr (0, st) \<and>
    show_ptr (username (conf st)) = dec_int (lrand48_value E + 9223372000000000000) \<and>
    show_ptr (password (conf st)) = ''codein.tv'' \<and> host (conf st) = CLit ''localhost'' \<and> port (conf st) = 1883 \<and>
    map show_ptr (topics (conf st)) = [''codein/live/'' @ dec_int (lrand48_value E + 9223372000000000000)] \<and>
    show_ptr (topic (conf st)) = ''codein/live''"
  using assms by (rule load_no_arguments)

theorem default_configuration_witness:
  "\<exists>st. client_config_load bare_env CLIENT_SUB [] = Inr (0, st) \<and>
    show_ptr (password (conf st)) = ''codein.tv'' \<and> show_ptr (topic (conf st)) = ''codein/live''"
  using default_configuration [of bare_env] by auto

text \<open>
  C36. The buffer for the default subscription holds 50 bytes: a user name given on the command line
  without a topic overflows it exactly when it has more than 37 characters.
\<close>

theorem long_username_overflows:
  assumes "config_path E CLIENT_SUB = None" "\<forall>n. malloc_ok E n"
  shows "client_config_load E CLIENT_SUB [''-u'', u] = Inl Buffer_Overflow \<longleftrightarrow> 37 < length u"
  using load_username [OF assms, of u] by (auto split: if_splits)

theorem long_username_overflows_witness:
  "client_config_load bare_env CLIENT_SUB [''-u'', replicate 38 CHR ''u''] = Inl Buffer_Overflow \<and>
   client_config_load bare_env CLIENT_SUB [''-u'', replicate 37 CHR ''u''] \<noteq> Inl Buffer_Overflow"
  using long_username_overflows [of bare_env "replicate 38 CHR ''u''"]
    long_username_overflows [of bare_env "replicate 37 CHR ''u''"]
  by simp

text \<open>
  C18. A load can fault, when the allocator and \<open>lrand48\<close> keep their promises, in two ways only: by
  reading before a line of the configuration file, and by overflowing the topic buffer of the
  subscriber.
\<close>

theorem load_faults:
  assumes "client_config_load E mode args = Inl f" "\<forall>n. malloc_ok E n" "lrand48_ok E"
  shows "f = Out_Of_Bounds \<and> config_path E mode \<noteq> None \<or> f = Buffer_Overflow \<and> mode = CLIENT_SUB"
  using assms(1)
proof (cases rule: load_stages)
  case (fault f')
  then show ?thesis using assms(2) by simp
next
  case (checked st0)
  from load_defaults_cases [OF assms(2,3) checked(1,2), of mode] checked(3) show ?thesis by auto
qed simp

theorem load_faults_witness:
  "\<exists>f. client_config_load (sample_env\<lparr>read_file := \<lambda>_. Some [newline]\<rparr>) CLIENT_SUB [] = Inl f \<and> f = Out_Of_Bounds"
proof -
  let ?E = "sample_env\<lparr>read_file := \<lambda>_. Some [newline]\<rparr>"
  have "client_config_load ?E CLIENT_SUB [] = Inl Out_Of_Bounds"
    using blank_line [of ?E CLIENT_SUB "[]"]
    by (simp add: client_config_load_def load_file_def config_path_def sample_env_def load_start_def)
  from load_faults [OF this] this show ?thesis by (simp add: sample_env_def lrand48_ok_def)
qed

text \<open>
  A blank line in the configuration file is read out of bounds: the loop that removes line ends
  looks at the byte before the buffer.
\<close>

theorem blank_line_faults: "load_lines E mode (newline # rest) st = Inl Out_Of_Bounds"
  by (rule blank_line)

text \<open>
  C17. A configuration file whose lines are an option or an option with its argument, and which is
  accepted, leaves exactly the state that the same words on the command line do.
\<close>

theorem file_is_command_line:
  assumes "parse_inv E st" "list_all line_wf ls" "load_lines E mode (file_text ls) st = Inr (0, st')"
  shows "client_config_line_proc E mode (concat ls) st = Inr (0, st')"
  using assms by (rule file_as_arguments)

theorem file_is_command_line_witness:
  "\<exists>st'. client_config_line_proc sample_env CLIENT_SUB [''--quiet'', ''-u'', ''7''] sample_state = Inr (0, st') \<and>
    load_lines sample_env CLIENT_SUB (''--quiet'' @ [newline] @ ''-u 7'' @ [newline]) sample_state = Inr (0, st')"
proof -
  let ?ls = "[[''--quiet''], [''-u'', ''7'']]"
  have wf: "list_all line_wf ?ls" by (simp add: word_wf_def word_char_def is_eol_def newline_def)
  have feq: "file_text ?ls = line_text [''--quiet''] @ newline # line_text [''-u'', ''7''] @ newline # []"
    by (simp add: file_text_def)
  obtain st' where l: "load_lines sample_env CLIENT_SUB (file_text ?ls) sample_state = Inr (0, st')"
    unfolding feq using wf
    by (simp only: list.pred_inject load_lines_line) (simp add: chain_defs set_flag_def opt_arg_def
        set_dup_def c_strdup_def sample_malloc load_lines.simps)
  from file_is_command_line [OF sample_inv wf l] l show ?thesis by (simp add: file_text_def)
qed

text \<open>
  C16. After a load that was refused, freeing the configuration is safe, except for the refusal of a
  kept session without an identifier: there the host may already be the literal, which is freed.
\<close>

theorem refused_load_cleanup:
  assumes "client_config_load E mode args = Inr (rc, st)" "rc \<noteq> 0"
  shows "if is_lit (host (conf st)) then client_config_cleanup E (conf st) = Inl Bad_Free
    else \<exists>freed. client_config_cleanup E (conf st) = Inr freed"
  using assms by (rule failed_load_cleanup)

theorem refused_load_cleanup_witness:
  "\<exists>st. client_config_load bare_env CLIENT_SUB [''-c''] = Inr (1, st) \<and>
    client_config_cleanup bare_env (conf st) = Inl Bad_Free"
proof -
  have len: "\<not> 24 \<le> length (dec_int 9223372000000000077)"
    using length_anon_uid [OF anon_uid_eq [of bare_env]] by simp
  have "\<exists>st. client_config_load bare_env CLIENT_SUB [''-c''] = Inr (1, st) \<and> is_lit (host (conf st))"
    by (simp add: load_without_file chain_defs set_flag_def check_config_def check_tls_def
        load_start_def log_err_def init_config_def load_defaults_def default_login_def Let_def
        anon_uid_eq malloc_sprintf_def c_strdup_def default_sub_def len)
  then obtain st where s: "client_config_load bare_env CLIENT_SUB [''-c''] = Inr (1, st)" "is_lit (host (conf st))"
    by blast
  from refused_load_cleanup [OF s(1)] s show ?thesis by auto
qed

end
