(* ===== verification/Setup.thy ===== *)
theory Setup
  imports Load
begin

text \<open>
  Preparing the connection (\<open>client_shared.cc\<close>): the client identifier, the options handed to
  libmosquitto, and the connect. The calls of the library are events of a trace; a record of
  functions answers them. The state is shared with \<open>mqttest.cc\<close>, whose global variables it holds.
\<close>

section \<open>The library and the state of the client\<close>

text \<open>
  Strings are passed as pointers and so may be absent. \<open>Stderr\<close> and \<open>Stdout\<close> are the lines
  printed.
\<close>

datatype mcall =
    Lib_Init
  | Lib_Cleanup
  | Mosq_New "string option" bool
  | Mosq_Destroy
  | Will_Set "string option" int "string option" int bool
  | Username_Pw_Set "string option" "string option"
  | Tls_Set "string option" "string option" "string option" "string option"
  | Tls_Insecure_Set bool
  | Tls_Psk_Set "string option" "string option"
  | Tls_Opts_Set int "string option" "string option"
  | Max_Inflight_Set "32 word"
  | Socks5_Set "string option" int "string option" "string option"
  | Protocol_Version_Set int
  | Callbacks_Set
  | Connect_Srv "string option" int "string option"
  | Connect_Bind "string option" int int "string option"
  | Subscribe "string option" int
  | Publish string "8 word list" int bool
  | Disconnect
  | Stderr string
  | Stdout string

record mosq_lib =
  answer :: "mcall list \<Rightarrow> mcall \<Rightarrow> int"
  publish_mid :: "mcall list \<Rightarrow> int"
  err_errno :: int
  err_no_conn :: int
  err_auth :: int
  err_conn_refused :: int
  enomem :: int
  einval :: int
  id_max_length :: nat
  strerror_text :: "mcall list \<Rightarrow> string"
  mosq_strerror :: "int \<Rightarrow> string"
  connack_string :: "int \<Rightarrow> string"
  topic_matches_sub :: "string option \<Rightarrow> string \<Rightarrow> bool option"
  getpid :: int
  lib_version :: "int \<times> int \<times> int"
  hostname :: string

record client =
  c_conf :: mosq_config
  c_alloc :: nat
  c_trace :: "mcall list"
  process_messages :: bool
  g_msg_count :: int
  g_connected :: bool
  g_last_mid_sent :: int

definition emit :: "mcall \<Rightarrow> client \<Rightarrow> client" where
  "emit c s = s\<lparr>c_trace := c_trace s @ [c]\<rparr>"

text \<open>A call with its answer.\<close>

definition ask :: "mosq_lib \<Rightarrow> mcall \<Rightarrow> client \<Rightarrow> int \<times> client" where
  "ask L c s = (answer L (c_trace s) c, emit c s)"

definition complain :: "string \<Rightarrow> client \<Rightarrow> client" where
  "complain msg s = (if quiet (c_conf s) then s else emit (Stderr msg) s)"

section \<open>client\_opts\_set\<close>

text \<open>
  One guarded setting: when it is wanted and the library refuses it, the library is cleaned up and
  the result is 1.
\<close>

definition setting ::
  "mosq_lib \<Rightarrow> bool \<Rightarrow> mcall \<Rightarrow> string \<Rightarrow> (client \<Rightarrow> int \<times> client) \<Rightarrow> client \<Rightarrow> int \<times> client" where
  "setting L wanted c msg k s =
     (if wanted
      then (case ask L c s of (rc, s) \<Rightarrow>
              if rc \<noteq> 0 then (1, emit Lib_Cleanup (complain msg s)) else k s)
      else k s)"

definition socks_setting :: "mosq_lib \<Rightarrow> bool \<Rightarrow> mcall \<Rightarrow> (client \<Rightarrow> int \<times> client) \<Rightarrow> client \<Rightarrow> int \<times> client" where
  "socks_setting L wanted c k s =
     (if wanted
      then (case ask L c s of (rc, s) \<Rightarrow> if rc \<noteq> 0 then (rc, emit Lib_Cleanup s) else k s)
      else k s)"

definition client_opts_set :: "client_env \<Rightarrow> mosq_lib \<Rightarrow> client \<Rightarrow> int \<times> client" where
  "client_opts_set E L s =
     (let c = c_conf s in
      setting L (will_topic c \<noteq> CNull)
        (Will_Set (text_of (will_topic c)) (will_payloadlen c) (text_of (will_payload c)) (will_qos c)
           (will_retain c)) ''Error: Problem setting will.''
     (setting L (username c \<noteq> CNull)
        (Username_Pw_Set (text_of (username c)) (text_of (password c)))
        ''Error: Problem setting username and password.''
     (setting L (with_tls E \<and> (cafile c \<noteq> CNull \<or> capath c \<noteq> CNull))
        (Tls_Set (text_of (cafile c)) (text_of (capath c)) (text_of (certfile c)) (text_of (keyfile c)))
        ''Error: Problem setting TLS options.''
     (setting L (with_tls E \<and> insecure c) (Tls_Insecure_Set True)
        ''Error: Problem setting TLS insecure option.''
     (setting L (with_tls E \<and> with_tls_psk E \<and> psk c \<noteq> CNull)
        (Tls_Psk_Set (text_of (psk c)) (text_of (psk_identity c)))
        ''Error: Problem setting TLS-PSK options.''
     (setting L (with_tls E \<and> (tls_version c \<noteq> CNull \<or> ciphers c \<noteq> CNull))
        (Tls_Opts_Set 1 (text_of (tls_version c)) (text_of (ciphers c)))
        ''Error: Problem setting TLS options.''
     (\<lambda>s. socks_setting L (with_socks E \<and> socks5_host c \<noteq> CNull)
        (Socks5_Set (text_of (socks5_host c)) (socks5_port c) (text_of (socks5_username c))
           (text_of (socks5_password c)))
     (\<lambda>s. (0, emit (Protocol_Version_Set (protocol_version c)) s))
        (emit (Max_Inflight_Set (max_inflight c)) s))))))) s)"

section \<open>client\_id\_generate\<close>

definition no_memory :: "client \<Rightarrow> int \<times> client" where
  "no_memory s = (1, emit Lib_Cleanup (complain ''Error: Out of memory.'' s))"

definition client_id_generate :: "client_env \<Rightarrow> mosq_lib \<Rightarrow> string \<Rightarrow> client \<Rightarrow> (int \<times> client) run" where
  "client_id_generate E L id_base s =
     (if id_prefix (c_conf s) \<noteq> CNull
      then and_then (deref (id_prefix (c_conf s))) (\<lambda>prefix.
        (let n = length prefix + 10; a = c_alloc s; s = s\<lparr>c_alloc := Suc a\<rparr>
         in if \<not> malloc_ok E a then Inr (no_memory (s\<lparr>c_conf := (c_conf s)\<lparr>client_id := CNull\<rparr>\<rparr>))
            else Inr (0, s\<lparr>c_conf := (c_conf s)\<lparr>client_id :=
                   CHeap a (snprintf_buf n (prefix @ dec_int (getpid L)))\<rparr>\<rparr>)))
      else if client_id (c_conf s) = CNull
      then (let hst = take 255 (hostname L); n = length id_base + 10 + length hst;
                a = c_alloc s; s = s\<lparr>c_alloc := Suc a\<rparr>
            in if \<not> malloc_ok E a then Inr (no_memory s)
               else (let x = snprintf_buf n (id_base @ ''-'' @ dec_int (getpid L) @ ''-'' @ hst);
                         x = (if length x > id_max_length L then take (id_max_length L) x else x)
                     in Inr (0, s\<lparr>c_conf := (c_conf s)\<lparr>client_id := CHeap a x\<rparr>\<rparr>)))
      else Inr (0, s))"

section \<open>client\_connect\<close>

text \<open>The connect; without SRV support the bind address is printed too.\<close>

definition connect_call :: "client_env \<Rightarrow> mosq_lib \<Rightarrow> client \<Rightarrow> int \<times> client" where
  "connect_call E L s =
     (let c = c_conf s;
          bind_call = Connect_Bind (text_of (host c)) (port c) (keepalive c) (text_of (bind_address c))
      in if with_srv E
         then ask L (if use_srv c then Connect_Srv (text_of (host c)) (keepalive c) (text_of (bind_address c))
                     else bind_call) s
         else (case ask L bind_call s of (rc, s) \<Rightarrow>
                 (rc, emit (Stdout (''connect: bind addr='' @ show_ptr (bind_address c))) s)))"

definition client_connect :: "client_env \<Rightarrow> mosq_lib \<Rightarrow> client \<Rightarrow> int \<times> client" where
  "client_connect E L s =
     (case connect_call E L s of (rc, s) \<Rightarrow>
        if rc > 0
        then (rc, emit Lib_Cleanup (complain
               (if rc = err_errno L then ''Error: '' @ strerror_text L (c_trace s)
                else ''Unable to connect ('' @ mosq_strerror L rc @ '').'') s))
        else (0, s))"

section \<open>The settings as a list\<close>

text \<open>
  What the settings amount to: a list of calls, each with what happens when the library refuses it.
  \<open>perform\<close> is the reference interpreter of such a list.
\<close>

datatype on_refusal = Reported string | Unreported | Ignored

definition opt_call :: "bool \<Rightarrow> mcall \<times> on_refusal \<Rightarrow> (mcall \<times> on_refusal) list" where
  "opt_call b x = (if b then [x] else [])"

definition wanted_calls :: "client_env \<Rightarrow> mosq_config \<Rightarrow> (mcall \<times> on_refusal) list" where
  "wanted_calls E c =
     opt_call (will_topic c \<noteq> CNull)
       (Will_Set (text_of (will_topic c)) (will_payloadlen c) (text_of (will_payload c)) (will_qos c)
          (will_retain c), Reported ''Error: Problem setting will.'') @
     opt_call (username c \<noteq> CNull)
       (Username_Pw_Set (text_of (username c)) (text_of (password c)),
        Reported ''Error: Problem setting username and password.'') @
     opt_call (with_tls E \<and> (cafile c \<noteq> CNull \<or> capath c \<noteq> CNull))
       (Tls_Set (text_of (cafile c)) (text_of (capath c)) (text_of (certfile c)) (text_of (keyfile c)),
        Reported ''Error: Problem setting TLS options.'') @
     opt_call (with_tls E \<and> insecure c)
       (Tls_Insecure_Set True, Reported ''Error: Problem setting TLS insecure option.'') @
     opt_call (with_tls E \<and> with_tls_psk E \<and> psk c \<noteq> CNull)
       (Tls_Psk_Set (text_of (psk c)) (text_of (psk_identity c)),
        Reported ''Error: Problem setting TLS-PSK options.'') @
     opt_call (with_tls E \<and> (tls_version c \<noteq> CNull \<or> ciphers c \<noteq> CNull))
       (Tls_Opts_Set 1 (text_of (tls_version c)) (text_of (ciphers c)),
        Reported ''Error: Problem setting TLS options.'') @
     (Max_Inflight_Set (max_inflight c), Ignored) #
     opt_call (with_socks E \<and> socks5_host c \<noteq> CNull)
       (Socks5_Set (text_of (socks5_host c)) (socks5_port c) (text_of (socks5_username c))
          (text_of (socks5_password c)), Unreported) @
     [(Protocol_Version_Set (protocol_version c), Ignored)]"

fun perform :: "mosq_lib \<Rightarrow> (mcall \<times> on_refusal) list \<Rightarrow> client \<Rightarrow> int \<times> client" where
  "perform L [] s = (0, s)"
| "perform L ((c, r) # ws) s =
     (case ask L c s of (rc, s) \<Rightarrow>
        (case r of
           Ignored \<Rightarrow> perform L ws s
         | Reported m \<Rightarrow> if rc \<noteq> 0 then (1, emit Lib_Cleanup (complain m s)) else perform L ws s
         | Unreported \<Rightarrow> if rc \<noteq> 0 then (rc, emit Lib_Cleanup s) else perform L ws s))"

lemma setting_perform:
  assumes "\<And>s. k s = perform L ws s"
  shows "setting L b c m k s = perform L (opt_call b (c, Reported m) @ ws) s"
  by (simp add: setting_def opt_call_def assms split: prod.split)

lemma socks_setting_perform:
  assumes "\<And>s. k s = perform L ws s"
  shows "socks_setting L b c k s = perform L (opt_call b (c, Unreported) @ ws) s"
  by (simp add: socks_setting_def opt_call_def assms split: prod.split)

lemma ignored_perform:
  assumes "\<And>s. k s = perform L ws s"
  shows "k (emit c s) = perform L ((c, Ignored) # ws) s"
  by (simp add: assms ask_def)

lemma client_opts_set_perform: "client_opts_set E L s = perform L (wanted_calls E (c_conf s)) s"
  unfolding client_opts_set_def wanted_calls_def Let_def
  by (intro setting_perform socks_setting_perform ignored_perform [where k = "socks_setting _ _ _ _"])
    (simp add: ask_def)

text \<open>The outcome of a list of calls: all are accepted, or there is a first one that is refused.\<close>

definition calls_ok :: "mosq_lib \<Rightarrow> mcall list \<Rightarrow> (mcall \<times> on_refusal) list \<Rightarrow> bool" where
  "calls_ok L tr ws \<longleftrightarrow>
     list_all (\<lambda>i. snd (ws ! i) = Ignored \<or> answer L (tr @ map fst (take i ws)) (fst (ws ! i)) = 0)
       [0..<length ws]"

fun refusal :: "bool \<Rightarrow> on_refusal \<Rightarrow> int \<Rightarrow> int \<times> mcall list" where
  "refusal q (Reported m) rc = (1, (if q then [] else [Stderr m]) @ [Lib_Cleanup])"
| "refusal q Unreported rc = (rc, [Lib_Cleanup])"
| "refusal q Ignored rc = (0, [])"

lemma calls_ok_Nil [simp]: "calls_ok L tr []"
  by (simp add: calls_ok_def)

lemma calls_ok_Cons: "calls_ok L tr ((c, r) # ws) \<longleftrightarrow>
    (r = Ignored \<or> answer L tr c = 0) \<and> calls_ok L (tr @ [c]) ws"
proof -
  have u: "[0..<length ((c, r) # ws)] = 0 # map Suc [0..<length ws]"
    by (simp add: upt_conv_Cons map_Suc_upt del: upt_Suc)
  show ?thesis
    unfolding calls_ok_def u by (simp add: list.pred_map comp_def)
qed

definition first_refused :: "mosq_lib \<Rightarrow> client \<Rightarrow> (mcall \<times> on_refusal) list \<Rightarrow> nat \<Rightarrow> int \<times> client \<Rightarrow> bool" where
  "first_refused L s ws n r \<longleftrightarrow>
     (let (c, how) = ws ! n; rc = answer L (c_trace s @ map fst (take n ws)) c;
          (code, after) = refusal (quiet (c_conf s)) how rc
      in n < length ws \<and> calls_ok L (c_trace s) (take n ws) \<and> how \<noteq> Ignored \<and> rc \<noteq> 0 \<and>
         r = (code, s\<lparr>c_trace := c_trace s @ map fst (take (Suc n) ws) @ after\<rparr>))"

lemma refused_now:
  assumes "how \<noteq> Ignored" "answer L (c_trace s) c \<noteq> 0"
  shows "first_refused L s ((c, how) # ws) 0 (perform L ((c, how) # ws) s)"
  using assms by (cases how) (simp_all add: first_refused_def ask_def complain_def emit_def)

lemma perform_goes_on:
  assumes "how = Ignored \<or> answer L (c_trace s) c = 0"
  shows "perform L ((c, how) # ws) s = perform L ws (emit c s)"
  using assms by (cases how) (auto simp: ask_def)

lemma refused_later:
  assumes "how = Ignored \<or> answer L (c_trace s) c = 0" "first_refused L (emit c s) ws n r"
  shows "first_refused L s ((c, how) # ws) (Suc n) r"
  using assms by (auto simp: first_refused_def emit_def calls_ok_Cons split: prod.splits)

lemma perform_outcome:
  "if calls_ok L (c_trace s) ws then perform L ws s = (0, s\<lparr>c_trace := c_trace s @ map fst ws\<rparr>)
   else \<exists>n. first_refused L s ws n (perform L ws s)"
proof (induction ws arbitrary: s)
  case (Cons w ws)
  obtain c how where w: "w = (c, how)" by (cases w)
  show ?case
  proof (cases "how = Ignored \<or> answer L (c_trace s) c = 0")
    case True
    have go: "perform L ((c, how) # ws) s = perform L ws (emit c s)" using True by (rule perform_goes_on)
    show ?thesis
    proof (cases "calls_ok L (c_trace (emit c s)) ws")
      case ok: True
      then show ?thesis using Cons [of "emit c s"] True by (simp add: w go calls_ok_Cons emit_def del: perform.simps)
    next
      case False
      with Cons [of "emit c s"] obtain n where "first_refused L (emit c s) ws n (perform L ws (emit c s))"
        by auto
      from refused_later [OF True this] False show ?thesis
        by (auto simp: w go calls_ok_Cons emit_def simp del: perform.simps)
    qed
  next
    case False
    then show ?thesis using refused_now [of how L s c ws] by (auto simp: w calls_ok_Cons simp del: perform.simps)
  qed
qed simp

section \<open>Identifiers\<close>

text \<open>Process numbers of the systems the client runs on have at most seven digits.\<close>

definition small_pid :: "int \<Rightarrow> bool" where
  "small_pid p \<longleftrightarrow> 0 \<le> p \<and> p < 10000000"

lemma pid_text:
  assumes "small_pid p"
  shows "dec_int p = dec_nat (nat p)" "length (dec_int p) \<le> 7" "CHR ''-'' \<notin> set (dec_int p)"
proof -
  show e: "dec_int p = dec_nat (nat p)" using assms by (simp add: small_pid_def dec_int_def)
  have "nat p < 10 ^ 7" using assms by (auto simp: small_pid_def)
  then show "length (dec_int p) \<le> 7" unfolding e by (intro length_dec_nat_le) simp_all
  show "CHR ''-'' \<notin> set (dec_int p)"
    unfolding e using dec_nat_digits digit_not_sign by blast
qed

definition generated_id :: "mosq_lib \<Rightarrow> mosq_config \<Rightarrow> string \<Rightarrow> string" where
  "generated_id L c id_base =
     (if id_prefix c \<noteq> CNull then show_ptr (id_prefix c) @ dec_int (getpid L)
      else if client_id c = CNull
      then take (id_max_length L) (id_base @ ''-'' @ dec_int (getpid L) @ ''-'' @ take 255 (hostname L))
      else show_ptr (client_id c))"

lemma generated_id_text:
  assumes "client_id_generate E L id_base s = Inr (0, t)" "small_pid (getpid L)"
  shows "text_of (client_id (c_conf t)) = Some (generated_id L (c_conf s) id_base)"
proof -
  note d = pid_text [OF assms(2)]
  have sn: "snprintf_buf (length x + 10) (x @ dec_int (getpid L)) = x @ dec_int (getpid L)" for x
    using d(2) by (intro snprintf_buf_fits) simp
  let ?h = "take 255 (hostname L)"
  have sn2: "snprintf_buf (length id_base + 10 + length ?h) (id_base @ ''-'' @ dec_int (getpid L) @ ''-'' @ ?h) =
      id_base @ ''-'' @ dec_int (getpid L) @ ''-'' @ ?h"
    using d(2) by (intro snprintf_buf_fits) simp
  have cut: "(if n < length x then take n x else x) = take n x" for n and x :: string
    by simp
  show ?thesis
    using assms(1)
    by (cases "id_prefix (c_conf s)"; cases "client_id (c_conf s)")
      (auto simp: client_id_generate_def generated_id_def Let_def no_memory_def sn sn2 [simplified] cut
        fault_simps text_of_def show_ptr_def split: if_splits)
qed

lemma pid_field: "CHR ''-'' \<notin> set x \<Longrightarrow> CHR ''-'' \<notin> set y \<Longrightarrow>
    x @ CHR ''-'' # a = y @ CHR ''-'' # b \<Longrightarrow> x = y"
  using takeWhile_up_to [of "CHR ''-''" x a] takeWhile_up_to [of "CHR ''-''" y b] by simp

lemma generated_id_inj:
  assumes "small_pid (getpid L)" "small_pid (getpid L')" "id_max_length L' = id_max_length L"
    and "client_id c = CNull \<or> id_prefix c \<noteq> CNull" "length id_base + 9 \<le> id_max_length L"
    and "generated_id L c id_base = generated_id L' c id_base"
  shows "getpid L = getpid L'"
proof -
  note d = pid_text [OF assms(1)] pid_text [OF assms(2)]
  have cut: "take (id_max_length L) (id_base @ ''-'' @ dec_int (getpid M) @ ''-'' @ h) =
      id_base @ ''-'' @ dec_int (getpid M) @ CHR ''-'' #
        take (id_max_length L - length id_base - length (dec_int (getpid M)) - 2) h"
    if "length (dec_int (getpid M)) \<le> 7" for M :: mosq_lib and h :: string
    using that assms(5) by (simp add: take_Cons')
  have "dec_int (getpid L) = dec_int (getpid L')"
  proof (cases "id_prefix c = CNull")
    case True
    let ?cut = "\<lambda>M. take (id_max_length L - length id_base - length (dec_int (getpid M)) - 2)
      (take 255 (hostname M))"
    have g: "generated_id M c id_base =
        id_base @ ''-'' @ dec_int (getpid M) @ CHR ''-'' # ?cut M"
      if "length (dec_int (getpid M)) \<le> 7" "id_max_length M = id_max_length L" for M
      using cut [OF that(1), of "take 255 (hostname M)"] that(2) True assms(4)
      by (simp only: generated_id_def simp_thms if_False if_True)
    have "dec_int (getpid L) @ CHR ''-'' # ?cut L = dec_int (getpid L') @ CHR ''-'' # ?cut L'"
      using assms(6) [unfolded g [OF d(2) refl] g [OF d(5) assms(3)]] by simp
    then show ?thesis by (rule pid_field [OF d(3) d(6)])
  next
    case False
    with assms(6) show ?thesis by (simp add: generated_id_def)
  qed
  then have "nat (getpid L) = nat (getpid L')" using d(1,4) by simp
  then show ?thesis using assms(1,2) unfolding small_pid_def by linarith
qed

section \<open>Properties\<close>

text \<open>
  C10. Setting the options makes exactly the calls the configuration asks for, in their order, if the
  library accepts them; at the first one it refuses, the error is reported, unless the client is
  quiet or it is the proxy that was refused, the library is cleaned up and nothing else is called.
\<close>

theorem client_opts_set_outcome:
  "let ws = wanted_calls E (c_conf s) in
     if calls_ok L (c_trace s) ws
     then client_opts_set E L s = (0, s\<lparr>c_trace := c_trace s @ map fst ws\<rparr>)
     else \<exists>n. first_refused L s ws n (client_opts_set E L s)"
  using perform_outcome [of L s "wanted_calls E (c_conf s)"] by (simp add: client_opts_set_perform Let_def)

text \<open>
  C37. Two processes of the client, with different process numbers and the same configuration, get the
  same identifier exactly when the configuration names one and no prefix (the option \<open>-i\<close>), which is
  then kept unchanged. With a prefix, and without either, the identifiers differ, although one made of
  the host name may be cut: the process number is never cut off. Process numbers are taken to have at
  most seven digits, and the base of the name to leave room for them.
\<close>

theorem client_ids_equal_iff:
  assumes "client_id_generate E L id_base s = Inr (0, t)" "client_id_generate E' L' id_base s = Inr (0, t')"
    and "small_pid (getpid L)" "small_pid (getpid L')" "getpid L \<noteq> getpid L'"
    and "id_max_length L' = id_max_length L" "length id_base + 9 \<le> id_max_length L"
  shows "text_of (client_id (c_conf t)) = text_of (client_id (c_conf t')) \<longleftrightarrow>
    client_id (c_conf s) \<noteq> CNull \<and> id_prefix (c_conf s) = CNull"
proof (cases "client_id (c_conf s) \<noteq> CNull \<and> id_prefix (c_conf s) = CNull")
  case True
  then show ?thesis using assms(1,2) by (simp add: client_id_generate_def)
next
  case False
  then have "generated_id L (c_conf s) id_base \<noteq> generated_id L' (c_conf s) id_base"
    using generated_id_inj [OF assms(3,4,6) _ assms(7), of "c_conf s"] assms(5) by blast
  with False show ?thesis
    by (simp add: generated_id_text [OF assms(1,3)] generated_id_text [OF assms(2,4)])
qed

definition sample_lib :: mosq_lib where
  "sample_lib =
     \<lparr>answer = (\<lambda>_ _. 0), publish_mid = (\<lambda>_. 1), err_errno = 14, err_no_conn = 4, err_auth = 11,
      err_conn_refused = 5, enomem = 12, einval = 22, id_max_length = 23, strerror_text = (\<lambda>_. []),
      mosq_strerror = (\<lambda>_. ''error''), connack_string = (\<lambda>_. ''refused''),
      topic_matches_sub = (\<lambda>f t. Some (f = Some t)), getpid = 4242, lib_version = (1, 4, 10), hostname = ''box''\<rparr>"

definition sample_client :: "cptr \<Rightarrow> client" where
  "sample_client p =
     \<lparr>c_conf = (conf sample_state)\<lparr>client_id := p\<rparr>, c_alloc = 0, c_trace = [], process_messages = True,
      g_msg_count = 0, g_connected = False, g_last_mid_sent = 0\<rparr>"

lemma sample_client_id:
  "\<exists>t. client_id_generate sample_env L ''code'' (sample_client p) = Inr (0, t)"
proof -
  have "id_prefix (conf sample_state) = CNull" by (simp add: sample_state_def init_config_def)
  then show ?thesis
    by (simp add: client_id_generate_def Let_def sample_malloc sample_client_def)
qed

theorem client_ids_equal_iff_witness:
  "(\<exists>t t'. client_id_generate sample_env sample_lib ''code'' (sample_client CNull) = Inr (0, t) \<and>
     client_id_generate sample_env (sample_lib\<lparr>getpid := 424\<rparr>) ''code'' (sample_client CNull) = Inr (0, t') \<and>
     text_of (client_id (c_conf t)) \<noteq> text_of (client_id (c_conf t'))) \<and>
   (\<exists>t t'. client_id_generate sample_env sample_lib ''code'' (sample_client (CHeap 0 ''me'')) = Inr (0, t) \<and>
     client_id_generate sample_env (sample_lib\<lparr>getpid := 424\<rparr>) ''code'' (sample_client (CHeap 0 ''me'')) = Inr (0, t') \<and>
     text_of (client_id (c_conf t)) = text_of (client_id (c_conf t')))"
proof -
  have *: "\<exists>t t'. client_id_generate sample_env sample_lib ''code'' (sample_client p) = Inr (0, t) \<and>
     client_id_generate sample_env (sample_lib\<lparr>getpid := 424\<rparr>) ''code'' (sample_client p) = Inr (0, t') \<and>
     (text_of (client_id (c_conf t)) = text_of (client_id (c_conf t')) \<longleftrightarrow> p \<noteq> CNull)" for p
  proof -
    obtain t t' where g: "client_id_generate sample_env sample_lib ''code'' (sample_client p) = Inr (0, t)"
      "client_id_generate sample_env (sample_lib\<lparr>getpid := 424\<rparr>) ''code'' (sample_client p) = Inr (0, t')"
      using sample_client_id by blast
    have "text_of (client_id (c_conf t)) = text_of (client_id (c_conf t')) \<longleftrightarrow>
        client_id (c_conf (sample_client p)) \<noteq> CNull \<and> id_prefix (c_conf (sample_client p)) = CNull"
      using g by (rule client_ids_equal_iff) (simp_all add: small_pid_def sample_lib_def)
    then have "text_of (client_id (c_conf t)) = text_of (client_id (c_conf t')) \<longleftrightarrow> p \<noteq> CNull"
      by (simp add: sample_client_def sample_state_def init_config_def)
    with g show ?thesis by blast
  qed
  show ?thesis using * [of CNull] * [of "CHeap 0 ''me''"] by simp
qed

end
