(* ===== verification/Usage.thy ===== *)
theory Usage
  imports Setup
begin

text \<open>
  The help text of \<open>mqttest\<close>, line by line: it depends on the build options.
\<close>

definition version_text :: "mosq_lib \<Rightarrow> string" where
  "version_text L = (case lib_version L of (major, minor, revision) \<Rightarrow>
     dec_int major @ ''.'' @ dec_int minor @ ''.'' @ dec_int revision)"

definition usage_lines :: "client_env \<Rightarrow> mosq_lib \<Rightarrow> string list" where
  "usage_lines E L =
     [''sub_test is a simple mqtt client that will subscribe to a single topic and print all messages it receives.'',
      ''sub_test version 1.0 running on libmosquitto '' @ version_text L @ ''.'',
      ''Usage: sub_test [-c] [-h host] [-k keepalive] [-p port] [-q qos] [-R] -t topic ...'',
      ''                     [-C msg_count] [-T filter_out]''] @
     (if with_srv E then [''                     [-A bind_address] [-S]''] else []) @
     (if \<not> with_srv E then [''                     [-A bind_address]''] else []) @
     [''                     [-i id] [-I id_prefix]'',
      ''                     [-d] [-N] [--quiet] [-v]'',
      ''                     [-u username [-P password]]'',
      ''                     [--will-topic [--will-payload payload] [--will-qos qos] [--will-retain]]''] @
     (if with_tls E then [''                     [{--cafile file | --capath dir} [--cert file] [--key file]'',
      ''                      [--ciphers ciphers] [--insecure]]''] else []) @
     (if with_tls E \<and> with_tls_psk E then [''                     [--psk hex-key --psk-identity identity [--ciphers ciphers]]''] else []) @
     (if with_socks E then [''                     [--proxy socks-url]''] else []) @
     [''       sub_test --help'',
      '' -A : bind the outgoing socket to this host/ip address. Use to control which interface'',
      ''      the client communicates over.'',
      '' -c : disable '' @ [quote] @ ''clean session'' @ [quote] @ '' (store subscription and pending messages when client disconnects).'',
      '' -C : disconnect and exit after receiving the '' @ [quote] @ ''msg_count'' @ [quote] @ '' messages.'',
      '' -d : enable debug messages.'',
      '' -h : mqtt host to connect to. Defaults to localhost.'',
      '' -i : id to use for this client. Defaults to sub_test_ appended with the process id.'',
      '' -I : define the client id as id_prefix appended with the process id. Useful for when the'',
      ''      broker is using the clientid_prefixes option.'',
      '' -k : keep alive in seconds for this client. Defaults to 60.'',
      '' -N : do not add an end of line character when printing the payload.'',
      '' -p : network port to connect to. Defaults to 1883.'',
      '' -P : provide a password (requires MQTT 3.1 broker)'',
      '' -q : quality of service level to use for the subscription. Defaults to 0.'',
      '' -R : do not print stale messages (those with retain set).''] @
     (if with_srv E then ['' -S : use SRV lookups to determine which host to connect to.''] else []) @
     ['' -t : mqtt topic to subscribe to. May be repeated multiple times.'',
      '' -T : topic string to filter out of results. May be repeated.'',
      '' -u : provide a username (requires MQTT 3.1 broker)'',
      '' -v : print published messages verbosely.'',
      '' -V : specify the version of the MQTT protocol to use when connecting.'',
      ''      Can be mqttv31 or mqttv311. Defaults to mqttv31.'',
      '' --help : display this message.'',
      '' --quiet : don'' @ [quote] @ ''t print error messages.'',
      '' --will-payload : payload for the client Will, which is sent by the broker in case of'',
      ''                  unexpected disconnection. If not given and will-topic is set, a zero'',
      ''                  length message will be sent.'',
      '' --will-qos : QoS level for the client Will.'',
      '' --will-retain : if given, make the client Will retained.'',
      '' --will-topic : the topic on which to publish the client Will.''] @
     (if with_tls E then ['' --cafile : path to a file containing trusted CA certificates to enable encrypted'',
      ''            certificate based communication.'',
      '' --capath : path to a directory containing trusted CA certificates to enable encrypted'',
      ''            communication.'',
      '' --cert : client certificate for authentication, if required by server.'',
      '' --key : client private key for authentication, if required by server.'',
      '' --ciphers : openssl compatible list of TLS ciphers to support.'',
      '' --tls-version : TLS protocol version, can be one of tlsv1.2 tlsv1.1 or tlsv1.'',
      ''                 Defaults to tlsv1.2 if available.'',
      '' --insecure : do not check that the server certificate hostname matches the remote'',
      ''              hostname. Using this option means that you cannot be sure that the'',
      ''              remote host is the server you wish to connect to and so is insecure.'',
      ''              Do not use this option in a production environment.''] else []) @
     (if with_tls E \<and> with_tls_psk E then ['' --psk : pre-shared-key in hexadecimal (no leading 0x) to enable TLS-PSK mode.'',
      '' --psk-identity : client identity string for TLS-PSK mode.''] else []) @
     (if with_socks E then ['' --proxy : SOCKS5 proxy URL of the form:'',
      ''           socks5h://[username[:password]@]hostname[:port]'',
      ''           Only '' @ [dquote] @ ''none'' @ [dquote] @ '' and '' @ [dquote] @ ''username'' @ [dquote] @ '' authentication is supported.''] else []) @
     [''See http://mosquitto.org/ for more information.'']"

fun print_lines :: "string list \<Rightarrow> client \<Rightarrow> client" where
  "print_lines [] s = s"
| "print_lines (l # ls) s = print_lines ls (emit (Stdout l) s)"

definition print_usage :: "client_env \<Rightarrow> mosq_lib \<Rightarrow> client \<Rightarrow> client" where
  "print_usage E L s = print_lines (usage_lines E L) s"

lemma print_lines_trace: "c_trace (print_lines ls s) = c_trace s @ map Stdout ls"
  by (induction ls arbitrary: s) (simp_all add: emit_def)

lemma print_usage_trace: "c_trace (print_usage E L s) = c_trace s @ map Stdout (usage_lines E L)"
  by (simp add: print_usage_def print_lines_trace)

end
