(* ===== verification/Mqttest.thy ===== *)
theory Mqttest
  imports Complex_Main Usage Wire
begin

text \<open>
  The test client \<open>mqttest.cc\<close>: printing received messages, sending its own, the callbacks
  libmosquitto runs, and \<open>main\<close>. The message classes are generated by protoc; what the client
  uses of them, the numbers and names of message types and the conversion to and from bytes, are
  fields of a record.
\<close>

section \<open>Messages\<close>

datatype live_type =
    LMT_SYSTEM_NOTIFICATION
  | LMT_SERVICE_RESPONSE
  | LMT_NEARBY_USER_UPDATE
  | LMT_GAME_CONTACT_INFO
  | LMT_GAME_LIVE_STATE
  | LMT_LIVE_CONNECT_NOTIFY
  | LMT_SERVER_STATUS
  | LMT_SEARCH_NEARBY_USERS

datatype im_type = IM_ADD_CONTACT | IM_SHARE_SOC_ID | IM_FEEDBACK_MSG

text \<open>The fields the client sets in the messages it sends.\<close>

record gps =
  latitude :: rat
  longitude :: rat

record client_info =
  ci_uid :: int
  ci_device_id :: string
  ci_gps :: gps

datatype out_msg =
    SearchNearbyUsers client_info
  | GameLiveStateInfo int client_info
  | GameContactInfo int int gps

record proto =
  live_number :: "live_type \<Rightarrow> 16 word"
  live_of :: "32 word \<Rightarrow> live_type option"
  live_name :: "32 word \<Rightarrow> string"
  im_of :: "32 word \<Rightarrow> im_type option"
  im_name :: "32 word \<Rightarrow> string"
  show_live :: "live_type \<Rightarrow> byte list \<Rightarrow> string option"
  show_im :: "im_type \<Rightarrow> byte list \<Rightarrow> string option"
  bytes_of :: "out_msg \<Rightarrow> byte list"
  debug_of :: "out_msg \<Rightarrow> string"

text \<open>A message handed to the message callback.\<close>

record mosq_message =
  msg_topic :: string
  msg_payload :: "byte list"
  msg_retain :: bool

section \<open>Printing a received message\<close>

definition decoded :: "32 word \<Rightarrow> string option \<Rightarrow> client \<Rightarrow> client" where
  "decoded ty d s = (case d of
     None \<Rightarrow> emit (Stderr (''msg '' @ dec_int (sint ty) @ '' decode error!'')) s
   | Some x \<Rightarrow> emit (Stderr (''-> '' @ x)) s)"

definition unknown_type :: "string \<Rightarrow> 32 word \<Rightarrow> 64 word \<Rightarrow> client \<Rightarrow> client" where
  "unknown_type fn ty mid = emit (Stderr (fn @ ''unknown msg type '' @ dec_int (sint ty) @
     '', id='' @ dec_nat (unat mid)))"

definition wrong_size :: "byte list \<Rightarrow> client \<Rightarrow> client" where
  "wrong_size p = emit (Stderr (''message size wrong: '' @ dec_nat (length p)))"

definition headline :: "string \<Rightarrow> mosq_message \<Rightarrow> string \<Rightarrow> 64 word \<Rightarrow> string" where
  "headline lead m name mid = lead @ msg_topic m @ '': '' @ name @ '' id '' @ dec_nat (unat mid) @
     '' len '' @ dec_nat (length (msg_payload m))"

definition dump_im_msg :: "proto \<Rightarrow> mosq_message \<Rightarrow> client \<Rightarrow> client" where
  "dump_im_msg P m s =
     (case parse_header (msg_payload m) of
        None \<Rightarrow> wrong_size (msg_payload m) s
      | Some (ty, mid, body) \<Rightarrow>
          (let s = emit (Stderr (headline [] m (im_name P ty) mid)) s
           in case im_of P ty of
                None \<Rightarrow> unknown_type ''dump_im_msg'' ty mid s
              | Some t \<Rightarrow> decoded ty (show_im P t body) s))"

definition dump_live_msg :: "proto \<Rightarrow> mosq_message \<Rightarrow> client \<Rightarrow> client" where
  "dump_live_msg P m s =
     (case parse_header (msg_payload m) of
        None \<Rightarrow> wrong_size (msg_payload m) s
      | Some (ty, mid, body) \<Rightarrow>
          (let s = emit (Stderr (headline ''recv: '' m (live_name P ty) mid)) s
           in case live_of P ty of
                None \<Rightarrow> unknown_type ''dump_mqtt'' ty mid s
              | Some LMT_SYSTEM_NOTIFICATION \<Rightarrow> emit (Stderr ('' id '' @ dec_nat (unat mid))) s
              | Some LMT_SEARCH_NEARBY_USERS \<Rightarrow> unknown_type ''dump_mqtt'' ty mid s
              | Some LMT_LIVE_CONNECT_NOTIFY \<Rightarrow>
                  (case show_live P LMT_LIVE_CONNECT_NOTIFY body of
                     None \<Rightarrow> decoded ty None s | Some x \<Rightarrow> emit (Stderr x) s)
              | Some LMT_SERVER_STATUS \<Rightarrow>
                  (case show_live P LMT_SERVER_STATUS body of
                     None \<Rightarrow> decoded ty None s | Some x \<Rightarrow> emit (Stderr x) s)
              | Some t \<Rightarrow> decoded ty (show_live P t body) s))"

definition dump_mqtt :: "proto \<Rightarrow> mosq_message \<Rightarrow> client \<Rightarrow> client" where
  "dump_mqtt P m s =
     (if strncmp_eq ''im/user/'' (msg_topic m) 8 then dump_im_msg P m s
      else if \<not> strncmp_eq ''codein/live'' (msg_topic m) 11 \<and> \<not> strncmp_eq ''svc/os'' (msg_topic m) 6
      then emit (Stderr (''ignoring message from topic '' @ msg_topic m)) s
      else dump_live_msg P m s)"

text \<open>
  The filters, with the result variable \<open>res\<close>: the library may return without setting it (\<open>None\<close>),
  as it does for arguments it rejects; then it keeps the value of the round before, and has none in
  the first.
\<close>

fun filter_rounds :: "mosq_lib \<Rightarrow> cptr list \<Rightarrow> string \<Rightarrow> bool option \<Rightarrow> bool run" where
  "filter_rounds L [] t res = Inr False"
| "filter_rounds L (p # ps) t res =
     (let res = (case topic_matches_sub L (text_of p) t of None \<Rightarrow> res | Some b \<Rightarrow> Some b)
      in case res of
           None \<Rightarrow> Inl Uninit_Read
         | Some b \<Rightarrow> if b then Inr True else filter_rounds L ps t res)"

definition filtered :: "mosq_lib \<Rightarrow> cptr list \<Rightarrow> string \<Rightarrow> bool run" where
  "filtered L ps t = filter_rounds L ps t None"

definition counted :: "client \<Rightarrow> client" where
  "counted s =
     (if msg_count (c_conf s) > 0
      then (let s = s\<lparr>g_msg_count := g_msg_count s + 1\<rparr>
            in if msg_count (c_conf s) = g_msg_count s
               then emit Disconnect (s\<lparr>process_messages := False\<rparr>) else s)
      else s)"

definition my_message_callback :: "mosq_lib \<Rightarrow> proto \<Rightarrow> mosq_message \<Rightarrow> client \<Rightarrow> client run" where
  "my_message_callback L P m s =
     (if \<not> process_messages s then Inr s
      else if msg_retain m \<and> no_retain (c_conf s) then Inr s
      else and_then (filtered L (filter_outs (c_conf s)) (msg_topic m)) (\<lambda>res.
        if res then Inr s else Inr (counted (dump_mqtt P m s))))"

section \<open>Sending\<close>

definition send_mqtt_msg ::
  "mosq_lib \<Rightarrow> proto \<Rightarrow> cptr \<Rightarrow> 16 word \<Rightarrow> 64 word \<Rightarrow> out_msg \<Rightarrow> client \<Rightarrow> client run" where
  "send_mqtt_msg L P dest ty mid msg s =
     and_then (deref dest) (\<lambda>t.
       (let s = emit (Stderr (''send_mqtt_msg -> topic: '' @ t @ '' type: '' @ dec_nat (unat ty) @
              '' id '' @ dec_int (sint mid) @ '' '' @ debug_of P msg)) s;
            c = Publish t (frame ty mid (bytes_of P msg)) 1 False;
            (rc, s) = ask L c s
        in Inr (emit (Stderr (if rc = 0 then ''publish success. mid: '' @ dec_int (publish_mid L (c_trace s)) else ''publish error: '' @ dec_int rc)) s)))"

definition test_client :: client_info where
  "test_client = \<lparr>ci_uid = 20170009, ci_device_id = ''mqtt_device_123'',
     ci_gps = \<lparr>latitude = 301234667, longitude = 1181234667\<rparr>\<rparr>"

fun send_states ::
  "mosq_lib \<Rightarrow> proto \<Rightarrow> cptr \<Rightarrow> (client \<Rightarrow> int) \<Rightarrow> nat \<Rightarrow> 64 word \<Rightarrow> client \<Rightarrow> client run" where
  "send_states L P dest time 0 mid s = Inr s"
| "send_states L P dest time (Suc n) mid s =
     and_then (to_long (time s * 1000)) (\<lambda>ms.
       and_then (send_mqtt_msg L P dest (live_number P LMT_GAME_LIVE_STATE) mid
           (GameLiveStateInfo ms test_client) s)
         (\<lambda>s. send_states L P dest time n (mid + 1) s))"

definition send_live_msg_game_state ::
  "mosq_lib \<Rightarrow> proto \<Rightarrow> cptr \<Rightarrow> (client \<Rightarrow> int) \<Rightarrow> client \<Rightarrow> client run" where
  "send_live_msg_game_state L P dest time s = send_states L P dest time 4 12345678901234000 s"

definition send_game_contact_msg :: "mosq_lib \<Rightarrow> proto \<Rightarrow> cptr \<Rightarrow> client \<Rightarrow> client run" where
  "send_game_contact_msg L P dest s =
     (let msg = GameContactInfo 2017003 2017004 \<lparr>latitude = 22.51325409, longitude = 113.94549413\<rparr>;
          send = send_mqtt_msg L P dest (live_number P LMT_GAME_CONTACT_INFO) 100000000050000000 msg
      in and_then (send s) send)"

definition send_msg :: "mosq_lib \<Rightarrow> proto \<Rightarrow> cptr \<Rightarrow> client \<Rightarrow> client run" where
  "send_msg L P dest s =
     send_mqtt_msg L P dest (live_number P LMT_SEARCH_NEARBY_USERS) 100000000070000000
       (SearchNearbyUsers test_client) s"

section \<open>The other callbacks\<close>

fun subscribe_all :: "mosq_lib \<Rightarrow> cptr list \<Rightarrow> client \<Rightarrow> client" where
  "subscribe_all L [] s = s"
| "subscribe_all L (p # ps) s =
     subscribe_all L ps (snd (ask L (Subscribe (text_of p) (qos (c_conf s))) s))"

definition my_connect_callback :: "mosq_lib \<Rightarrow> proto \<Rightarrow> int \<Rightarrow> client \<Rightarrow> client run" where
  "my_connect_callback L P result s =
     (if result = 0
      then (let s = subscribe_all L (topics (c_conf s)) (s\<lparr>g_connected := True\<rparr>)
            in send_msg L P (topic (c_conf s)) s)
      else Inr (complain (connack_string L result) s))"

text \<open>The granted levels: the first is printed whether or not there is one.\<close>

definition my_subscribe_callback :: "int \<Rightarrow> int list \<Rightarrow> client \<Rightarrow> client run" where
  "my_subscribe_callback mid granted s =
     (if quiet (c_conf s) then Inr s
      else (case granted of
        [] \<Rightarrow> Inl Out_Of_Bounds
      | g # gs \<Rightarrow> Inr (emit (Stdout (''Subscribed (mid: '' @ dec_int mid @ ''): '' @ dec_int g @
          concat (map (\<lambda>g. '', '' @ dec_int g) gs))) s)))"

definition my_disconnect_callback :: "mosq_lib \<Rightarrow> int \<Rightarrow> client \<Rightarrow> client" where
  "my_disconnect_callback L rc s =
     (let s = s\<lparr>g_connected := False\<rparr>;
          why = (if rc = err_auth L then ''MOSQ_ERR_AUTH ''
                 else if rc = err_conn_refused L then ''CONN_REFUSED ''
                 else ''ERROR '' @ dec_int rc @ '' '')
      in emit (Stderr (why @ ''Disconnected!'')) s)"

definition my_publish_callback :: "int \<Rightarrow> client \<Rightarrow> client" where
  "my_publish_callback mid s = s\<lparr>g_last_mid_sent := mid\<rparr>"

text \<open>The log callback has no statement left.\<close>

definition my_log_callback :: "int \<Rightarrow> string \<Rightarrow> client \<Rightarrow> client" where
  "my_log_callback level str s = s"

section \<open>The loop and main\<close>

text \<open>The callbacks libmosquitto runs, as events.\<close>

datatype mevent =
    On_Connect int
  | On_Message mosq_message
  | On_Subscribe int "int list"
  | On_Publish int
  | On_Disconnect int
  | On_Log int string

fun run_callback :: "mosq_lib \<Rightarrow> proto \<Rightarrow> mevent \<Rightarrow> client \<Rightarrow> client run" where
  "run_callback L P (On_Connect result) s = my_connect_callback L P result s"
| "run_callback L P (On_Message m) s = my_message_callback L P m s"
| "run_callback L P (On_Subscribe mid granted) s = my_subscribe_callback mid granted s"
| "run_callback L P (On_Publish mid) s = Inr (my_publish_callback mid s)"
| "run_callback L P (On_Disconnect rc) s = Inr (my_disconnect_callback L rc s)"
| "run_callback L P (On_Log level str) s = Inr (my_log_callback level str s)"

fun run_callbacks :: "mosq_lib \<Rightarrow> proto \<Rightarrow> mevent list \<Rightarrow> client \<Rightarrow> client run" where
  "run_callbacks L P [] s = Inr s"
| "run_callbacks L P (e # es) s = and_then (run_callback L P e s) (run_callbacks L P es)"

text \<open>The state after the load: the global variables have their initial values.\<close>

definition client_start :: "pstate \<Rightarrow> client" where
  "client_start st =
     \<lparr>c_conf = conf st, c_alloc = next_alloc st, c_trace = map Stderr (err_lines st),
      process_messages = True, g_msg_count = 0, g_connected = False, g_last_mid_sent = 0\<rparr>"

text \<open>
  \<open>main\<close> from the connect on: \<open>mosquitto_loop_forever\<close> runs the callbacks and returns
  \<open>loop_rc\<close>.
\<close>

definition main_loop ::
  "client_env \<Rightarrow> mosq_lib \<Rightarrow> proto \<Rightarrow> mevent list \<Rightarrow> int \<Rightarrow> client \<Rightarrow> (int \<times> client) run" where
  "main_loop E L P events loop_rc s =
     (case client_connect E L (emit Callbacks_Set s) of (rc, s) \<Rightarrow>
        if rc \<noteq> 0 then Inr (rc, s)
        else and_then (run_callbacks L P events s) (\<lambda>s.
          (let s = emit Lib_Cleanup (emit Mosq_Destroy s);
               rc = (if msg_count (c_conf s) > 0 \<and> loop_rc = err_no_conn L then 0 else loop_rc)
           in Inr (rc, if rc \<noteq> 0 then emit (Stderr (''Error: '' @ mosq_strerror L rc)) s else s))))"

text \<open>A refused \<open>mosquitto_new\<close> answers with the error number.\<close>

definition main_new ::
  "client_env \<Rightarrow> mosq_lib \<Rightarrow> proto \<Rightarrow> mevent list \<Rightarrow> int \<Rightarrow> client \<Rightarrow> (int \<times> client) run" where
  "main_new E L P events loop_rc s =
     (case ask L (Mosq_New (text_of (client_id (c_conf s))) (clean_session (c_conf s))) s of (errno, s) \<Rightarrow>
        if errno \<noteq> 0
        then Inr (1, emit Lib_Cleanup
               (if errno = enomem L then complain ''Error: Out of memory.'' s
                else if errno = einval L then complain ''Error: Invalid id and/or clean_session.'' s
                else s))
        else (case client_opts_set E L s of (rc, s) \<Rightarrow>
          if rc \<noteq> 0 then Inr (1, s) else main_loop E L P events loop_rc s))"

definition main ::
  "client_env \<Rightarrow> mosq_lib \<Rightarrow> proto \<Rightarrow> string list \<Rightarrow> mevent list \<Rightarrow> int \<Rightarrow> (int \<times> client) run" where
  "main E L P args events loop_rc =
     and_then (client_config_load E CLIENT_SUB args) (\<lambda>(rc, st).
       if rc \<noteq> 0
       then and_then (client_config_cleanup E (conf st)) (\<lambda>_.
              Inr (1, if rc = 2 then print_usage E L (client_start st)
                      else emit (Stderr (''Use '' @ quote # ''mqttest --help'' @ quote # '' to see usage.''))
                             (client_start st)))
       else and_then (client_id_generate E L ''code'' (emit Lib_Init (client_start st))) (\<lambda>(rc, s).
              if rc \<noteq> 0 then Inr (1, s) else main_new E L P events loop_rc s))"

end
