(* ===== verification/Client_Run.thy ===== *)
theory Client_Run
  imports Mqttest
begin

text \<open>
  The run of the test client: the stages of \<open>main\<close> as a contract (a stage either goes on or has
  cleaned up the library once), what the callbacks keep, and the state machine of the callbacks with
  its invariant about the number of messages to receive.
\<close>

section \<open>What an operation adds to the trace\<close>

text \<open>The calls that open and close the library.\<close>

definition lib_call :: "mcall \<Rightarrow> bool" where
  "lib_call c \<longleftrightarrow> c = Lib_Init \<or> c = Lib_Cleanup \<or> c = Mosq_Destroy"

definition quiet_step :: "client \<Rightarrow> client \<Rightarrow> bool" where
  "quiet_step s s' \<longleftrightarrow> (\<exists>es. c_trace s' = c_trace s @ es \<and> filter lib_call es = [])"

definition stage_result :: "client \<Rightarrow> int \<times> client \<Rightarrow> bool" where
  "stage_result s r \<longleftrightarrow>
     (\<exists>es. c_trace (snd r) = c_trace s @ es \<and>
        filter lib_call es = (if fst r = 0 then [] else [Lib_Cleanup]))"

text \<open>
  The contract of a stage of \<open>main\<close>: it returns 0 without closing the library, or something else
  after closing it exactly once.
\<close>

locale stage =
  fixes step :: "client \<Rightarrow> (int \<times> client) run"
  assumes result: "step s = Inr r \<Longrightarrow> stage_result s r"
begin

lemma goes_on: "step s = Inr (0, s') \<Longrightarrow> quiet_step s s'"
  using result by (fastforce simp: stage_result_def quiet_step_def)

lemma stops:
  "step s = Inr (rc, s') \<Longrightarrow> rc \<noteq> 0 \<Longrightarrow>
    \<exists>es. c_trace s' = c_trace s @ es \<and> filter lib_call es = [Lib_Cleanup]"
  using result by (fastforce simp: stage_result_def)

end

lemma stage_result_start: "stage_result s (0, s)"
  by (simp add: stage_result_def)

lemma stage_result_after:
  "quiet_step s s' \<Longrightarrow> stage_result s' r \<Longrightarrow> stage_result s r"
  by (force simp: stage_result_def quiet_step_def)

lemma stage_result_close: "quiet_step s s' \<Longrightarrow> rc \<noteq> 0 \<Longrightarrow> stage_result s (rc, emit Lib_Cleanup s')"
  by (auto simp: stage_result_def quiet_step_def emit_def lib_call_def)

lemma quiet_refl [simp, intro]: "quiet_step s s"
  by (simp add: quiet_step_def)

lemma quiet_trans: "quiet_step s t \<Longrightarrow> quiet_step t u \<Longrightarrow> quiet_step s u"
  by (force simp: quiet_step_def)

lemma quiet_emit [intro]: "quiet_step s t \<Longrightarrow> \<not> lib_call c \<Longrightarrow> quiet_step s (emit c t)"
  by (force simp: quiet_step_def emit_def)

lemma quiet_ask [intro]: "quiet_step s t \<Longrightarrow> \<not> lib_call c \<Longrightarrow> quiet_step s (snd (ask L c t))"
  by (simp add: ask_def quiet_emit)

lemma quiet_complain [intro]: "quiet_step s t \<Longrightarrow> quiet_step s (complain m t)"
  by (simp add: complain_def quiet_emit lib_call_def)

lemma quiet_same: "c_trace s' = c_trace s \<Longrightarrow> quiet_step s s'"
  by (simp add: quiet_step_def)

section \<open>The stages\<close>

lemma setting_stage:
  assumes "\<not> lib_call c" "\<And>s. stage_result s (k s)"
  shows "stage_result s (setting L wanted c msg k s)"
proof (cases wanted)
  case True
  obtain rc t where a: "ask L c s = (rc, t)" by fastforce
  have q: "quiet_step s t" using quiet_ask [OF quiet_refl assms(1), of s L] a by simp
  then have "stage_result s (1, emit Lib_Cleanup (complain msg t))"
    by (intro stage_result_close quiet_complain) simp_all
  then show ?thesis
    using stage_result_after [OF q assms(2)] True by (simp add: setting_def a)
qed (simp add: setting_def assms(2))

lemma socks_setting_stage:
  assumes "\<not> lib_call c" "\<And>s. stage_result s (k s)"
  shows "stage_result s (socks_setting L wanted c k s)"
proof (cases wanted)
  case True
  obtain rc t where a: "ask L c s = (rc, t)" by fastforce
  have q: "quiet_step s t" using quiet_ask [OF quiet_refl assms(1), of s L] a by simp
  then show ?thesis
    using stage_result_after [OF q assms(2)] stage_result_close [OF q] True
    by (simp add: socks_setting_def a)
qed (simp add: socks_setting_def assms(2))

lemma emit_stage: "\<not> lib_call c \<Longrightarrow> stage_result s (0, emit c s)"
  by (simp add: stage_result_def emit_def)

lemma emit_then_stage:
  "\<not> lib_call c \<Longrightarrow> (\<And>s. stage_result s (k s)) \<Longrightarrow> stage_result s (k (emit c s))"
  by (rule stage_result_after [OF quiet_emit [OF quiet_refl]])

lemma client_opts_set_stage: "stage_result s (client_opts_set E L s)"
  unfolding client_opts_set_def Let_def
  by (intro setting_stage emit_then_stage [where k = "socks_setting _ _ _ _"] socks_setting_stage emit_stage)
    (simp_all add: lib_call_def)

interpretation opts: stage "\<lambda>s. Inr (client_opts_set E L s)" for E L
  by unfold_locales (auto simp: client_opts_set_stage)

lemma connect_call_quiet: "quiet_step s (snd (connect_call E L s))"
  by (cases "with_srv E"; cases "use_srv (c_conf s)")
    (auto simp: connect_call_def Let_def split_beta lib_call_def intro!: quiet_emit quiet_ask)

lemma client_connect_stage: "stage_result s (client_connect E L s)"
proof -
  obtain rc t where c: "connect_call E L s = (rc, t)" by fastforce
  have q: "quiet_step s t" using connect_call_quiet [of s E L] by (simp add: c)
  show ?thesis
    using stage_result_close [OF quiet_complain [OF q], of rc]
      stage_result_after [OF q stage_result_start]
    by (simp add: client_connect_def c)
qed

interpretation connect: stage "\<lambda>s. Inr (client_connect E L s)" for E L
  by unfold_locales (auto simp: client_connect_stage)

interpretation id_stage: stage "client_id_generate E L base" for E L base
proof
  fix s r
  assume g: "client_id_generate E L base s = Inr r"
  have oom: "stage_result s (no_memory t)" if "c_trace t = c_trace s" for t
    unfolding no_memory_def using that by (intro stage_result_close quiet_complain quiet_same) simp_all
  have ok: "stage_result s (0, t)" if "c_trace t = c_trace s" for t
    using that by (simp add: stage_result_def)
  show "stage_result s r"
    using g by (auto simp: client_id_generate_def fault_simps Let_def split: if_splits intro!: oom ok)
qed

section \<open>The callbacks\<close>

text \<open>
  The count of messages: with a number of messages to receive, counting stops when it is reached, and
  the client has asked for the disconnect exactly then and once; without one nothing is counted.
\<close>

definition disconnects :: "mcall list \<Rightarrow> nat" where
  "disconnects tr = length (filter (\<lambda>c. c = Disconnect) tr)"

definition count_inv :: "client \<Rightarrow> bool" where
  "count_inv s \<longleftrightarrow>
     (if msg_count (c_conf s) > 0
      then 0 \<le> g_msg_count s \<and> g_msg_count s \<le> msg_count (c_conf s) \<and>
        (process_messages s \<longleftrightarrow> g_msg_count s < msg_count (c_conf s)) \<and>
        disconnects (c_trace s) = (if process_messages s then 0 else 1)
      else g_msg_count s = 0 \<and> process_messages s \<and> disconnects (c_trace s) = 0)"

definition kept :: "client \<Rightarrow> client \<Rightarrow> bool" where
  "kept s s' \<longleftrightarrow> c_conf s' = c_conf s \<and> quiet_step s s' \<and> (count_inv s \<longrightarrow> count_inv s')"

text \<open>The contract of a callback.\<close>

locale handler =
  fixes handle :: "client \<Rightarrow> client run"
  assumes keeps: "handle s = Inr s' \<Longrightarrow> kept s s'"
begin

lemma keeps_conf: "handle s = Inr s' \<Longrightarrow> c_conf s' = c_conf s"
  using keeps by (simp add: kept_def)

lemma keeps_count: "handle s = Inr s' \<Longrightarrow> count_inv s \<Longrightarrow> count_inv s'"
  using keeps by (simp add: kept_def)

lemma adds_quietly: "handle s = Inr s' \<Longrightarrow> quiet_step s s'"
  using keeps by (simp add: kept_def)

end

lemma kept_refl [simp, intro]: "kept s s"
  by (simp add: kept_def)

lemma kept_trans: "kept s t \<Longrightarrow> kept t u \<Longrightarrow> kept s u"
  using quiet_trans by (auto simp: kept_def)

lemma kept_emit: "kept s t \<Longrightarrow> \<not> lib_call c \<Longrightarrow> c \<noteq> Disconnect \<Longrightarrow> kept s (emit c t)"
  using quiet_emit [of s t c]
  by (auto simp: kept_def count_inv_def emit_def disconnects_def)

lemma kept_ask: "kept s t \<Longrightarrow> \<not> lib_call c \<Longrightarrow> c \<noteq> Disconnect \<Longrightarrow> kept s (snd (ask L c t))"
  by (simp add: ask_def kept_emit)

lemma not_lib_call [simp]:
  "\<not> lib_call (Stderr x)" "\<not> lib_call (Stdout x)" "\<not> lib_call (Subscribe t q)" "\<not> lib_call (Publish p b q r)"
  "\<not> lib_call Disconnect" "\<not> lib_call Callbacks_Set" "\<not> lib_call (Mosq_New i n)"
  by (simp_all add: lib_call_def)

lemma kept_complain: "kept s t \<Longrightarrow> kept s (complain m t)"
  by (simp add: complain_def kept_emit)

lemma send_mqtt_msg_kept: "send_mqtt_msg L P dest ty mid msg s = Inr s' \<Longrightarrow> kept s s'"
  by (auto simp: send_mqtt_msg_def fault_simps Let_def split_beta intro!: kept_emit kept_ask)

lemma subscribe_all_kept: "kept s t \<Longrightarrow> kept s (subscribe_all L ps t)"
  by (induction ps arbitrary: t) (simp_all add: kept_ask)

interpretation on_connect: handler "my_connect_callback L P result" for L P result
proof
  fix s s'
  assume h: "my_connect_callback L P result s = Inr s'"
  have "kept s (s\<lparr>g_connected := True\<rparr>)"
    by (simp add: kept_def count_inv_def quiet_step_def)
  then have "kept s (subscribe_all L (topics (c_conf s)) (s\<lparr>g_connected := True\<rparr>))"
    by (rule subscribe_all_kept)
  then show "kept s s'"
    using h kept_complain [OF kept_refl] send_mqtt_msg_kept kept_trans
    by (auto simp: my_connect_callback_def send_msg_def Let_def split: if_splits)
qed

interpretation on_subscribe: handler "my_subscribe_callback mid granted" for mid granted
  by unfold_locales
    (auto simp: my_subscribe_callback_def split: if_splits list.splits intro!: kept_emit)

interpretation on_publish: handler "\<lambda>s. Inr (my_publish_callback mid s)" for mid
  by unfold_locales (auto simp: my_publish_callback_def kept_def count_inv_def quiet_step_def)

interpretation on_disconnect: handler "\<lambda>s. Inr (my_disconnect_callback L rc s)" for L rc
proof
  fix s s'
  assume h: "Inr (my_disconnect_callback L rc s) = Inr s'"
  have "kept s (s\<lparr>g_connected := False\<rparr>)" by (simp add: kept_def count_inv_def quiet_step_def)
  with h show "kept s s'" by (auto simp: my_disconnect_callback_def Let_def intro!: kept_emit)
qed

interpretation on_log: handler "\<lambda>s. Inr (my_log_callback level str s)" for level str
  by unfold_locales (auto simp: my_log_callback_def)

text \<open>Printing a message, and counting it.\<close>

definition prints :: "client \<Rightarrow> client \<Rightarrow> bool" where
  "prints s t \<longleftrightarrow> (\<exists>ls. t = s\<lparr>c_trace := c_trace s @ map Stderr ls\<rparr>)"

lemma prints_refl: "prints s s"
  unfolding prints_def by (rule exI [of _ "[]"]) simp

lemma prints_emit: "prints s t \<Longrightarrow> prints s (emit (Stderr x) t)"
  unfolding prints_def emit_def by (elim exE, rule_tac x = "ls @ [x]" in exI) simp

lemma prints_decoded: "prints s t \<Longrightarrow> prints s (decoded ty d t)"
  by (cases d) (simp_all add: decoded_def prints_emit)

lemma prints_im: "prints s (dump_im_msg P m s)"
proof (cases "parse_header (msg_payload m)")
  case None
  then show ?thesis by (simp add: dump_im_msg_def wrong_size_def prints_emit prints_refl)
next
  case (Some x)
  obtain ty mid body where x: "x = (ty, mid, body)" by (cases x)
  show ?thesis
    by (cases "im_of P ty")
      (simp_all add: dump_im_msg_def Some x unknown_type_def Let_def prints_emit prints_decoded prints_refl)
qed

lemma prints_live: "prints s (dump_live_msg P m s)"
proof (cases "parse_header (msg_payload m)")
  case None
  then show ?thesis by (simp add: dump_live_msg_def wrong_size_def prints_emit prints_refl)
next
  case (Some x)
  obtain ty mid body where x: "x = (ty, mid, body)" by (cases x)
  show ?thesis
  proof (cases "live_of P ty")
    case None
    then show ?thesis
      by (simp add: dump_live_msg_def Some x unknown_type_def Let_def prints_emit prints_refl)
  next
    case t: (Some t)
    show ?thesis
      by (cases t; cases "show_live P t body")
        (simp_all add: dump_live_msg_def Some x t unknown_type_def Let_def prints_emit prints_decoded prints_refl)
  qed
qed

lemma prints_dump: "prints s (dump_mqtt P m s)"
  by (simp add: dump_mqtt_def prints_im prints_live prints_emit prints_refl)

lemma no_calls_printed: "filter lib_call (map Stderr ls) = []" "filter (\<lambda>c. c = Disconnect) (map Stderr ls) = []"
  by (induction ls) simp_all

lemma prints_kept:
  assumes "prints s t"
  shows "kept s t"
proof -
  obtain ls where t: "t = s\<lparr>c_trace := c_trace s @ map Stderr ls\<rparr>"
    using assms unfolding prints_def ..
  have "quiet_step s t" unfolding quiet_step_def t using no_calls_printed(1) by auto
  moreover have "count_inv t = count_inv s"
    unfolding count_inv_def disconnects_def t by (simp add: no_calls_printed(2))
  ultimately show ?thesis unfolding kept_def by (simp add: t)
qed

lemma dump_mqtt_kept: "kept s (dump_mqtt P m s)"
  using prints_dump by (rule prints_kept)

lemma dump_process: "process_messages (dump_mqtt P m s) = process_messages s"
  using prints_dump [of s P m] by (auto simp: prints_def)

lemma counted_kept:
  assumes "process_messages s"
  shows "kept s (counted s)"
proof (cases "msg_count (c_conf s) > 0")
  case pos: True
  show ?thesis
  proof (cases "msg_count (c_conf s) = g_msg_count s + 1")
    case True
    have c: "counted s = s\<lparr>g_msg_count := g_msg_count s + 1, process_messages := False,
        c_trace := c_trace s @ [Disconnect]\<rparr>"
      using pos True by (simp add: counted_def emit_def)
    have "quiet_step s (counted s)" unfolding c quiet_step_def by simp
    then show ?thesis
      using assms pos True unfolding kept_def count_inv_def c by (simp add: disconnects_def)
  next
    case False
    have c: "counted s = s\<lparr>g_msg_count := g_msg_count s + 1\<rparr>"
      using pos False by (simp add: counted_def)
    show ?thesis
      using assms pos False unfolding kept_def count_inv_def c by (simp add: quiet_step_def)
  qed
qed (simp add: counted_def)

interpretation on_message: handler "my_message_callback L P m" for L P m
proof
  fix s s'
  assume h: "my_message_callback L P m s = Inr s'"
  have "kept s (counted (dump_mqtt P m s))" if "process_messages s"
    using kept_trans [OF dump_mqtt_kept counted_kept] that by (simp add: dump_process)
  with h show "kept s s'"
    by (auto simp: my_message_callback_def fault_simps split: if_splits)
qed

lemma run_callback_kept: "run_callback L P e s = Inr s' \<Longrightarrow> kept s s'"
  by (cases e) (auto intro: on_connect.keeps on_message.keeps on_subscribe.keeps on_publish.keeps
      on_disconnect.keeps on_log.keeps)

lemma run_callbacks_kept: "run_callbacks L P es s = Inr s' \<Longrightarrow> kept s s'"
  by (induction es arbitrary: s) (auto simp: fault_simps dest!: run_callback_kept intro: kept_trans)

section \<open>The state machine of the callbacks\<close>

inductive client_step :: "mosq_lib \<Rightarrow> proto \<Rightarrow> client \<Rightarrow> client \<Rightarrow> bool" for L P where
  callback: "run_callback L P e s = Inr s' \<Longrightarrow> client_step L P s s'"

inductive client_reachable :: "mosq_lib \<Rightarrow> proto \<Rightarrow> client \<Rightarrow> client \<Rightarrow> bool" for L P s0 where
  start: "client_reachable L P s0 s0"
| step: "client_reachable L P s0 s \<Longrightarrow> client_step L P s s' \<Longrightarrow> client_reachable L P s0 s'"

inductive_cases client_stepE: "client_step L P s s'"
inductive_simps client_step_iff: "client_step L P s s'"

lemma client_step_kept: "client_step L P s s' \<Longrightarrow> kept s s'"
  by (erule client_stepE) (rule run_callback_kept)

lemma reachable_kept: "client_reachable L P s0 s \<Longrightarrow> kept s0 s"
  by (induction rule: client_reachable.induct) (auto intro: kept_trans client_step_kept)

text \<open>The callbacks the library runs in a row are a path of the state machine.\<close>

lemma run_callbacks_reachable:
  "client_reachable L P s0 s \<Longrightarrow> run_callbacks L P es s = Inr s' \<Longrightarrow> client_reachable L P s0 s'"
proof (induction es arbitrary: s)
  case (Cons e es)
  from Cons.prems(2) obtain u where u: "run_callback L P e s = Inr u" "run_callbacks L P es u = Inr s'"
    by (auto simp: fault_simps)
  have "client_reachable L P s0 u"
    using Cons.prems(1) client_step.callback [OF u(1)] by (rule client_reachable.step)
  then show ?case using u(2) by (rule Cons.IH)
qed simp

lemma count_inv_start:
  assumes "0 \<le> msg_count (conf st)"
  shows "count_inv (client_start st)"
proof -
  have "disconnects (c_trace (client_start st)) = 0"
    by (simp add: disconnects_def client_start_def no_calls_printed)
  then show ?thesis using assms by (simp add: count_inv_def client_start_def)
qed

section \<open>What is sent\<close>

lemma send_mqtt_msg_trace:
  assumes "send_mqtt_msg L P dest ty mid msg s = Inr s'"
  shows "\<exists>t x y. deref dest = Inr t \<and>
    c_trace s' = c_trace s @ [Stderr x, Publish t (frame ty mid (bytes_of P msg)) 1 False, Stderr y] \<and>
    s' = s\<lparr>c_trace := c_trace s'\<rparr>"
  using assms by (auto simp: send_mqtt_msg_def fault_simps Let_def ask_def emit_def)

lemma subscribe_all_trace:
  "subscribe_all L ps s =
    s\<lparr>c_trace := c_trace s @ map (\<lambda>p. Subscribe (text_of p) (qos (c_conf s))) ps\<rparr>"
  by (induction ps arbitrary: s) (simp_all add: ask_def emit_def)

lemma connect_callback_trace:
  assumes "my_connect_callback L P 0 s = Inr s'"
  shows "\<exists>t x y. deref (topic (c_conf s)) = Inr t \<and> g_connected s' \<and>
    c_trace s' = c_trace s @ map (\<lambda>p. Subscribe (text_of p) (qos (c_conf s))) (topics (c_conf s)) @
      [Stderr x, Publish t (frame (live_number P LMT_SEARCH_NEARBY_USERS) 100000000070000000
         (bytes_of P (SearchNearbyUsers test_client))) 1 False, Stderr y]"
proof -
  let ?s = "subscribe_all L (topics (c_conf s)) (s\<lparr>g_connected := True\<rparr>)"
  have q: "?s = s\<lparr>g_connected := True, c_trace := c_trace s @
      map (\<lambda>p. Subscribe (text_of p) (qos (c_conf s))) (topics (c_conf s))\<rparr>"
    by (simp add: subscribe_all_trace)
  have "send_mqtt_msg L P (topic (c_conf s)) (live_number P LMT_SEARCH_NEARBY_USERS) 100000000070000000
      (SearchNearbyUsers test_client) ?s = Inr s'"
    using assms by (simp add: my_connect_callback_def send_msg_def q)
  from send_mqtt_msg_trace [OF this] obtain t x y where r: "deref (topic (c_conf s)) = Inr t"
    "c_trace s' = c_trace ?s @ [Stderr x, Publish t (frame (live_number P LMT_SEARCH_NEARBY_USERS) 100000000070000000
         (bytes_of P (SearchNearbyUsers test_client))) 1 False, Stderr y]"
    "s' = ?s\<lparr>c_trace := c_trace s'\<rparr>" by blast
  have "g_connected s' = g_connected (?s\<lparr>c_trace := c_trace s'\<rparr>)" using r(3) by (rule arg_cong)
  with r(1,2) show ?thesis by (simp add: q)
qed

section \<open>main\<close>

lemma lib_calls_start: "filter lib_call (c_trace (client_start st)) = []"
  by (simp add: client_start_def no_calls_printed)

lemma quiet_filter: "quiet_step s t \<Longrightarrow> filter lib_call (c_trace t) = filter lib_call (c_trace s)"
  by (auto simp: quiet_step_def)

lemma stage_filter:
  "stage_result s (rc, t) \<Longrightarrow> filter lib_call (c_trace t) =
    filter lib_call (c_trace s) @ (if rc = 0 then [] else [Lib_Cleanup])"
  by (auto simp: stage_result_def)

lemma filter_emit: "filter lib_call (c_trace (emit c s)) =
    filter lib_call (c_trace s) @ (if lib_call c then [c] else [])"
  by (simp add: emit_def)

lemma filter_emit_if: "filter lib_call (c_trace (if b then emit (Stderr x) s else s)) = filter lib_call (c_trace s)"
  by (simp add: filter_emit)

lemma lib_calls [simp]: "lib_call Lib_Init" "lib_call Lib_Cleanup" "lib_call Mosq_Destroy"
  by (simp_all add: lib_call_def)

text \<open>From the connect on: the library is closed once, after the client was destroyed if it ran.\<close>

lemma main_loop_calls:
  assumes "main_loop E L P events loop_rc s = Inr (rc, t)"
  shows "filter lib_call (c_trace t) \<in> {filter lib_call (c_trace s) @ [Lib_Cleanup],
    filter lib_call (c_trace s) @ [Mosq_Destroy, Lib_Cleanup]}"
proof -
  obtain crc u where c: "client_connect E L (emit Callbacks_Set s) = (crc, u)" by fastforce
  have "quiet_step s (emit Callbacks_Set s)" by (simp add: quiet_emit)
  from stage_filter [OF client_connect_stage [of "emit Callbacks_Set s" E L, unfolded c]] quiet_filter [OF this]
  have u: "filter lib_call (c_trace u) = filter lib_call (c_trace s) @ (if crc = 0 then [] else [Lib_Cleanup])"
    by simp
  show ?thesis
  proof (cases "crc = 0")
    case False
    then show ?thesis using assms u by (simp add: main_loop_def c)
  next
    case True
    then obtain v where v: "run_callbacks L P events u = Inr v"
      using assms by (auto simp: main_loop_def c fault_simps)
    then have "filter lib_call (c_trace v) = filter lib_call (c_trace s)"
      using run_callbacks_kept [OF v] quiet_filter [of u v] u True by (simp add: kept_def)
    then show ?thesis
      using assms True v
      by (simp only: main_loop_def c Let_def prod.case and_then.simps if_False simp_thms sum.inject prod.inject)
        (elim conjE, hypsubst, simp add: filter_emit_if filter_emit del: if_split)
  qed
qed

lemma main_new_calls:
  assumes "main_new E L P events loop_rc s = Inr (rc, t)"
  shows "filter lib_call (c_trace t) \<in> {filter lib_call (c_trace s) @ [Lib_Cleanup],
    filter lib_call (c_trace s) @ [Mosq_Destroy, Lib_Cleanup]}"
proof -
  let ?new = "Mosq_New (text_of (client_id (c_conf s))) (clean_session (c_conf s))"
  obtain en u where a: "ask L ?new s = (en, u)" by fastforce
  have u: "filter lib_call (c_trace u) = filter lib_call (c_trace s)"
    using quiet_filter [OF quiet_ask [OF quiet_refl [of s], of ?new L]] a by simp
  have comp: "filter lib_call (c_trace (complain m u)) = filter lib_call (c_trace s)" for m
    using quiet_filter [OF quiet_complain [OF quiet_refl [of u]], of m] u by simp
  obtain orc v where o: "client_opts_set E L u = (orc, v)" by fastforce
  have v: "filter lib_call (c_trace v) = filter lib_call (c_trace s) @ (if orc = 0 then [] else [Lib_Cleanup])"
    using stage_filter [OF client_opts_set_stage [of u E L, unfolded o]] u by simp
  show ?thesis
    using assms main_loop_calls [of E L P events loop_rc v rc t] u comp v
    by (auto simp: main_new_def a o filter_emit split: if_splits)
qed

lemma main_calls:
  assumes "main E L P args events loop_rc = Inr (rc, t)"
  shows "filter lib_call (c_trace t) \<in> {[], [Lib_Init, Lib_Cleanup], [Lib_Init, Mosq_Destroy, Lib_Cleanup]}"
proof -
  obtain lrc st where l: "client_config_load E CLIENT_SUB args = Inr (lrc, st)"
    using assms by (cases "client_config_load E CLIENT_SUB args") (auto simp: main_def)
  show ?thesis
  proof (cases "lrc = 0")
    case False
    have "filter lib_call (c_trace (print_usage E L (client_start st))) = []"
      by (simp add: print_usage_trace lib_calls_start filter_empty_conv)
    then show ?thesis
      using assms False
      by (auto simp: main_def l fault_simps filter_emit lib_calls_start split: if_splits)
  next
    case True
    let ?s = "emit Lib_Init (client_start st)"
    have s: "filter lib_call (c_trace ?s) = [Lib_Init]" by (simp add: filter_emit lib_calls_start)
    obtain irc u where i: "client_id_generate E L ''code'' ?s = Inr (irc, u)"
      using assms True by (auto simp: main_def l fault_simps)
    have u: "filter lib_call (c_trace u) = [Lib_Init] @ (if irc = 0 then [] else [Lib_Cleanup])"
      using stage_filter [OF id_stage.result [OF i]] s by simp
    show ?thesis
      using assms True u main_new_calls [of E L P events loop_rc u rc t]
      by (auto simp: main_def l i split: if_splits)
  qed
qed

section \<open>Properties\<close>

text \<open>
  C14. In every state the callbacks can reach from the start of the client, a client that wants a
  number of messages has counted no more than that, still processes messages exactly while it has
  counted fewer, and has asked for the disconnect exactly once when the number was reached; a client
  that wants no number never stops by itself.
\<close>

theorem message_count_invariant:
  assumes "client_reachable L P (client_start st) s" "0 \<le> msg_count (conf st)"
  shows "if 0 < msg_count (conf st)
    then 0 \<le> g_msg_count s \<and> g_msg_count s \<le> msg_count (conf st) \<and>
      (process_messages s \<longleftrightarrow> g_msg_count s < msg_count (conf st)) \<and>
      disconnects (c_trace s) = (if process_messages s then 0 else 1)
    else g_msg_count s = 0 \<and> process_messages s \<and> disconnects (c_trace s) = 0"
proof -
  have k: "kept (client_start st) s" using assms(1) by (rule reachable_kept)
  have "count_inv s" using k count_inv_start [OF assms(2)] by (simp add: kept_def)
  moreover have "c_conf s = conf st" using k by (simp add: kept_def client_start_def)
  ultimately show ?thesis by (simp only: count_inv_def)
qed

definition sample_proto :: proto where
  "sample_proto =
     \<lparr>live_number = (\<lambda>_. 7), live_of = (\<lambda>_. None), live_name = (\<lambda>_. []), im_of = (\<lambda>_. None),
      im_name = (\<lambda>_. []), show_live = (\<lambda>_ _. None), show_im = (\<lambda>_ _. None), bytes_of = (\<lambda>_. [1, 2]),
      debug_of = (\<lambda>_. [])\<rparr>"

definition one_message_state :: pstate where
  "one_message_state = sample_state\<lparr>conf := (conf sample_state)\<lparr>msg_count := 1\<rparr>\<rparr>"

definition stray_message :: mosq_message where
  "stray_message = \<lparr>msg_topic = ''x'', msg_payload = [], msg_retain = False\<rparr>"

theorem message_count_invariant_witness:
  "\<exists>s. client_reachable sample_lib sample_proto (client_start one_message_state) s \<and>
    g_msg_count s = 1 \<and> \<not> process_messages s \<and> disconnects (c_trace s) = 1"
proof -
  let ?s0 = "client_start one_message_state"
  have "\<exists>s. run_callback sample_lib sample_proto (On_Message stray_message) ?s0 = Inr s \<and> g_msg_count s = 1"
    by (simp add: my_message_callback_def filtered_def client_start_def one_message_state_def sample_state_def
        init_config_def stray_message_def dump_mqtt_def strncmp_eq_def counted_def emit_def Let_def)
  then obtain s where s: "run_callback sample_lib sample_proto (On_Message stray_message) ?s0 = Inr s" "g_msg_count s = 1"
    by blast
  have "client_reachable sample_lib sample_proto ?s0 s"
    using client_reachable.start client_step.callback [OF s(1)] by (rule client_reachable.step)
  with message_count_invariant [OF this] s(2) show ?thesis
    by (auto simp: one_message_state_def)
qed

text \<open>
  C23. On every path on which \<open>main\<close> returns, the library is opened at most once and closed exactly as
  often as it was opened; the client object is destroyed only when the loop was run.
\<close>

theorem main_closes_library:
  assumes "main E L P args events loop_rc = Inr (rc, t)"
  shows "filter lib_call (c_trace t) \<in> {[], [Lib_Init, Lib_Cleanup], [Lib_Init, Mosq_Destroy, Lib_Cleanup]}"
  using assms by (rule main_calls)

text \<open>A library that accepts every call lets the client run to its end.\<close>

lemma sample_opts: "fst (client_opts_set E sample_lib s) = 0"
proof -
  have "calls_ok sample_lib (c_trace s) (wanted_calls E (c_conf s))"
    by (simp add: calls_ok_def sample_lib_def list_all_iff)
  with perform_outcome [of sample_lib s "wanted_calls E (c_conf s)"] show ?thesis
    by (simp add: client_opts_set_perform)
qed

lemma sample_connect: "fst (client_connect E sample_lib s) = 0"
proof -
  have "fst (connect_call E sample_lib s) = 0"
    by (simp add: connect_call_def Let_def ask_def sample_lib_def)
  then show ?thesis by (cases "connect_call E sample_lib s") (simp add: client_connect_def)
qed

lemma sample_id:
  assumes "\<forall>n. malloc_ok E n"
  shows "\<exists>t. client_id_generate E sample_lib base s = Inr (0, t)"
  using assms by (cases "id_prefix (c_conf s)") (simp_all add: client_id_generate_def Let_def)

lemma sample_main_new:
  "\<exists>t. main_new E sample_lib P [] 0 s = Inr (0, t) \<and> Mosq_Destroy \<in> set (c_trace t)"
proof -
  obtain a where a: "ask sample_lib (Mosq_New (text_of (client_id (c_conf s))) (clean_session (c_conf s))) s = (0, a)"
    by (simp add: ask_def sample_lib_def)
  obtain b where b: "client_opts_set E sample_lib a = (0, b)"
    using sample_opts [of E a] by (cases "client_opts_set E sample_lib a") simp
  obtain c where c: "client_connect E sample_lib (emit Callbacks_Set b) = (0, c)"
    using sample_connect [of E "emit Callbacks_Set b"]
    by (cases "client_connect E sample_lib (emit Callbacks_Set b)") simp
  show ?thesis
    by (simp add: main_new_def a b main_loop_def c Let_def) (simp add: emit_def)
qed

theorem main_closes_library_witness:
  "\<exists>t. main bare_env sample_lib sample_proto [] [] 0 = Inr (0, t) \<and>
    filter lib_call (c_trace t) = [Lib_Init, Mosq_Destroy, Lib_Cleanup]"
proof -
  have m: "\<forall>n. malloc_ok bare_env n" by simp
  obtain st where l: "client_config_load bare_env CLIENT_SUB [] = Inr (0, st)"
    using load_no_arguments [of bare_env] by auto
  obtain s where s: "client_id_generate bare_env sample_lib ''code'' (emit Lib_Init (client_start st)) = Inr (0, s)"
    using sample_id [OF m] by blast
  obtain t where "main_new bare_env sample_lib sample_proto [] 0 s = Inr (0, t)" "Mosq_Destroy \<in> set (c_trace t)"
    using sample_main_new by blast
  then have t: "main bare_env sample_lib sample_proto [] [] 0 = Inr (0, t)"
    "Mosq_Destroy \<in> set (filter lib_call (c_trace t))"
    by (simp_all add: main_def l s)
  have "filter lib_call (c_trace t) \<noteq> [] \<and> filter lib_call (c_trace t) \<noteq> [Lib_Init, Lib_Cleanup]"
  proof (intro conjI notI)
    assume "filter lib_call (c_trace t) = []"
    then show False using t(2) by (simp only: list.set empty_iff)
  next
    assume "filter lib_call (c_trace t) = [Lib_Init, Lib_Cleanup]"
    then show False using t(2) by (simp only: list.set) simp
  qed
  then have "filter lib_call (c_trace t) = [Lib_Init, Mosq_Destroy, Lib_Cleanup]"
    using main_closes_library [OF t(1)] by blast
  with t(1) show ?thesis by blast
qed

text \<open>
  A connection that was accepted subscribes to every topic in order with the configured quality of
  service and then publishes one message, a search for nearby users, to the topic to publish to.
\<close>

theorem connect_callback_effect:
  assumes "my_connect_callback L P 0 s = Inr s'"
  shows "\<exists>t x y. deref (topic (c_conf s)) = Inr t \<and> g_connected s' \<and>
    c_trace s' = c_trace s @ map (\<lambda>p. Subscribe (text_of p) (qos (c_conf s))) (topics (c_conf s)) @
      [Stderr x, Publish t (frame (live_number P LMT_SEARCH_NEARBY_USERS) 100000000070000000
         (bytes_of P (SearchNearbyUsers test_client))) 1 False, Stderr y]"
  using assms by (rule connect_callback_trace)

theorem connect_callback_effect_witness:
  "\<exists>s'. my_connect_callback sample_lib sample_proto 0
      (client_start (sample_state\<lparr>conf := (conf sample_state)\<lparr>topic := CHeap 0 ''codein/live''\<rparr>\<rparr>)) = Inr s' \<and>
    g_connected s'"
proof -
  let ?s = "client_start (sample_state\<lparr>conf := (conf sample_state)\<lparr>topic := CHeap 0 ''codein/live''\<rparr>\<rparr>)"
  have "\<exists>s'. my_connect_callback sample_lib sample_proto 0 ?s = Inr s'"
    by (simp add: my_connect_callback_def send_msg_def send_mqtt_msg_def client_start_def Let_def
        subscribe_all_trace ask_def)
  then obtain s' where s: "my_connect_callback sample_lib sample_proto 0 ?s = Inr s'" ..
  from connect_callback_effect [OF s] s show ?thesis by blast
qed

text \<open>
  C40. What the client publishes is a frame from which the reader of received messages recovers the
  type, the id and the bytes of the message.
\<close>

theorem published_frame_readable:
  assumes "send_mqtt_msg L P dest ty mid msg s = Inr s'"
  shows "\<exists>t p es. deref dest = Inr t \<and> c_trace s' = c_trace s @ es \<and> Publish t p 1 False \<in> set es \<and>
    read_frame p = Some (ty, mid, bytes_of P msg)"
proof -
  obtain t x y where "deref dest = Inr t"
    "c_trace s' = c_trace s @ [Stderr x, Publish t (frame ty mid (bytes_of P msg)) 1 False, Stderr y]"
    using send_mqtt_msg_trace [OF assms] by blast
  moreover have "read_frame (frame ty mid (bytes_of P msg)) = Some (ty, mid, bytes_of P msg)"
    using framing.dec_enc [of "(ty, mid, bytes_of P msg)"] by (simp add: write_frame_def)
  ultimately show ?thesis by auto
qed

theorem published_frame_readable_witness:
  "\<exists>s'. send_mqtt_msg sample_lib sample_proto (CHeap 0 ''t'') 7 100000000070000000
      (SearchNearbyUsers test_client) (client_start sample_state) = Inr s' \<and>
    (\<exists>p. Publish ''t'' p 1 False \<in> set (c_trace s') \<and> read_frame p = Some (7, 100000000070000000, [1, 2]))"
proof -
  have "\<exists>s'. send_mqtt_msg sample_lib sample_proto (CHeap 0 ''t'') 7 100000000070000000
      (SearchNearbyUsers test_client) (client_start sample_state) = Inr s'"
    by (simp add: send_mqtt_msg_def Let_def ask_def)
  then obtain s' where s: "send_mqtt_msg sample_lib sample_proto (CHeap 0 ''t'') 7 100000000070000000
      (SearchNearbyUsers test_client) (client_start sample_state) = Inr s'" ..
  from published_frame_readable [OF s] s show ?thesis by (auto simp: sample_proto_def)
qed

end
