(* ===== verification/Client_Stop.thy ===== *)
theory Client_Stop
  imports Client_Run
begin

text \<open>
  How the test client ends: which callbacks cannot fault, what each adds to the count of messages, and
  that the client has stopped by itself after the number of messages it was asked for.
\<close>

section \<open>Events that cannot fault\<close>

text \<open>
  The library hands over a result for the filters, at least one granted level, and a connection only
  to a client with a topic to publish to.
\<close>

fun sound_event :: "mosq_lib \<Rightarrow> mosq_config \<Rightarrow> mevent \<Rightarrow> bool" where
  "sound_event L c (On_Connect result) \<longleftrightarrow> topic c \<noteq> CNull"
| "sound_event L c (On_Message m) \<longleftrightarrow> \<not> isl (filtered L (filter_outs c) (msg_topic m))"
| "sound_event L c (On_Subscribe mid granted) \<longleftrightarrow> granted \<noteq> []"
| "sound_event L c (On_Publish mid) \<longleftrightarrow> True"
| "sound_event L c (On_Disconnect rc) \<longleftrightarrow> True"
| "sound_event L c (On_Log level str) \<longleftrightarrow> True"

text \<open>The messages that are printed and counted.\<close>

fun wanted_event :: "mosq_lib \<Rightarrow> mosq_config \<Rightarrow> mevent \<Rightarrow> bool" where
  "wanted_event L c (On_Message m) \<longleftrightarrow>
     \<not> (msg_retain m \<and> no_retain c) \<and> filtered L (filter_outs c) (msg_topic m) = Inr False"
| "wanted_event L c _ \<longleftrightarrow> False"

section \<open>What one callback adds to the count\<close>

lemma send_mqtt_msg_defined: "dest \<noteq> CNull \<Longrightarrow> \<exists>s'. send_mqtt_msg L P dest ty mid msg s = Inr s'"
  by (cases dest) (auto simp: send_mqtt_msg_def Let_def split: prod.split)

lemma send_mqtt_msg_count: "send_mqtt_msg L P dest ty mid msg s = Inr s' \<Longrightarrow> g_msg_count s' = g_msg_count s"
proof -
  assume "send_mqtt_msg L P dest ty mid msg s = Inr s'"
  then have "s' = s\<lparr>c_trace := c_trace s'\<rparr>" using send_mqtt_msg_trace by blast
  then show ?thesis by (metis client.select_convs(5) client.surjective client.update_convs(3))
qed

lemma complain_count [simp]: "g_msg_count (complain m s) = g_msg_count s"
  by (simp add: complain_def emit_def)

lemma connect_callback_count:
  assumes "topic (c_conf s) \<noteq> CNull"
  shows "\<exists>s'. my_connect_callback L P result s = Inr s' \<and> g_msg_count s' = g_msg_count s"
proof (cases "result = 0")
  case True
  let ?t = "subscribe_all L (topics (c_conf s)) (s\<lparr>g_connected := True\<rparr>)"
  obtain s' where s': "send_msg L P (topic (c_conf s)) ?t = Inr s'"
    using send_mqtt_msg_defined [OF assms] unfolding send_msg_def by blast
  have "g_msg_count s' = g_msg_count ?t"
    using s' unfolding send_msg_def by (rule send_mqtt_msg_count)
  then have "g_msg_count s' = g_msg_count s" by (simp add: subscribe_all_trace)
  moreover have "my_connect_callback L P result s = send_msg L P (topic (c_conf s)) ?t"
    by (simp add: my_connect_callback_def True subscribe_all_trace)
  ultimately show ?thesis using s' by simp
qed (simp add: my_connect_callback_def)

lemma dump_count: "g_msg_count (dump_mqtt P m s) = g_msg_count s \<and> c_conf (dump_mqtt P m s) = c_conf s"
  using prints_dump [of s P m] by (auto simp: prints_def)

lemma message_callback_count:
  assumes "\<not> isl (filtered L (filter_outs (c_conf s)) (msg_topic m))" "0 < msg_count (c_conf s)"
  shows "\<exists>s'. my_message_callback L P m s = Inr s' \<and>
    g_msg_count s' = g_msg_count s + (if process_messages s \<and> wanted_event L (c_conf s) (On_Message m) then 1 else 0)"
proof -
  obtain b where b: "filtered L (filter_outs (c_conf s)) (msg_topic m) = Inr b"
    using assms(1) by (cases "filtered L (filter_outs (c_conf s)) (msg_topic m)") auto
  have c: "g_msg_count (counted (dump_mqtt P m s)) = g_msg_count s + 1"
    using assms(2) dump_count [of P m s] by (simp add: counted_def Let_def emit_def)
  show ?thesis by (cases b) (auto simp: my_message_callback_def b c)
qed

lemma subscribe_callback_count:
  "granted \<noteq> [] \<Longrightarrow> \<exists>s'. my_subscribe_callback mid granted s = Inr s' \<and> g_msg_count s' = g_msg_count s"
  by (cases granted) (auto simp: my_subscribe_callback_def emit_def)

lemma callback_count:
  assumes "sound_event L (c_conf s) e" "0 < msg_count (c_conf s)"
  shows "\<exists>s'. run_callback L P e s = Inr s' \<and>
    g_msg_count s' = g_msg_count s + (if process_messages s \<and> wanted_event L (c_conf s) e then 1 else 0)"
  using assms
proof (cases e)
  case (On_Message m)
  then show ?thesis using message_callback_count [of L s m P] assms by simp
qed (simp_all add: connect_callback_count subscribe_callback_count my_publish_callback_def
    my_disconnect_callback_def my_log_callback_def emit_def Let_def del: wanted_event.simps(1))

section \<open>A run of callbacks\<close>

lemma run_callbacks_count:
  assumes "count_inv s" "0 < msg_count (c_conf s)" "list_all (sound_event L (c_conf s)) es"
  shows "\<exists>t. run_callbacks L P es s = Inr t \<and>
    g_msg_count t = min (msg_count (c_conf s)) (g_msg_count s + int (length (filter (wanted_event L (c_conf s)) es)))"
  using assms
proof (induction es arbitrary: s)
  case Nil
  then show ?case by (simp add: count_inv_def)
next
  case (Cons e es)
  obtain u where u: "run_callback L P e s = Inr u" "g_msg_count u = g_msg_count s +
      (if process_messages s \<and> wanted_event L (c_conf s) e then 1 else 0)"
    using callback_count [of L s e P] Cons.prems by auto
  have k: "c_conf u = c_conf s" "count_inv u"
    using run_callback_kept [OF u(1)] Cons.prems(1) by (simp_all add: kept_def)
  obtain t where t: "run_callbacks L P es u = Inr t" "g_msg_count t =
      min (msg_count (c_conf s)) (g_msg_count u + int (length (filter (wanted_event L (c_conf s)) es)))"
    using Cons.IH [of u] k Cons.prems by auto
  have "process_messages s \<longleftrightarrow> g_msg_count s < msg_count (c_conf s)" "g_msg_count s \<le> msg_count (c_conf s)"
    using Cons.prems(1,2) by (simp_all add: count_inv_def)
  with t(2) u(2) have "g_msg_count t = min (msg_count (c_conf s))
      (g_msg_count s + int (length (filter (wanted_event L (c_conf s)) (e # es))))"
    by (auto split: if_splits)
  then show ?case using u(1) t(1) by simp
qed

section \<open>Properties\<close>

text \<open>
  C9. A client that wants a number of messages stops by itself: whatever callbacks the library runs,
  as long as they cannot fault, the count is the number of wanted messages among them up to the number
  asked for; once it is reached, no further message is processed and the disconnect was requested once.
\<close>

theorem client_stops:
  assumes "0 < msg_count (conf st)" "list_all (sound_event L (conf st)) es"
  shows "\<exists>s. run_callbacks L P es (client_start st) = Inr s \<and>
    (let n = int (length (filter (wanted_event L (conf st)) es)) in
     g_msg_count s = min (msg_count (conf st)) n \<and>
     (process_messages s \<longleftrightarrow> n < msg_count (conf st)) \<and>
     disconnects (c_trace s) = (if n < msg_count (conf st) then 0 else 1))"
proof -
  have i: "count_inv (client_start st)" using count_inv_start assms(1) by simp
  have c: "c_conf (client_start st) = conf st" "g_msg_count (client_start st) = 0"
    by (simp_all add: client_start_def)
  obtain s where s: "run_callbacks L P es (client_start st) = Inr s"
    "g_msg_count s = min (msg_count (conf st)) (int (length (filter (wanted_event L (conf st)) es)))"
    using run_callbacks_count [OF i, of L es P] assms by (auto simp: c)
  have "c_conf s = conf st" "count_inv s"
    using run_callbacks_kept [OF s(1)] i c by (simp_all add: kept_def)
  with s(2) assms(1) have "(process_messages s \<longleftrightarrow> g_msg_count s < msg_count (conf st)) \<and>
      disconnects (c_trace s) = (if process_messages s then 0 else 1)"
    by (simp add: count_inv_def)
  with s show ?thesis by (auto simp: Let_def)
qed

theorem client_stops_witness:
  "\<exists>s. run_callbacks sample_lib sample_proto [On_Message stray_message, On_Publish 3, On_Message stray_message]
      (client_start one_message_state) = Inr s \<and> g_msg_count s = 1 \<and> \<not> process_messages s \<and>
    disconnects (c_trace s) = 1"
proof -
  have f: "filtered sample_lib [] t = Inr False" for t by (simp add: filtered_def)
  have c: "msg_count (conf one_message_state) = 1" "filter_outs (conf one_message_state) = []"
    "no_retain (conf one_message_state) = False"
    by (simp_all add: one_message_state_def sample_state_def init_config_def)
  show ?thesis
    using client_stops [of one_message_state sample_lib
        "[On_Message stray_message, On_Publish 3, On_Message stray_message]" sample_proto]
    by (simp add: c f Let_def)
qed

end
