(* ===== verification/Deployment.thy ===== *)
theory Deployment
  imports Auth Client_Stop
begin

text \<open>
  The client and the plugin together: the logins the client produces by default and in the documented
  call, as the connect check of the plugin sees them.
\<close>

section \<open>The anonymous login\<close>

lemma text_of_shown: "show_ptr p = x \<Longrightarrow> x \<noteq> ''(null)'' \<Longrightarrow> text_of p = Some x"
  by (cases p) (simp_all add: show_ptr_def text_of_def)

lemma dec_nat_shown: "dec_nat n \<noteq> ''(null)''"
proof
  assume "dec_nat n = ''(null)''"
  then have "CHR ''('' \<in> set (dec_nat n)" by simp
  then have "is_digit CHR ''(''" by (rule dec_nat_digits)
  then show False by (simp add: is_digit_def schar_def)
qed

lemma anonymous_uid:
  assumes "lrand48_ok E"
  shows "\<exists>u uid. dec_int (lrand48_value E + 9223372000000000000) = u \<and> u \<noteq> ''(null)'' \<and>
    get_uid u = Inr uid \<and> uid \<noteq> -1 \<and> anon_uid_base \<le> uid"
proof -
  let ?uid = "lrand48_value E + 9223372000000000000"
  have r: "0 \<le> ?uid" "?uid \<le> long_max" "anon_uid_base \<le> ?uid" "?uid \<noteq> -1"
    using assms by (auto simp: lrand48_ok_def long_max_def anon_uid_base_def)
  have e: "dec_int ?uid = dec_nat (nat ?uid)" using r(1) by (simp only: dec_int_def not_less [symmetric] if_False simp_thms)
  have "get_uid (dec_nat (nat ?uid)) = Inr ?uid" using get_uid_dec_nat [of "nat ?uid"] r(1,2) by simp
  then show ?thesis unfolding e using dec_nat_shown r(3,4) by blast
qed

lemma anonymous_check:
  assumes "responsive W" "get_uid u = Inr uid" "uid \<noteq> -1" "anon_uid_base \<le> uid"
  shows "\<exists>t es. mosquitto_auth_connect_check W (Some u) (Some ''codein.tv'') (Some cid) sd tr =
      Some (Inr (MOSQ_ERR_SUCCESS, t)) \<and> t = tr @ es \<and> statements es = []"
proof -
  obtain t where t: "on_client_online W uid ''codein.tv'' cid sd tr = Some (Inr t)"
    using on_client_online_returns [OF assms(1)] by blast
  from t obtain es where "t = tr @ es" "statements es = []"
    by (rule on_client_online_trace) blast
  moreover have "mosquitto_auth_connect_check W (Some u) (Some ''codein.tv'') (Some cid) sd tr =
      accept (on_client_online W uid ''codein.tv'' cid sd tr)"
    using assms(2-4) by (simp add: mosquitto_auth_connect_check_def codein_password_def)
  ultimately show ?thesis using t by (simp add: accept_def)
qed

section \<open>The documented call\<close>

definition documented_args :: "string \<Rightarrow> string \<Rightarrow> string \<Rightarrow> string list" where
  "documented_args b t h =
     [''-b'', b, ''-t'', t, ''-h'', h, ''-u'', ''codein'', ''-P'', ''codein.tv'']"

text \<open>The configuration those arguments give, with \<open>n\<close> the number of the first allocation.\<close>

definition documented_conf :: "client_env \<Rightarrow> nat \<Rightarrow> string \<Rightarrow> string \<Rightarrow> string \<Rightarrow> mosq_config" where
  "documented_conf E n b t h =
     (init_config E)\<lparr>topic := CHeap n b, topics := [CHeap (n + 2) t], host := CHeap (n + 3) h,
       username := CHeap (n + 4) ''codein'', password := CHeap (n + 5) ''codein.tv''\<rparr>"

lemma option_b:
  "malloc_ok E (next_alloc st) \<Longrightarrow> pub_topic_check E v \<noteq> mosq_err_inval E \<Longrightarrow>
    option_step E mode ''-b'' (v # rest) st =
      Consumed 1 (st\<lparr>next_alloc := Suc (next_alloc st), conf := (conf st)\<lparr>topic := CHeap (next_alloc st) v\<rparr>\<rparr>)"
  by (simp add: chain_defs opt_arg_def check_pub_def set_dup_def c_strdup_def)

lemma option_h:
  "malloc_ok E (next_alloc st) \<Longrightarrow> option_step E mode ''-h'' (v # rest) st =
      Consumed 1 (st\<lparr>next_alloc := Suc (next_alloc st), conf := (conf st)\<lparr>host := CHeap (next_alloc st) v\<rparr>\<rparr>)"
  by (simp add: chain_defs opt_arg_def set_dup_def c_strdup_def)

lemma option_u_step:
  "malloc_ok E (next_alloc st) \<Longrightarrow> option_step E mode ''-u'' (v # rest) st =
      Consumed 1 (st\<lparr>next_alloc := Suc (next_alloc st), conf := (conf st)\<lparr>username := CHeap (next_alloc st) v\<rparr>\<rparr>)"
  by (simp add: chain_defs opt_arg_def set_dup_def c_strdup_def)

lemma option_P:
  "malloc_ok E (next_alloc st) \<Longrightarrow> option_step E mode ''-P'' (v # rest) st =
      Consumed 1 (st\<lparr>next_alloc := Suc (next_alloc st), conf := (conf st)\<lparr>password := CHeap (next_alloc st) v\<rparr>\<rparr>)"
  by (simp add: chain_defs opt_arg_def set_dup_def c_strdup_def)

lemma documented_line:
  assumes "\<forall>n. malloc_ok E n" "pub_topic_check E b \<noteq> mosq_err_inval E"
    "sub_topic_check E t \<noteq> mosq_err_inval E" "conf st = init_config E"
  shows "\<exists>st'. client_config_line_proc E CLIENT_SUB (documented_args b t h) st = Inr (0, st') \<and>
    conf st' = documented_conf E (next_alloc st) b t h"
  using assms
  by (simp add: documented_args_def documented_conf_def option_b option_h option_u_step option_P option_t_sub
      init_config_def)

lemma documented_load:
  assumes "config_path E CLIENT_SUB = None" "\<forall>n. malloc_ok E n"
    "pub_topic_check E b \<noteq> mosq_err_inval E" "sub_topic_check E t \<noteq> mosq_err_inval E"
  shows "\<exists>st n. client_config_load E CLIENT_SUB (documented_args b t h) = Inr (0, st) \<and>
    conf st = documented_conf E n b t h"
proof -
  have "conf (warned E) = init_config E" by (simp add: warned_def log_err_def load_start_def)
  then obtain st n where st: "client_config_line_proc E CLIENT_SUB (documented_args b t h) (warned E) = Inr (0, st)"
    "conf st = documented_conf E n b t h"
    using documented_line [OF assms(2-4)] by blast
  have c: "host (conf st) \<noteq> CNull" "username (conf st) \<noteq> CNull" "password (conf st) \<noteq> CNull"
    "topics (conf st) \<noteq> []" "topic (conf st) \<noteq> CNull" "clean_session (conf st)" "will_payload (conf st) = CNull"
    "\<not> will_retain (conf st)" "certfile (conf st) = CNull" "keyfile (conf st) = CNull" "psk (conf st) = CNull"
    by (simp_all add: st(2) documented_conf_def init_config_def)
  have "check_config E st = (0, st)"
    by (simp add: check_config_def check_tls_def Let_def c)
  moreover have "\<exists>st'. load_defaults E CLIENT_SUB st = Inr (0, st') \<and> conf st' = conf st"
    by (simp add: load_defaults_def default_login_def default_sub_def topic_count_def Let_def c
        warn_unless_quiet_def log_err_def)
  ultimately show ?thesis
    using load_without_file [OF assms(1), of "documented_args b t h"] st by (auto simp: warned_def)
qed

end
