(* ===== verification/Spec2Isabelle.thy ===== *)
theory Spec2Isabelle
  imports Lifecycle Proxy_Url Deployment
begin

text \<open>
  A model of the C++ part of the repository, under \<open>src/src/mqtt\<close>: the authentication plugin of the
  mosquitto broker (\<open>auth_plugin.cc\<close>) and the test client \<open>mqttest\<close> (\<open>client_shared.cc\<close>,
  \<open>client_shared.h\<close>, \<open>mqttest.cc\<close>).

  The two programs meet at a connection: the client loads its configuration, makes an identifier and a
  login and connects; the broker, which is patched to do so, calls the connect check of the plugin with
  that login, the plugin asks the database about the session, updates it and announces the client on
  Kafka; afterwards client and broker exchange framed messages through callbacks.

  Conventions. A step of the program that could be undefined behaviour (a null pointer, a signed
  overflow, an index or a buffer out of bounds, a second or a wrong free, an unset variable) is a value
  of the type \<open>fault\<close>; an operation that can reach one answers \<open>Inl fault\<close> or \<open>Inr result\<close>. A loop
  that need not end is a \<open>partial_function\<close> in the option type, where \<open>None\<close> says that it does not
  return. Libraries are parameters: records of functions that answer a call from the trace of the calls
  before it (\<open>world\<close> for PostgreSQL, Kafka, sockets and the clock; \<open>client_env\<close> for the allocator, the
  environment, the configuration file, the topic checks of libmosquitto and the build options;
  \<open>mosq_lib\<close> for libmosquitto; \<open>proto\<close> for the classes protoc generates). No theorem fixes what they do
  except through a named hypothesis: \<open>responsive\<close> (the queue does not stay full, the peer has an
  address, the clock fits), \<open>\<forall>n. malloc_ok E n\<close> (no allocation fails), \<open>lrand48_ok\<close> (31 bits, as
  documented), \<open>small_pid\<close> (seven digits). Lines printed are kept without their line ends.

  Theories, in the order of their imports.

  \<^item> \<open>Prelude\<close>: faults and their sequencing, \<open>long\<close> arithmetic, list lemmas. \<open>CString\<close>: characters,
    decimal printing, \<open>atoi\<close>, \<open>snprintf\<close>, \<open>strtok\<close>. \<open>Wire\<close>: the ten-byte header \<open>mqttest\<close> writes and
    reads, and that reading inverts writing.
  \<^item> \<open>Uid\<close>: \<open>get_uid\<close>, in closed form for every string. \<open>Plugin_World\<close>: the calls of the plugin, the
    monitors for pooled connections and query results, and the locale \<open>pool_user\<close>. \<open>Session_DB\<close>:
    \<open>check_token\<close> and \<open>update_client_status\<close>, their answers, statements and resources, and how the
    database reads the literal of the token. \<open>Kafka\<close>:
    \<open>kafka_send\<close>, \<open>on_client_online\<close>, the delivery report, the poll thread. \<open>Auth\<close>: the callbacks of
    the broker, the admission policy \<open>admits\<close>, and that \<open>mosquitto_auth_connect_check\<close> implements it.
    \<open>Lifecycle\<close>: initialisation and cleanup over the global pointers, with the exceptions nobody
    catches and the lines printed, as a step relation.
  \<^item> \<open>Config\<close>: \<open>struct mosq_config\<close> with the ownership of its strings, \<open>init_config\<close>,
    \<open>client_config_cleanup\<close>. \<open>Parse_State\<close>: the state of the option loop, the shapes of its branches
    and the contract \<open>option_group\<close>. \<open>Socks\<close> and \<open>Proxy_Url\<close>: \<open>mosquitto__urldecode\<close> and
    \<open>mosquitto__parse_socks_url\<close>, ownership and round trips. \<open>Options\<close>: every branch of
    \<open>client_config_line_proc\<close> in ten groups that interpret the contract. \<open>Line_Proc\<close>: what the loop
    returns, and that it composes over concatenation (locale \<open>local_group\<close>). \<open>Load\<close>:
    \<open>client_config_load\<close>, file, checks and defaults.
  \<^item> \<open>Setup\<close>: \<open>client_opts_set\<close>, \<open>client_id_generate\<close>, \<open>client_connect\<close>, and a reference interpreter
    for the list of settings. \<open>Usage\<close>: \<open>print_usage\<close>. \<open>Mqttest\<close>: the callbacks, the senders and \<open>main\<close>.
    \<open>Client_Run\<close>: the locales \<open>stage\<close> (a stage of \<open>main\<close> goes on, or has closed the library once) and
    \<open>handler\<close> (a callback keeps the configuration and the count of messages), the state machine of the
    callbacks and its invariant. \<open>Client_Stop\<close>: that the client stops by itself.
  \<^item> \<open>Deployment\<close> and this theory: the logins of the client as the plugin sees them.

  Bounds. No fuel is used: the loops over strings, arguments and file lines are functions with a measure,
  the retry loop of \<open>kafka_send\<close> is proved to return exactly when the queue is not full for ever, and the
  poll loop is proved never to return. Buffers keep their sizes (24, 50, 255, 510 and 1024 bytes).

  What the theorems show is not always what the code means to do: a user name of many digits overflows,
  blanks are rejected and \<open>P\<close> is skipped, a quote in a token ends the literal of the query and the rest is read as SQL, query
  results leak, the cleanup of the plugin hangs after a successful start or destroys the producer twice,
  a blank line of the configuration file and a long user name are out of bounds, a string literal may be
  freed, \<open>%40\<close> decodes to a colon.

  Not modelled: the macro of \<open>syscall_def.h\<close> (the thread number is an argument), the memory of message
  payloads and of \<open>argv\<close> and of the arrays of topics and filters, the interleaving of the poll thread with the callbacks (they share only
  librdkafka), text encodings. With \<open>WITH_SOCKS\<close> the result of the proxy setting is taken as a local
  variable, which the code forgets to declare. Outside the C++ part: \<open>src/robot\<close> (Kotlin), \<open>src/cat\<close>
  (JavaScript), \<open>mqtt.py\<close>, the patch of the broker, configuration files, database scripts and pages.
\<close>

section \<open>Properties of the client and the plugin together\<close>

text \<open>
  C7. Started without a configuration directory and without arguments, the subscriber logs in with a name
  and a password that the connect check of the plugin admits as an anonymous uid, for every client
  identifier and without a statement to the database.
\<close>

theorem default_client_admitted:
  assumes "config_path E CLIENT_SUB = None" "\<forall>n. malloc_ok E n" "lrand48_ok E" "responsive W"
  shows "\<exists>st t es. client_config_load E CLIENT_SUB [] = Inr (0, st) \<and>
    mosquitto_auth_connect_check W (text_of (username (conf st))) (text_of (password (conf st)))
      (Some cid) sd tr = Some (Inr (MOSQ_ERR_SUCCESS, t)) \<and> t = tr @ es \<and> statements es = []"
proof -
  obtain u uid where u: "dec_int (lrand48_value E + 9223372000000000000) = u" "u \<noteq> ''(null)''"
    "get_uid u = Inr uid" "uid \<noteq> -1" "anon_uid_base \<le> uid"
    using anonymous_uid [OF assms(3)] by blast
  obtain st where st: "client_config_load E CLIENT_SUB [] = Inr (0, st)"
    "show_ptr (username (conf st)) = u" "show_ptr (password (conf st)) = ''codein.tv''"
    using load_no_arguments [OF assms(1-3), unfolded u(1)] by blast
  have "text_of (username (conf st)) = Some u" "text_of (password (conf st)) = Some ''codein.tv''"
    using text_of_shown [OF st(2) u(2)] text_of_shown [OF st(3)] by simp_all
  with st(1) anonymous_check [OF assms(4) u(3-5)] show ?thesis by auto
qed

theorem default_client_admitted_witness:
  "\<exists>st t. client_config_load bare_env CLIENT_SUB [] = Inr (0, st) \<and>
    mosquitto_auth_connect_check sample_world (text_of (username (conf st))) (text_of (password (conf st)))
      (Some ''code-4242-box'') 4 [] = Some (Inr (MOSQ_ERR_SUCCESS, t))"
proof -
  have "\<forall>n. malloc_ok bare_env n" by simp
  from default_client_admitted [OF bare_env_simps(4) this bare_env_simps(3) responsive_sample_world]
  show ?thesis by blast
qed

text \<open>
  C24. Without a configuration directory, the call documented at the head of \<open>mqttest.cc\<close>, with valid topics, is loaded, logs in with the
  service account, which the connect check admits without leaving a trace and the ACL check lets read
  and write everything; once connected, the client subscribes to the one topic and publishes its search
  to the other.
\<close>

theorem documented_call:
  assumes "config_path E CLIENT_SUB = None" "\<forall>n. malloc_ok E n"
    "pub_topic_check E b \<noteq> mosq_err_inval E" "sub_topic_check E t \<noteq> mosq_err_inval E"
  shows "\<exists>st s x y. client_config_load E CLIENT_SUB (documented_args b t h) = Inr (0, st) \<and>
    text_of (host (conf st)) = Some h \<and>
    mosquitto_auth_connect_check W (text_of (username (conf st))) (text_of (password (conf st)))
      (Some cid) sd tr = Some (Inr (MOSQ_ERR_SUCCESS, tr)) \<and>
    mosquitto_auth_acl_check (Some cid) (text_of (username (conf st))) tp acc = Inr MOSQ_ERR_SUCCESS \<and>
    my_connect_callback L P 0 (client_start st) = Inr s \<and>
    c_trace s = c_trace (client_start st) @ [Subscribe (Some t) 0, Stderr x,
      Publish b (frame (live_number P LMT_SEARCH_NEARBY_USERS) 100000000070000000
        (bytes_of P (SearchNearbyUsers test_client))) 1 False, Stderr y]"
proof -
  obtain st n where st: "client_config_load E CLIENT_SUB (documented_args b t h) = Inr (0, st)"
    "conf st = documented_conf E n b t h"
    using documented_load [OF assms] by blast
  have c: "text_of (username (conf st)) = Some ''codein''" "text_of (password (conf st)) = Some ''codein.tv''"
    "text_of (host (conf st)) = Some h" "topic (conf st) = CHeap n b" "topics (conf st) = [CHeap (n + 2) t]"
    "qos (conf st) = 0" "c_conf (client_start st) = conf st"
    by (simp_all add: st(2) documented_conf_def text_of_def init_config_def client_start_def)
  have "get_uid ''codein'' = Inr (-1)" by (simp add: get_uid_def schar_def)
  then have "mosquitto_auth_connect_check W (Some ''codein'') (Some ''codein.tv'') (Some cid) sd tr =
      Some (Inr (MOSQ_ERR_SUCCESS, tr))"
    by (simp add: mosquitto_auth_connect_check_def service_login_def codein_password_def)
  moreover have "mosquitto_auth_acl_check (Some cid) (Some ''codein'') tp acc = Inr MOSQ_ERR_SUCCESS"
    by (simp add: mosquitto_auth_acl_check_def Let_def)
  moreover obtain s where s: "my_connect_callback L P 0 (client_start st) = Inr s"
    using connect_callback_count [of "client_start st" L P 0] by (auto simp: c)
  moreover have "text_of (CHeap (n + 2) t) = Some t" by (simp add: text_of_def)
  ultimately show ?thesis
    using connect_callback_trace [OF s] st(1) by (simp add: c)
qed

theorem documented_call_witness:
  "\<exists>st. client_config_load bare_env CLIENT_SUB (documented_args ''im/sys/send'' ''im/user/1000000'' ''codein.tv'') =
      Inr (0, st) \<and>
    mosquitto_auth_connect_check sample_world (text_of (username (conf st))) (text_of (password (conf st)))
      (Some ''code-4242-box'') 4 [] = Some (Inr (MOSQ_ERR_SUCCESS, []))"
proof -
  have v: "\<forall>n. malloc_ok bare_env n" "pub_topic_check bare_env ''im/sys/send'' \<noteq> mosq_err_inval bare_env"
    "sub_topic_check bare_env ''im/user/1000000'' \<noteq> mosq_err_inval bare_env"
    by (simp_all add: bare_env_def sample_env_def)
  from documented_call [OF bare_env_simps(4) v] show ?thesis by blast
qed

end
